(* ===== verification/Go_Prelude.thy ===== *)
theory Go_Prelude
  imports Main "HOL-Library.Word"
begin

section \<open>Vocabulary of the Go model\<close>

text \<open>
  What every component of the library shares: the outcome of a Go call that may panic, the
  dynamic values an \<open>interface{}\<close> variable can hold as far as this repository looks at them,
  Go's truncating integer division, the decimal rendering of integers, and the part of
  \<open>fmt.Sprintf\<close> the repository's format strings use.
  Conventions used by all theories: a pair of results \<open>(T, error)\<close> of which exactly one is
  meaningful is a sum \<open>error + T\<close>; a nil-able pointer, map entry or interface is an
  \<open>option\<close>; a Go \<open>string\<close> (a byte string) is HOL's \<open>string\<close>, whose characters are bytes.
\<close>

named_theorems go_model \<open>equations that unfold the sequencing of model operations\<close>

subsection \<open>Calls that may panic\<close>

datatype 'a go = Ret (the_ret: 'a) | Panic string

primrec go_bind :: "'a go \<Rightarrow> ('a \<Rightarrow> 'b go) \<Rightarrow> 'b go" where
  "go_bind (Ret x) f = f x"
| "go_bind (Panic m) f = Panic m"

primrec panics :: "'a go \<Rightarrow> bool" where
  "panics (Ret x) = False"
| "panics (Panic m) = True"

lemma go_bind_Ret [simp]: "go_bind m Ret = m"
  by (cases m) simp_all

lemma go_bind_assoc [simp]: "go_bind (go_bind m f) g = go_bind m (\<lambda>x. go_bind (f x) g)"
  by (cases m) simp_all

lemma go_bind_eq_Ret: "go_bind m f = Ret y \<longleftrightarrow> (\<exists>x. m = Ret x \<and> f x = Ret y)"
  by (cases m) simp_all

lemma go_bind_sum_eq_Ret:
  "go_bind m (\<lambda>(r, st). case r of Inl e \<Rightarrow> f e st | Inr x \<Rightarrow> g x st) = Ret y \<longleftrightarrow>
     (\<exists>e st. m = Ret (Inl e, st) \<and> f e st = Ret y) \<or> (\<exists>x st. m = Ret (Inr x, st) \<and> g x st = Ret y)"
  by (cases m) (auto split: prod.split sum.split)

lemma not_panics_iff: "\<not> panics m \<longleftrightarrow> (\<exists>x. m = Ret x)"
  by (cases m) simp_all

lemma panics_bind: "panics (go_bind m f) \<longleftrightarrow> panics m \<or> (\<exists>x. m = Ret x \<and> panics (f x))"
  by (cases m) simp_all

declare go_bind.simps [go_model]

subsection \<open>Dynamic values\<close>

text \<open>
  A value of type \<open>interface{}\<close>. The constructors are the dynamic types the repository tests for
  or prints itself; a value of any other type is a \<open>VForeign\<close>, carrying what the code can
  observe of it: the name of its type and how it prints under \<open>%v\<close> and under \<open>%s\<close>.
\<close>

datatype gval =
    VNil
  | VBool bool
  | VInt int
  | VString string
  | VForeign (fval_type: string) (fval_v: string) (fval_s: string)

primrec as_string :: "gval \<Rightarrow> string option" where
  "as_string VNil = None"
| "as_string (VBool b) = None"
| "as_string (VInt n) = None"
| "as_string (VString s) = Some s"
| "as_string (VForeign t v s) = None"

lemma as_string_Some_iff [simp]: "as_string v = Some s \<longleftrightarrow> v = VString s"
  by (cases v) auto

subsection \<open>Integers\<close>

text \<open>Go's \<open>/\<close> and \<open>%\<close> truncate towards zero; the divisors in this code are positive constants.\<close>

definition go_div :: "int \<Rightarrow> int \<Rightarrow> int" where
  "go_div a b = sgn a * sgn b * (\<bar>a\<bar> div \<bar>b\<bar>)"

definition go_mod :: "int \<Rightarrow> int \<Rightarrow> int" where
  "go_mod a b = a - b * go_div a b"

lemma go_div_nonneg: "0 \<le> a \<Longrightarrow> 0 < b \<Longrightarrow> go_div a b = a div b"
  by (cases "a = 0") (simp_all add: go_div_def)

lemma go_mod_nonneg: "0 \<le> a \<Longrightarrow> 0 < b \<Longrightarrow> go_mod a b = a mod b"
  by (simp add: go_mod_def go_div_nonneg minus_mult_div_eq_mod)

definition digit_char :: "nat \<Rightarrow> char" where
  "digit_char d = (if d < 10 then ''0123456789'' ! d else CHR ''?'')"

fun nat_digits :: "nat \<Rightarrow> string" where
  "nat_digits n = (if n < 10 then [digit_char n] else nat_digits (n div 10) @ [digit_char (n mod 10)])"

declare nat_digits.simps [simp del]

definition itoa :: "int \<Rightarrow> string" where
  "itoa n = (if n < 0 then CHR ''-'' # nat_digits (nat (- n)) else nat_digits (nat n))"

definition digit_val :: "char \<Rightarrow> nat" where
  "digit_val c = of_char c - 48"

definition digits_val :: "string \<Rightarrow> nat" where
  "digits_val s = foldl (\<lambda>n c. 10 * n + digit_val c) 0 s"

lemma digit_val_char: "d < 10 \<Longrightarrow> digit_val (digit_char d) = d"
proof -
  assume "d < 10"
  then have "d \<in> {0,1,2,3,4,5,6,7,8,9}" by auto
  then show ?thesis by (auto simp: digit_char_def digit_val_def)
qed

lemma digits_val_nat_digits [simp]: "digits_val (nat_digits n) = n"
proof (induction n rule: nat_digits.induct)
  case (1 n)
  show ?case
  proof (cases "n < 10")
    case True
    then show ?thesis by (simp add: nat_digits.simps [of n] digits_val_def digit_val_char)
  next
    case False
    with "1" have "digits_val (nat_digits (n div 10)) = n div 10" by simp
    with False show ?thesis
      by (simp add: nat_digits.simps [of n] digits_val_def digit_val_char)
  qed
qed

lemma nat_digits_inj: "nat_digits m = nat_digits n \<Longrightarrow> m = n"
  by (metis digits_val_nat_digits)

lemma nat_digits_nonempty [simp]: "nat_digits n \<noteq> []"
  by (simp add: nat_digits.simps [of n])

lemma digit_char_not_minus: "d < 10 \<Longrightarrow> CHR ''-'' \<noteq> digit_char d"
proof -
  assume "d < 10"
  then have "d \<in> {0,1,2,3,4,5,6,7,8,9}" by auto
  then show ?thesis by (auto simp: digit_char_def)
qed

lemma nat_digits_no_minus: "CHR ''-'' \<notin> set (nat_digits n)"
proof (induction n rule: nat_digits.induct)
  case (1 n)
  then show ?case
    using digit_char_not_minus [of n] digit_char_not_minus [of "n mod 10"]
    by (auto simp: nat_digits.simps [of n])
qed

text \<open>\<open>strconv.Itoa\<close> and the verb \<open>%d\<close> are injective: a rendered number determines the number.\<close>

lemma itoa_inj: "itoa m = itoa n \<Longrightarrow> m = n"
proof -
  assume eq: "itoa m = itoa n"
  have sign: "\<And>k p. nat_digits k \<noteq> CHR ''-'' # p"
    by (metis list.set_intros(1) nat_digits_no_minus)
  have "(m < 0) = (n < 0)"
    using eq sign by (auto simp: itoa_def split: if_splits) metis+
  with eq show ?thesis
    by (auto simp: itoa_def split: if_splits dest!: nat_digits_inj)
qed

subsection \<open>\<open>fmt.Sprintf\<close>\<close>

text \<open>
  The repository's format strings use the plain verbs \<open>%s\<close>, \<open>%v\<close>, \<open>%d\<close> and \<open>%%\<close>.
  \<open>Sprintf\<close> follows \<open>fmt\<close>'s \<open>doPrintf\<close> on such formats, its error renderings included:
  a verb without an operand prints \<open>%!s(MISSING)\<close>, a format ending in a lone percent sign prints
  \<open>%!(NOVERB)\<close>, operands left over print as \<open>%!(EXTRA string=x)\<close>, and an operand of the wrong
  type prints as \<open>%!d(string=x)\<close>. \<open>plain_format\<close> says that a format has no other directive
  (no flag, width, precision or further verb); theorems about printed text assume it where the
  format is not a constant.
\<close>

primrec print_v :: "gval \<Rightarrow> string" where
  "print_v VNil = ''<nil>''"
| "print_v (VBool b) = (if b then ''true'' else ''false'')"
| "print_v (VInt n) = itoa n"
| "print_v (VString s) = s"
| "print_v (VForeign t v s) = v"

primrec go_type_name :: "gval \<Rightarrow> string" where
  "go_type_name VNil = ''''"
| "go_type_name (VBool b) = ''bool''"
| "go_type_name (VInt n) = ''int''"
| "go_type_name (VString s) = ''string''"
| "go_type_name (VForeign t v s) = t"

definition typed_print :: "gval \<Rightarrow> string" where
  "typed_print a = (if a = VNil then ''<nil>'' else go_type_name a @ ''='' @ print_v a)"

definition bad_verb :: "char \<Rightarrow> gval \<Rightarrow> string" where
  "bad_verb verb a = ''%!'' @ [verb] @ ''('' @ typed_print a @ '')''"

definition print_arg :: "char \<Rightarrow> gval \<Rightarrow> string" where
  "print_arg verb a =
     (if verb = CHR ''v'' then print_v a
      else if verb = CHR ''s'' then
        (case a of VString s \<Rightarrow> s | VForeign t v s \<Rightarrow> s | _ \<Rightarrow> bad_verb verb a)
      else if verb = CHR ''d'' then
        (case a of VInt n \<Rightarrow> itoa n | _ \<Rightarrow> bad_verb verb a)
      else bad_verb verb a)"

fun comma_join :: "string list \<Rightarrow> string" where
  "comma_join [] = ''''"
| "comma_join [x] = x"
| "comma_join (x # xs) = x @ '', '' @ comma_join xs"

definition extra_args :: "gval list \<Rightarrow> string" where
  "extra_args args = (if args = [] then '''' else ''%!(EXTRA '' @ comma_join (map typed_print args) @ '')'')"

fun Sprintf :: "string \<Rightarrow> gval list \<Rightarrow> string" where
  "Sprintf [] args = extra_args args"
| "Sprintf [c] args = (if c = CHR ''%'' then ''%!(NOVERB)'' else [c]) @ extra_args args"
| "Sprintf (c # verb # fmt) args =
     (if c \<noteq> CHR ''%'' then c # Sprintf (verb # fmt) args
      else if verb = CHR ''%'' then CHR ''%'' # Sprintf fmt args
      else (case args of
              [] \<Rightarrow> ''%!'' @ [verb] @ ''(MISSING)'' @ Sprintf fmt []
            | a # rest \<Rightarrow> print_arg verb a @ Sprintf fmt rest))"

fun plain_format :: "string \<Rightarrow> bool" where
  "plain_format [] = True"
| "plain_format [c] = True"
| "plain_format (c # verb # fmt) =
     (if c \<noteq> CHR ''%'' then plain_format (verb # fmt)
      else verb \<in> set ''svd%'' \<and> plain_format fmt)"

lemma Sprintf_no_directive: "CHR ''%'' \<notin> set fmt \<Longrightarrow> Sprintf fmt [] = fmt"
  by (induction fmt "[] :: gval list" rule: Sprintf.induct) (auto simp: extra_args_def)

lemma plain_format_no_directive: "CHR ''%'' \<notin> set fmt \<Longrightarrow> plain_format fmt"
  by (induction fmt rule: plain_format.induct) auto

subsection \<open>Maps and their iteration order\<close>

text \<open>
  Ranging over a Go map visits every key once, in an order the runtime picks anew each time.
  Code that ranges over a map takes that order as an argument: any list that enumerates the
  domain of the map. A theorem that holds for every such list holds for every order.
\<close>

definition ranges_over :: "'k list \<Rightarrow> ('k \<rightharpoonup> 'v) \<Rightarrow> bool" where
  "ranges_over ks m \<longleftrightarrow> distinct ks \<and> set ks = dom m"

lemma ranges_over_length: "ranges_over ks m \<Longrightarrow> length ks = card (dom m)"
  by (auto simp: ranges_over_def distinct_card [symmetric])

lemma ranges_over_finite: "ranges_over ks m \<Longrightarrow> finite (dom m)"
  by (metis List.finite_set ranges_over_def)

lemma ranges_over_exists: "finite (dom m) \<Longrightarrow> \<exists>ks. ranges_over ks m"
  by (metis finite_distinct_list ranges_over_def)

end
