(* ===== verification/Go_Strings.thy ===== *)
theory Go_Strings
  imports Go_Prelude "HOL-Library.Sublist"
begin

section \<open>The \<open>strings\<close> package\<close>

text \<open>
  The functions of Go's \<open>strings\<close> package that the repository calls, on byte strings, with the
  characterisations the components use: prefixes and suffixes as decompositions, splitting and
  joining as inverses. Splitting is only ever done at a one-byte separator, which is what
  \<open>Split\<close> and \<open>SplitN2\<close> take.
\<close>

subsection \<open>Prefixes and suffixes\<close>

definition HasPrefix :: "string \<Rightarrow> string \<Rightarrow> bool" where
  "HasPrefix s p \<longleftrightarrow> length p \<le> length s \<and> take (length p) s = p"

definition HasSuffix :: "string \<Rightarrow> string \<Rightarrow> bool" where
  "HasSuffix s p \<longleftrightarrow> length p \<le> length s \<and> drop (length s - length p) s = p"

definition TrimSuffix :: "string \<Rightarrow> string \<Rightarrow> string" where
  "TrimSuffix s p = (if HasSuffix s p then take (length s - length p) s else s)"

lemma HasPrefix_iff: "HasPrefix s p \<longleftrightarrow> (\<exists>t. s = p @ t)"
  by (metis HasPrefix_def append_eq_conv_conj append_take_drop_id le_add1 length_append)

lemma HasSuffix_iff: "HasSuffix s p \<longleftrightarrow> (\<exists>t. s = t @ p)"
proof
  assume "HasSuffix s p"
  then have "s = take (length s - length p) s @ p"
    by (metis HasSuffix_def append_take_drop_id)
  then show "\<exists>t. s = t @ p" ..
qed (auto simp: HasSuffix_def)

lemma HasSuffix_append [simp]: "HasSuffix (t @ p) p"
  by (auto simp: HasSuffix_iff)

lemma HasPrefix_append [simp]: "HasPrefix (p @ t) p"
  by (auto simp: HasPrefix_iff)

lemma TrimSuffix_append [simp]: "TrimSuffix (t @ p) p = t"
  by (simp add: TrimSuffix_def)

lemma HasSuffix_single: "HasSuffix s [c] \<longleftrightarrow> s \<noteq> [] \<and> last s = c"
  by (auto simp: HasSuffix_iff) (metis append_butlast_last_id)

lemma HasPrefix_single: "HasPrefix s [c] \<longleftrightarrow> s \<noteq> [] \<and> hd s = c"
  by (cases s) (auto simp: HasPrefix_iff)

subsection \<open>Contains, Replace, TrimRight\<close>

fun Contains :: "string \<Rightarrow> string \<Rightarrow> bool" where
  "Contains [] sub = (sub = [])"
| "Contains (c # s) sub = (HasPrefix (c # s) sub \<or> Contains s sub)"

lemma Contains_iff: "Contains s sub \<longleftrightarrow> (\<exists>a b. s = a @ sub @ b)"
proof (induction s)
  case Nil
  then show ?case by simp
next
  case (Cons c s)
  show ?case
  proof
    assume "Contains (c # s) sub"
    then consider (here) "HasPrefix (c # s) sub" | (later) "Contains s sub" by auto
    then show "\<exists>a b. c # s = a @ sub @ b"
    proof cases
      case here
      then show ?thesis by (metis HasPrefix_iff append_Nil)
    next
      case later
      with Cons show ?thesis by (metis append_Cons)
    qed
  next
    assume "\<exists>a b. c # s = a @ sub @ b"
    then obtain a b where ab: "c # s = a @ sub @ b" by blast
    show "Contains (c # s) sub"
    proof (cases a)
      case Nil
      with ab have "HasPrefix (c # s) sub" by simp
      then show ?thesis by simp
    next
      case (Cons x a')
      with ab Cons.IH show ?thesis by auto
    qed
  qed
qed

text \<open>\<open>strings.Replace(s, old, "", -1)\<close> for a non-empty \<open>old\<close>: drop every occurrence, left to right.\<close>

function RemoveAll :: "string \<Rightarrow> string \<Rightarrow> string" where
  "RemoveAll old s =
     (if old = [] \<or> s = [] then s
      else if HasPrefix s old then RemoveAll old (drop (length old) s)
      else hd s # RemoveAll old (tl s))"
  by pat_completeness auto
termination
  by (relation "measure (\<lambda>(old, s). length s)") auto

declare RemoveAll.simps [simp del]

lemma RemoveAll_absent: "\<not> Contains s old \<Longrightarrow> RemoveAll old s = s"
proof (induction s)
  case Nil
  then show ?case by (subst RemoveAll.simps) simp
next
  case (Cons c s)
  then show ?case by (subst RemoveAll.simps) simp
qed

lemma RemoveAll_prefix: "old \<noteq> [] \<Longrightarrow> RemoveAll old (old @ s) = RemoveAll old s"
  by (subst RemoveAll.simps) simp

text \<open>\<open>strings.TrimRight\<close> takes a set of characters to strip from the end, not a suffix.\<close>

definition TrimRight :: "string \<Rightarrow> string \<Rightarrow> string" where
  "TrimRight s cutset = rev (dropWhile (\<lambda>c. c \<in> set cutset) (rev s))"

lemma TrimRight_length: "length (TrimRight s cutset) \<le> length s"
  by (simp add: TrimRight_def) (metis length_dropWhile_le length_rev)

lemma TrimRight_shrinks:
  assumes "s \<noteq> []" and "last s \<in> set cutset"
  shows "length (TrimRight s cutset) < length s"
proof -
  from assms(1) obtain t where s: "s = t @ [last s]" by (metis append_butlast_last_id)
  then have "TrimRight s cutset = TrimRight t cutset"
    using assms(2) by (metis TrimRight_def dropWhile.simps(2) rev_eq_Cons_iff rev_rev_ident)
  also have "length \<dots> \<le> length t" by (rule TrimRight_length)
  also have "length t < length s" by (metis s length_append_singleton lessI)
  finally show ?thesis .
qed

subsection \<open>Split and Join\<close>

fun Split :: "string \<Rightarrow> char \<Rightarrow> string list" where
  "Split [] sep = [[]]"
| "Split (c # s) sep =
     (if c = sep then [] # Split s sep
      else (case Split s sep of [] \<Rightarrow> [[c]] | p # ps \<Rightarrow> (c # p) # ps))"

definition SplitN2 :: "string \<Rightarrow> char \<Rightarrow> string list" where
  "SplitN2 s sep =
     (if sep \<in> set s
      then [takeWhile (\<lambda>c. c \<noteq> sep) s, tl (dropWhile (\<lambda>c. c \<noteq> sep) s)]
      else [s])"

fun Join :: "string list \<Rightarrow> string \<Rightarrow> string" where
  "Join [] sep = []"
| "Join [s] sep = s"
| "Join (s # t # ss) sep = s @ sep @ Join (t # ss) sep"

lemma Split_nonempty [simp]: "Split s sep \<noteq> []"
  by (induction s) (auto split: list.splits)

lemma Join_Cons: "ss \<noteq> [] \<Longrightarrow> Join (s # ss) sep = s @ sep @ Join ss sep"
  by (cases ss) simp_all

lemma Join_Split: "Join (Split s sep) [sep] = s"
proof (induction s)
  case Nil
  then show ?case by simp
next
  case (Cons c s)
  then show ?case
    by (cases "Split s sep"; cases "tl (Split s sep)") (auto simp: Join_Cons)
qed

lemma Split_pieces: "p \<in> set (Split s sep) \<Longrightarrow> sep \<notin> set p"
  by (induction s arbitrary: p) (auto split: list.splits if_splits)

lemma length_Split: "length (Split s sep) = Suc (count_list s sep)"
  by (induction s) (auto split: list.splits)

lemma Split_takeWhile: "hd (Split s sep) = takeWhile (\<lambda>c. c \<noteq> sep) s"
  by (induction s) (auto split: list.splits)

lemma Split_no_sep: "sep \<notin> set s \<Longrightarrow> Split s sep = [s]"
  by (induction s) auto

lemma Split_append_sep: "sep \<notin> set a \<Longrightarrow> Split (a @ sep # b) sep = a # Split b sep"
  by (induction a) auto

lemma Split_append: "Split (a @ sep # b) sep = Split a sep @ Split b sep"
  by (induction a) (auto split: list.splits)

lemma Split_second:
  "sep \<notin> set a \<Longrightarrow> Split (a @ sep # b) sep ! 1 = takeWhile (\<lambda>c. c \<noteq> sep) b"
  by (simp add: Split_append_sep) (metis Split_nonempty Split_takeWhile hd_conv_nth)

lemma SplitN2_append: "sep \<notin> set a \<Longrightarrow> SplitN2 (a @ sep # b) sep = [a, b]"
proof -
  assume a: "sep \<notin> set a"
  then have "takeWhile (\<lambda>c. c \<noteq> sep) (a @ sep # b) = a"
    by (subst takeWhile_append2) auto
  moreover have "dropWhile (\<lambda>c. c \<noteq> sep) (a @ sep # b) = sep # b"
    using a by (subst dropWhile_append2) auto
  ultimately show ?thesis by (simp add: SplitN2_def)
qed

lemma split_list_first_sep: "sep \<in> set s \<Longrightarrow> \<exists>a b. s = a @ sep # b \<and> sep \<notin> set a"
  by (rule split_list_first)

subsection \<open>ToLower\<close>

text \<open>
  \<open>strings.ToLower\<close> lowers ASCII letters byte by byte when the string is all ASCII, and otherwise
  maps every rune with Go's Unicode tables. The tables are data of the Go distribution; the
  parameter \<open>uni\<close> stands for that second path and is consulted for no ASCII string.
\<close>

definition is_ascii :: "string \<Rightarrow> bool" where
  "is_ascii s \<longleftrightarrow> list_all (\<lambda>c. (of_char c :: nat) < 128) s"

definition lower_byte :: "char \<Rightarrow> char" where
  "lower_byte c =
     (if 65 \<le> (of_char c :: nat) \<and> (of_char c :: nat) \<le> 90 then char_of ((of_char c :: nat) + 32) else c)"

definition upper_byte :: "char \<Rightarrow> char" where
  "upper_byte c =
     (if 97 \<le> (of_char c :: nat) \<and> (of_char c :: nat) \<le> 122 then char_of ((of_char c :: nat) - 32) else c)"

definition ToLower :: "(string \<Rightarrow> string) \<Rightarrow> string \<Rightarrow> string" where
  "ToLower uni s = (if is_ascii s then map lower_byte s else uni s)"

lemma of_char_lower_byte:
  "(of_char (lower_byte c) :: nat) =
     (if 65 \<le> (of_char c :: nat) \<and> (of_char c :: nat) \<le> 90 then of_char c + 32 else of_char c)"
  by (auto simp: lower_byte_def of_char_of)

lemma of_char_upper_byte:
  "(of_char (upper_byte c) :: nat) =
     (if 97 \<le> (of_char c :: nat) \<and> (of_char c :: nat) \<le> 122 then of_char c - 32 else of_char c)"
  by (auto simp: upper_byte_def of_char_of)

lemma lower_byte_idem [simp]: "lower_byte (lower_byte c) = lower_byte c"
  using of_char_lower_byte [of c] by (auto simp: lower_byte_def [of "lower_byte c"])

lemma ToLower_ascii_idem: "is_ascii s \<Longrightarrow> ToLower uni (ToLower uni s) = ToLower uni s"
proof -
  assume s: "is_ascii s"
  then have "is_ascii (map lower_byte s)"
    by (auto simp: is_ascii_def list_all_iff of_char_lower_byte)
  with s show ?thesis by (simp add: ToLower_def)
qed

end
