(* ===== verification/Errors.thy ===== *)
theory Errors
  imports Go_Strings
begin

section \<open>Typed errors: \<open>errors/errors.go\<close>\<close>

text \<open>
  The error values of the repository, their texts, the constructors, the classification by HTTP
  status (\<open>FromStatusCode\<close>) and the eight \<open>Is...Error\<close> tests.
  An \<open>error\<close> that may be nil is a \<open>goerror option\<close>. The package \<open>github.com/pkg/errors\<close> is not
  part of the repository: its functions are the fields of the parameter \<open>P\<close> of type \<open>pkg_errors\<close>,
  and \<open>pkg_errors_ok\<close> states what its documentation promises of them.
\<close>

subsection \<open>Error values\<close>

record simpleError =
  message :: string

record bad_parameter =
  parameter :: string
  actual_value :: gval
  expectedValue :: gval
  hasExpectedValue :: bool
  bp_preDefined :: "string option"

record not_found =
  entity :: string
  nf_ID :: string
  nf_preDefined :: "string option"

text \<open>
  Error types of other packages, with what the code reads of them: a \<open>*pq.Error\<close> (SQLSTATE code,
  constraint, text), a value that implements \<open>goa.ServiceError\<close> (and its code and detail where it
  is a \<open>*goa.ErrorResponse\<close>), and any other foreign error, which is seen only through its type
  name, its text and, where it has a \<open>Cause\<close> method, the error that method returns.
\<close>

record pq_error =
  pq_Code :: string
  pq_Constraint :: string
  pq_text :: string

record goa_error =
  ge_status :: int
  ge_token :: string
  ge_text :: string
  ge_response :: "(string \<times> string) option"

datatype goerror =
    InternalError (Err: "goerror option")
  | UnauthorizedError simpleError
  | ForbiddenError simpleError
  | VersionConflictError simpleError
  | DataConflictError simpleError
  | ConversionError simpleError
  | BadParameterError bad_parameter
  | NotFoundError not_found
  | PqError pq_error
  | GoaError goa_error
  | ForeignError string string "goerror option"

definition stBadParameterErrorMsg :: string where
  "stBadParameterErrorMsg = ''Bad value for parameter '' @ [CHR 0x27] @ ''%s'' @ [CHR 0x27] @ '': '' @
     [CHR 0x27] @ ''%v'' @ [CHR 0x27]"

definition stBadParameterErrorExpectedMsg :: string where
  "stBadParameterErrorExpectedMsg = ''Bad value for parameter '' @ [CHR 0x27] @ ''%s'' @ [CHR 0x27] @ '': '' @
     [CHR 0x27] @ ''%v'' @ [CHR 0x27] @ '' (expected: '' @ [CHR 0x27] @ ''%v'' @ [CHR 0x27] @ '')''"

definition stNotFoundErrorMsg :: string where
  "stNotFoundErrorMsg = ''%s with id '' @ [CHR 0x27] @ ''%s'' @ [CHR 0x27] @ '' not found''"

definition BadParameterError_Error :: "bad_parameter \<Rightarrow> string" where
  "BadParameterError_Error err =
     (if hasExpectedValue err
      then Sprintf stBadParameterErrorExpectedMsg
             [VString (parameter err), actual_value err, expectedValue err]
      else (case bp_preDefined err of
              Some m \<Rightarrow> m
            | None \<Rightarrow> Sprintf stBadParameterErrorMsg [VString (parameter err), actual_value err]))"

definition NotFoundError_Error :: "not_found \<Rightarrow> string" where
  "NotFoundError_Error err =
     (case nf_preDefined err of
        Some m \<Rightarrow> m
      | None \<Rightarrow> Sprintf stNotFoundErrorMsg [VString (entity err), VString (nf_ID err)])"

text \<open>The \<open>Error\<close> method; on an \<open>InternalError\<close> that holds no error it dereferences nil.\<close>

fun Error :: "goerror \<Rightarrow> string go" where
  "Error (InternalError None) = Panic ''nil pointer dereference''"
| "Error (InternalError (Some e)) = Error e"
| "Error (UnauthorizedError s) = Ret (message s)"
| "Error (ForbiddenError s) = Ret (message s)"
| "Error (VersionConflictError s) = Ret (message s)"
| "Error (DataConflictError s) = Ret (message s)"
| "Error (ConversionError s) = Ret (message s)"
| "Error (BadParameterError b) = Ret (BadParameterError_Error b)"
| "Error (NotFoundError n) = Ret (NotFoundError_Error n)"
| "Error (PqError p) = Ret (pq_text p)"
| "Error (GoaError g) = Ret (ge_text g)"
| "Error (ForeignError t txt c) = Ret txt"

subsection \<open>\<open>github.com/pkg/errors\<close>, a parameter\<close>

text \<open>
  \<open>Wrapf\<close> takes the text its format and operands print. \<open>has_Cause\<close> tells the error values whose
  type has a \<open>Cause\<close> method; no type declared in the repository has one.
\<close>

record pkg_errors =
  errs_Cause :: "goerror option \<Rightarrow> goerror option"
  errs_Wrapf :: "goerror option \<Rightarrow> string \<Rightarrow> goerror option"
  errs_WithStack :: "goerror option \<Rightarrow> goerror option"
  errs_New :: "string \<Rightarrow> goerror"

primrec has_Cause :: "goerror \<Rightarrow> bool" where
  "has_Cause (InternalError e) = False"
| "has_Cause (UnauthorizedError s) = False"
| "has_Cause (ForbiddenError s) = False"
| "has_Cause (VersionConflictError s) = False"
| "has_Cause (DataConflictError s) = False"
| "has_Cause (ConversionError s) = False"
| "has_Cause (BadParameterError b) = False"
| "has_Cause (NotFoundError n) = False"
| "has_Cause (PqError p) = False"
| "has_Cause (GoaError g) = False"
| "has_Cause (ForeignError t txt c) = (c \<noteq> None)"

text \<open>
  The documented behaviour: \<open>Cause\<close> of nil is nil; of an error without a \<open>Cause\<close> method, the error
  itself; wrapping does not change the cause, and wrapping nil is nil; \<open>New\<close> makes an error of the
  package's own type, with the given text and no cause.
\<close>

definition pkg_errors_ok :: "pkg_errors \<Rightarrow> bool" where
  "pkg_errors_ok P \<longleftrightarrow>
     errs_Cause P None = None \<and>
     (\<forall>e. \<not> has_Cause e \<longrightarrow> errs_Cause P (Some e) = Some e) \<and>
     (\<forall>m. errs_Wrapf P None m = None) \<and> errs_WithStack P None = None \<and>
     (\<forall>e m. \<exists>w. errs_Wrapf P (Some e) m = Some w \<and> errs_Cause P (Some w) = errs_Cause P (Some e)) \<and>
     (\<forall>e. \<exists>w. errs_WithStack P (Some e) = Some w \<and> errs_Cause P (Some w) = errs_Cause P (Some e)) \<and>
     (\<forall>m. \<exists>t. errs_New P m = ForeignError t m None)"

lemma cause_nil: "pkg_errors_ok P \<Longrightarrow> errs_Cause P None = None"
  by (simp add: pkg_errors_ok_def)

lemma cause_self: "pkg_errors_ok P \<Longrightarrow> \<not> has_Cause e \<Longrightarrow> errs_Cause P (Some e) = Some e"
  by (simp add: pkg_errors_ok_def)

lemma Wrapf_Some:
  "pkg_errors_ok P \<Longrightarrow> \<exists>w. errs_Wrapf P (Some e) m = Some w \<and> errs_Cause P (Some w) = errs_Cause P (Some e)"
  unfolding pkg_errors_ok_def by blast

lemma WithStack_Some:
  "pkg_errors_ok P \<Longrightarrow> \<exists>w. errs_WithStack P (Some e) = Some w \<and> errs_Cause P (Some w) = errs_Cause P (Some e)"
  unfolding pkg_errors_ok_def by blast

lemma Wrapf_not_nil: "pkg_errors_ok P \<Longrightarrow> \<exists>w. errs_Wrapf P (Some e) m = Some w"
  using Wrapf_Some by blast

lemma WithStack_not_nil: "pkg_errors_ok P \<Longrightarrow> \<exists>w. errs_WithStack P (Some e) = Some w"
  using WithStack_Some by blast

lemma Wrapf_nil: "pkg_errors_ok P \<Longrightarrow> errs_Wrapf P None m = None"
  by (simp add: pkg_errors_ok_def)

lemma WithStack_nil: "pkg_errors_ok P \<Longrightarrow> errs_WithStack P None = None"
  by (simp add: pkg_errors_ok_def)

lemma cause_Wrapf: "pkg_errors_ok P \<Longrightarrow> errs_Cause P (errs_Wrapf P err m) = errs_Cause P err"
  by (cases err) (metis Wrapf_nil, metis Wrapf_Some option.distinct(1))

lemma cause_WithStack: "pkg_errors_ok P \<Longrightarrow> errs_Cause P (errs_WithStack P err) = errs_Cause P err"
  by (cases err) (metis WithStack_nil, metis WithStack_Some option.distinct(1))

lemma Wrapf_nil_iff: "pkg_errors_ok P \<Longrightarrow> errs_Wrapf P err m = None \<longleftrightarrow> err = None"
  by (cases err) (metis Wrapf_nil, metis Wrapf_Some option.distinct(1))

lemma WithStack_nil_iff: "pkg_errors_ok P \<Longrightarrow> errs_WithStack P err = None \<longleftrightarrow> err = None"
  by (cases err) (metis WithStack_nil, metis WithStack_Some option.distinct(1))

lemma New_foreign: "pkg_errors_ok P \<Longrightarrow> \<exists>t. errs_New P m = ForeignError t m None"
  by (simp add: pkg_errors_ok_def)

text \<open>One function set with that behaviour, for evaluating concrete cases.\<close>

fun follow_cause :: "goerror \<Rightarrow> goerror" where
  "follow_cause (ForeignError t txt (Some e)) = follow_cause e"
| "follow_cause e = e"

definition text_of :: "goerror \<Rightarrow> string" where
  "text_of e = (case Error e of Ret s \<Rightarrow> s | Panic m \<Rightarrow> m)"

definition documented_errs :: pkg_errors where
  "documented_errs =
     \<lparr>errs_Cause = map_option follow_cause,
      errs_Wrapf = (\<lambda>err m. map_option (\<lambda>e. ForeignError ''*errors.withStack'' (m @ '': '' @ text_of e) (Some e)) err),
      errs_WithStack = map_option (\<lambda>e. ForeignError ''*errors.withStack'' (text_of e) (Some e)),
      errs_New = (\<lambda>m. ForeignError ''*errors.fundamental'' m None)\<rparr>"

lemma follow_cause_self: "\<not> has_Cause e \<Longrightarrow> follow_cause e = e"
  by (cases e rule: follow_cause.cases) auto

lemma documented_errs_ok: "pkg_errors_ok documented_errs"
  by (auto simp: pkg_errors_ok_def documented_errs_def follow_cause_self)

subsection \<open>Constructors\<close>

text \<open>
  \<open>NewInternalErrorFromString\<close> builds its inner error with the standard library's \<open>errors.New\<close>,
  whose values have a text and no \<open>Cause\<close> method.
\<close>

definition std_errors_New :: "string \<Rightarrow> goerror" where
  "std_errors_New m = ForeignError ''*errors.errorString'' m None"

definition NewInternalError :: "goerror option \<Rightarrow> goerror" where
  "NewInternalError err = InternalError err"

definition NewInternalErrorFromString :: "string \<Rightarrow> goerror" where
  "NewInternalErrorFromString errorMessage = InternalError (Some (std_errors_New errorMessage))"

definition NewUnauthorizedError :: "string \<Rightarrow> goerror" where
  "NewUnauthorizedError msg = UnauthorizedError \<lparr>message = msg\<rparr>"

definition NewForbiddenError :: "string \<Rightarrow> goerror" where
  "NewForbiddenError msg = ForbiddenError \<lparr>message = msg\<rparr>"

definition NewVersionConflictError :: "string \<Rightarrow> goerror" where
  "NewVersionConflictError msg = VersionConflictError \<lparr>message = msg\<rparr>"

definition NewDataConflictError :: "string \<Rightarrow> goerror" where
  "NewDataConflictError msg = DataConflictError \<lparr>message = msg\<rparr>"

definition NewConversionError :: "string \<Rightarrow> goerror" where
  "NewConversionError msg = ConversionError \<lparr>message = msg\<rparr>"

definition NewBadParameterError :: "string \<Rightarrow> gval \<Rightarrow> bad_parameter" where
  "NewBadParameterError param actual =
     \<lparr>parameter = param, actual_value = actual, expectedValue = VNil, hasExpectedValue = False,
      bp_preDefined = None\<rparr>"

definition NewBadParameterErrorFromString :: "string \<Rightarrow> bad_parameter" where
  "NewBadParameterErrorFromString errMessage =
     \<lparr>parameter = '''', actual_value = VNil, expectedValue = VNil, hasExpectedValue = False,
      bp_preDefined = Some errMessage\<rparr>"

text \<open>The method \<open>Expected\<close> of \<open>BadParameterError\<close> works on its receiver by value.\<close>

definition Expected :: "bad_parameter \<Rightarrow> gval \<Rightarrow> bad_parameter" where
  "Expected err expected = err\<lparr>expectedValue := expected, hasExpectedValue := True\<rparr>"

definition NewNotFoundError :: "string \<Rightarrow> string \<Rightarrow> goerror" where
  "NewNotFoundError ent ident =
     NotFoundError \<lparr>entity = ent, nf_ID = ident, nf_preDefined = None\<rparr>"

definition NewNotFoundErrorFromString :: "string \<Rightarrow> goerror" where
  "NewNotFoundErrorFromString errorMessage =
     NotFoundError \<lparr>entity = '''', nf_ID = '''', nf_preDefined = Some errorMessage\<rparr>"

definition StatusBadRequest :: int where "StatusBadRequest = 400"
definition StatusUnauthorized :: int where "StatusUnauthorized = 401"
definition StatusForbidden :: int where "StatusForbidden = 403"
definition StatusNotFound :: int where "StatusNotFound = 404"
definition StatusConflict :: int where "StatusConflict = 409"
definition StatusInternalServerError :: int where "StatusInternalServerError = 500"

lemmas http_status_defs =
  StatusBadRequest_def StatusUnauthorized_def StatusForbidden_def StatusNotFound_def
  StatusConflict_def StatusInternalServerError_def

definition FromStatusCode :: "int \<Rightarrow> string \<Rightarrow> gval list \<Rightarrow> goerror" where
  "FromStatusCode statusCode format args =
     (let msg = Sprintf format args in
      if statusCode = StatusNotFound then NewNotFoundErrorFromString msg
      else if statusCode = StatusBadRequest then BadParameterError (NewBadParameterErrorFromString msg)
      else if statusCode = StatusConflict then NewVersionConflictError msg
      else if statusCode = StatusUnauthorized then NewUnauthorizedError msg
      else if statusCode = StatusForbidden then NewForbiddenError msg
      else NewInternalErrorFromString msg)"

lemmas constructor_defs =
  NewInternalError_def NewInternalErrorFromString_def NewUnauthorizedError_def NewForbiddenError_def
  NewVersionConflictError_def NewDataConflictError_def NewConversionError_def NewBadParameterError_def
  NewBadParameterErrorFromString_def NewNotFoundError_def NewNotFoundErrorFromString_def
  std_errors_New_def

subsection \<open>The \<open>Is...Error\<close> tests\<close>

text \<open>Each is a type assertion on the cause of its argument; on success the cause is returned too.\<close>

definition IsInternalError :: "pkg_errors \<Rightarrow> goerror option \<Rightarrow> bool \<times> goerror option" where
  "IsInternalError P err =
     (case errs_Cause P err of Some (InternalError e) \<Rightarrow> (True, Some (InternalError e)) | _ \<Rightarrow> (False, None))"

definition IsUnauthorizedError :: "pkg_errors \<Rightarrow> goerror option \<Rightarrow> bool \<times> goerror option" where
  "IsUnauthorizedError P err =
     (case errs_Cause P err of Some (UnauthorizedError e) \<Rightarrow> (True, Some (UnauthorizedError e)) | _ \<Rightarrow> (False, None))"

definition IsForbiddenError :: "pkg_errors \<Rightarrow> goerror option \<Rightarrow> bool \<times> goerror option" where
  "IsForbiddenError P err =
     (case errs_Cause P err of Some (ForbiddenError e) \<Rightarrow> (True, Some (ForbiddenError e)) | _ \<Rightarrow> (False, None))"

definition IsDataConflictError :: "pkg_errors \<Rightarrow> goerror option \<Rightarrow> bool \<times> goerror option" where
  "IsDataConflictError P err =
     (case errs_Cause P err of Some (DataConflictError e) \<Rightarrow> (True, Some (DataConflictError e)) | _ \<Rightarrow> (False, None))"

definition IsVersionConflictError :: "pkg_errors \<Rightarrow> goerror option \<Rightarrow> bool \<times> goerror option" where
  "IsVersionConflictError P err =
     (case errs_Cause P err of Some (VersionConflictError e) \<Rightarrow> (True, Some (VersionConflictError e)) | _ \<Rightarrow> (False, None))"

definition IsBadParameterError :: "pkg_errors \<Rightarrow> goerror option \<Rightarrow> bool \<times> goerror option" where
  "IsBadParameterError P err =
     (case errs_Cause P err of Some (BadParameterError e) \<Rightarrow> (True, Some (BadParameterError e)) | _ \<Rightarrow> (False, None))"

definition IsConversionError :: "pkg_errors \<Rightarrow> goerror option \<Rightarrow> bool \<times> goerror option" where
  "IsConversionError P err =
     (case errs_Cause P err of Some (ConversionError e) \<Rightarrow> (True, Some (ConversionError e)) | _ \<Rightarrow> (False, None))"

definition IsNotFoundError :: "pkg_errors \<Rightarrow> goerror option \<Rightarrow> bool \<times> goerror option" where
  "IsNotFoundError P err =
     (case errs_Cause P err of Some (NotFoundError e) \<Rightarrow> (True, Some (NotFoundError e)) | _ \<Rightarrow> (False, None))"

lemmas is_error_defs =
  IsInternalError_def IsUnauthorizedError_def IsForbiddenError_def IsDataConflictError_def
  IsVersionConflictError_def IsBadParameterError_def IsConversionError_def IsNotFoundError_def

subsection \<open>The contract of one kind of error\<close>

text \<open>
  What every kind promises a caller: its constructor \<open>mk\<close> makes errors without a \<open>Cause\<close> method,
  and its test answers by the cause alone. From that follow, once for all kinds, that an error of
  the kind is recognised, that it still is after any number of wraps, and that the test returns
  the error itself and not its wrapping.
\<close>

locale error_kind =
  fixes mk :: "'a \<Rightarrow> goerror"
    and is_kind :: "pkg_errors \<Rightarrow> goerror option \<Rightarrow> bool \<times> goerror option"
  assumes mk_no_Cause: "\<not> has_Cause (mk x)"
    and is_kind_eq: "is_kind P err =
          (if \<exists>x. errs_Cause P err = Some (mk x) then (True, errs_Cause P err) else (False, None))"
begin

lemma is_kind_true: "fst (is_kind P err) \<longleftrightarrow> (\<exists>x. errs_Cause P err = Some (mk x))"
  by (simp add: is_kind_eq)

lemma recognised: "pkg_errors_ok P \<Longrightarrow> is_kind P (Some (mk x)) = (True, Some (mk x))"
  by (auto simp: is_kind_eq cause_self mk_no_Cause)

lemma by_cause: "errs_Cause P err = errs_Cause P err' \<Longrightarrow> is_kind P err = is_kind P err'"
  by (simp add: is_kind_eq)

lemma wrap_stable: "pkg_errors_ok P \<Longrightarrow> is_kind P (errs_Wrapf P err m) = is_kind P err"
  by (rule by_cause) (rule cause_Wrapf)

lemma stack_stable: "pkg_errors_ok P \<Longrightarrow> is_kind P (errs_WithStack P err) = is_kind P err"
  by (rule by_cause) (rule cause_WithStack)

lemma recognised_wrapped:
  "pkg_errors_ok P \<Longrightarrow> is_kind P (foldr (\<lambda>m e. errs_Wrapf P e m) ms (Some (mk x))) = (True, Some (mk x))"
  by (induction ms) (simp_all add: recognised wrap_stable)

lemma nil_not_kind: "pkg_errors_ok P \<Longrightarrow> is_kind P None = (False, None)"
  by (simp add: is_kind_eq cause_nil)

end

text \<open>Two kinds whose constructors never agree: no error passes both tests.\<close>

locale distinct_kinds = k: error_kind mk is_kind + l: error_kind mk' is_kind'
  for mk :: "'a \<Rightarrow> goerror" and is_kind and mk' :: "'b \<Rightarrow> goerror" and is_kind' +
  assumes mk_distinct: "mk x \<noteq> mk' y"
begin

lemma exclusive: "\<not> (fst (is_kind P err) \<and> fst (is_kind' P err))"
  using mk_distinct by (auto simp: k.is_kind_true l.is_kind_true)

end

interpretation internal: error_kind InternalError IsInternalError
  by unfold_locales (auto simp: IsInternalError_def split: option.splits goerror.splits)

interpretation unauthorized: error_kind UnauthorizedError IsUnauthorizedError
  by unfold_locales (auto simp: IsUnauthorizedError_def split: option.splits goerror.splits)

interpretation forbidden: error_kind ForbiddenError IsForbiddenError
  by unfold_locales (auto simp: IsForbiddenError_def split: option.splits goerror.splits)

interpretation data_conflict: error_kind DataConflictError IsDataConflictError
  by unfold_locales (auto simp: IsDataConflictError_def split: option.splits goerror.splits)

interpretation version_conflict: error_kind VersionConflictError IsVersionConflictError
  by unfold_locales (auto simp: IsVersionConflictError_def split: option.splits goerror.splits)

interpretation bad_parameter: error_kind BadParameterError IsBadParameterError
  by unfold_locales (auto simp: IsBadParameterError_def split: option.splits goerror.splits)

interpretation conversion: error_kind ConversionError IsConversionError
  by unfold_locales (auto simp: IsConversionError_def split: option.splits goerror.splits)

interpretation not_found: error_kind NotFoundError IsNotFoundError
  by unfold_locales (auto simp: IsNotFoundError_def split: option.splits goerror.splits)

interpretation conflicts: distinct_kinds VersionConflictError IsVersionConflictError
    DataConflictError IsDataConflictError
  by unfold_locales auto

lemmas kind_true_iff =
  internal.is_kind_true unauthorized.is_kind_true forbidden.is_kind_true data_conflict.is_kind_true
  version_conflict.is_kind_true bad_parameter.is_kind_true conversion.is_kind_true
  not_found.is_kind_true

lemmas kind_wrap_stable =
  internal.wrap_stable unauthorized.wrap_stable forbidden.wrap_stable data_conflict.wrap_stable
  version_conflict.wrap_stable bad_parameter.wrap_stable conversion.wrap_stable
  not_found.wrap_stable

lemmas kind_stack_stable =
  internal.stack_stable unauthorized.stack_stable forbidden.stack_stable data_conflict.stack_stable
  version_conflict.stack_stable bad_parameter.stack_stable conversion.stack_stable
  not_found.stack_stable

subsection \<open>What the classification promises\<close>

definition wrapped :: "pkg_errors \<Rightarrow> string list \<Rightarrow> goerror \<Rightarrow> goerror option" where
  "wrapped P ms e = foldr (\<lambda>m err. errs_Wrapf P err m) ms (Some e)"

lemma cause_wrapped: "pkg_errors_ok P \<Longrightarrow> errs_Cause P (wrapped P ms e) = errs_Cause P (Some e)"
  by (induction ms) (simp_all add: wrapped_def cause_Wrapf)

lemma FromStatusCode_no_Cause: "\<not> has_Cause (FromStatusCode code fmt args)"
  by (simp add: FromStatusCode_def constructor_defs Let_def)

lemma cause_wrapped_FromStatusCode:
  "pkg_errors_ok P \<Longrightarrow>
   errs_Cause P (wrapped P ms (FromStatusCode code fmt args)) = Some (FromStatusCode code fmt args)"
  by (simp add: cause_wrapped cause_self FromStatusCode_no_Cause)

lemma Error_FromStatusCode: "Error (FromStatusCode code fmt args) = Ret (Sprintf fmt args)"
  by (simp add: FromStatusCode_def constructor_defs Let_def NotFoundError_Error_def BadParameterError_Error_def)

lemma FromStatusCode_range:
  "FromStatusCode code fmt args \<in> range NotFoundError \<longleftrightarrow> code = 404"
  "FromStatusCode code fmt args \<in> range BadParameterError \<longleftrightarrow> code = 400"
  "FromStatusCode code fmt args \<in> range VersionConflictError \<longleftrightarrow> code = 409"
  "FromStatusCode code fmt args \<in> range UnauthorizedError \<longleftrightarrow> code = 401"
  "FromStatusCode code fmt args \<in> range ForbiddenError \<longleftrightarrow> code = 403"
  "FromStatusCode code fmt args \<in> range InternalError \<longleftrightarrow> code \<notin> {400, 401, 403, 404, 409}"
  "FromStatusCode code fmt args \<notin> range DataConflictError"
  "FromStatusCode code fmt args \<notin> range ConversionError"
  by (auto simp: FromStatusCode_def constructor_defs http_status_defs Let_def)

lemma kind_true_range:
  "errs_Cause P err = Some e \<Longrightarrow> (\<exists>x. errs_Cause P err = Some (mk x)) \<longleftrightarrow> e \<in> range mk"
  by auto

text \<open>C29: An error built by \<open>FromStatusCode\<close> prints exactly the formatted message, and, wrapped any
  number of times, it is recognised by the test of the kind its status code selects and by no other
  test: 404 not found, 400 bad parameter, 409 version conflict (never data conflict), 401 unauthorized,
  403 forbidden, every other code internal.\<close>

theorem from_status_code_classified:
  assumes "pkg_errors_ok P"
  shows "Error (FromStatusCode code fmt args) = Ret (Sprintf fmt args) \<and>
    (let err = wrapped P ms (FromStatusCode code fmt args) in
     fst (IsNotFoundError P err) = (code = 404) \<and>
     fst (IsBadParameterError P err) = (code = 400) \<and>
     fst (IsVersionConflictError P err) = (code = 409) \<and>
     fst (IsUnauthorizedError P err) = (code = 401) \<and>
     fst (IsForbiddenError P err) = (code = 403) \<and>
     fst (IsInternalError P err) = (code \<notin> {400, 401, 403, 404, 409}) \<and>
     \<not> fst (IsDataConflictError P err) \<and>
     \<not> fst (IsConversionError P err))"
  unfolding Let_def kind_true_iff kind_true_range [OF cause_wrapped_FromStatusCode [OF assms]]
    FromStatusCode_range Error_FromStatusCode by (auto simp: FromStatusCode_def constructor_defs Let_def)

theorem from_status_code_classified_witness:
  "Error (FromStatusCode 404 ''no %s'' [VString ''user'']) = Ret ''no user'' \<and>
   fst (IsNotFoundError documented_errs
     (wrapped documented_errs [''outer'', ''inner''] (FromStatusCode 404 ''no %s'' [VString ''user'']))) \<and>
   \<not> fst (IsInternalError documented_errs
     (wrapped documented_errs [''outer'', ''inner''] (FromStatusCode 404 ''no %s'' [VString ''user''])))"
  using from_status_code_classified [OF documented_errs_ok, where code = 404 and fmt = "''no %s''"
      and args = "[VString ''user'']" and ms = "[''outer'', ''inner'']"]
  by (simp add: print_arg_def extra_args_def Let_def)

text \<open>Whatever the error (nil, foreign, wrapped or not) and whatever \<open>errs.Cause\<close> does, at most
  one of the eight tests answers true, and the error a test returns is the cause itself.\<close>

theorem error_kinds_exclusive:
  "length (filter (\<lambda>is. fst (is P err))
     [IsInternalError, IsUnauthorizedError, IsForbiddenError, IsDataConflictError,
      IsVersionConflictError, IsBadParameterError, IsConversionError, IsNotFoundError]) \<le> 1"
  by (cases "errs_Cause P err"; cases "the (errs_Cause P err)") (auto simp: is_error_defs)

text \<open>The text of a bad-parameter error: its three branches in their order of precedence. An
  expected value overrides a predefined message, so \<open>NewBadParameterErrorFromString(m).Expected(x)\<close>
  loses \<open>m\<close>; and \<open>Expected\<close> is last-one-wins.\<close>

theorem bad_parameter_text:
  "Error (BadParameterError (NewBadParameterError p v)) =
     Ret (''Bad value for parameter '' @ [CHR 0x27] @ p @ [CHR 0x27] @ '': '' @ [CHR 0x27] @ print_v v @ [CHR 0x27])
   \<and> Error (BadParameterError (Expected (NewBadParameterError p v) x)) =
     Ret (''Bad value for parameter '' @ [CHR 0x27] @ p @ [CHR 0x27] @ '': '' @ [CHR 0x27] @ print_v v @ [CHR 0x27]
          @ '' (expected: '' @ [CHR 0x27] @ print_v x @ [CHR 0x27] @ '')'')
   \<and> Error (BadParameterError (NewBadParameterErrorFromString m)) = Ret m
   \<and> Error (BadParameterError (Expected (NewBadParameterErrorFromString m) x)) =
     Error (BadParameterError (Expected (NewBadParameterError '''' VNil) x))
   \<and> Expected (Expected b x) y = Expected b y"
  by (simp add: NewBadParameterError_def NewBadParameterErrorFromString_def Expected_def
      BadParameterError_Error_def stBadParameterErrorMsg_def stBadParameterErrorExpectedMsg_def
      print_arg_def extra_args_def)

end
