(* ===== verification/Uuid.thy ===== *)
theory Uuid
  imports Errors
begin

section \<open>UUIDs of \<open>github.com/satori/go.uuid\<close>\<close>

text \<open>
  A \<open>uuid.UUID\<close> is an array of 16 bytes, here a 128-bit word; Go's \<open>==\<close> on it is equality and
  \<open>uuid.UUID{}\<close>, \<open>uuid.Nil\<close> are zero. The package's functions are not in the repository: they are
  the fields of the parameter \<open>U\<close>, and \<open>uuid_lib_ok\<close> states what its documentation promises:
  \<open>FromString\<close> and \<open>Scan\<close> read back what \<open>String\<close> and \<open>Bytes\<close> give, \<open>Value\<close> is \<open>String\<close>, and the
  empty string is no UUID.
\<close>

type_synonym uuid = "128 word"

text \<open>The dynamic types an SQL driver hands to \<open>Scan\<close>, as far as the code distinguishes them.\<close>

datatype scan_src =
    SrcNil
  | SrcUUID uuid
  | SrcBytes string
  | SrcString string
  | SrcOther gval

record uuid_lib =
  uuid_String :: "uuid \<Rightarrow> string"
  uuid_FromString :: "string \<Rightarrow> goerror + uuid"
  uuid_Bytes :: "uuid \<Rightarrow> string"
  uuid_Scan :: "uuid \<Rightarrow> scan_src \<Rightarrow> uuid \<times> goerror option"
  uuid_Value :: "uuid \<Rightarrow> goerror + scan_src"

definition uuid_lib_ok :: "uuid_lib \<Rightarrow> bool" where
  "uuid_lib_ok U \<longleftrightarrow>
     (\<forall>u. uuid_FromString U (uuid_String U u) = Inr u) \<and>
     (\<forall>u v. uuid_Scan U v (SrcBytes (uuid_Bytes U u)) = (u, None)) \<and>
     (\<forall>u v. uuid_Scan U v (SrcString (uuid_String U u)) = (u, None)) \<and>
     (\<forall>u. uuid_Value U u = Inr (SrcString (uuid_String U u))) \<and>
     (\<exists>e. uuid_FromString U '''' = Inl e)"

lemma uuid_String_inj: "uuid_lib_ok U \<Longrightarrow> uuid_String U u = uuid_String U v \<Longrightarrow> u = v"
  by (metis sum.inject(2) uuid_lib_ok_def)

text \<open>A function set with that behaviour (decimal numbers as texts), for evaluating concrete cases.\<close>

definition decimal_String :: "uuid \<Rightarrow> string" where
  "decimal_String u = nat_digits (unat u)"

definition decimal_FromString :: "string \<Rightarrow> goerror + uuid" where
  "decimal_FromString s =
     (if decimal_String (of_nat (digits_val s)) = s then Inr (of_nat (digits_val s))
      else Inl (ForeignError ''*errors.errorString'' ''uuid: incorrect format'' None))"

definition decimal_Scan :: "uuid \<Rightarrow> scan_src \<Rightarrow> uuid \<times> goerror option" where
  "decimal_Scan v src =
     (let parse = (\<lambda>s. case decimal_FromString s of Inl e \<Rightarrow> (v, Some e) | Inr u \<Rightarrow> (u, None)) in
      case src of SrcBytes s \<Rightarrow> parse s | SrcString s \<Rightarrow> parse s
      | _ \<Rightarrow> (v, Some (ForeignError ''*errors.errorString'' ''uuid: cannot convert'' None)))"

definition decimal_uuids :: uuid_lib where
  "decimal_uuids =
     \<lparr>uuid_String = decimal_String, uuid_FromString = decimal_FromString, uuid_Bytes = decimal_String,
      uuid_Scan = decimal_Scan, uuid_Value = (\<lambda>u. Inr (SrcString (decimal_String u)))\<rparr>"

lemma decimal_roundtrip [simp]: "decimal_FromString (decimal_String u) = Inr u"
  by (simp add: decimal_FromString_def decimal_String_def)

lemma decimal_uuids_ok: "uuid_lib_ok decimal_uuids"
proof -
  have "decimal_String u \<noteq> ''''" for u by (simp add: decimal_String_def)
  then have "\<exists>e. decimal_FromString '''' = Inl e" by (simp add: decimal_FromString_def)
  then show ?thesis
    by (auto simp: uuid_lib_ok_def decimal_uuids_def decimal_Scan_def)
qed

end
