(* ===== verification/Go_Slices.thy ===== *)
theory Go_Slices
  imports Go_Prelude
begin

section \<open>Slices over shared backing arrays\<close>

text \<open>
  A Go slice is a window on a backing array that other slices may share. Where the repository
  appends to a slice it does not own, the sharing is observable, so the arrays are kept in a heap:
  an address names a backing array, a slice is an address with an offset, a length and a capacity.
  \<open>append\<close> follows the language definition: it writes into the spare capacity when the new
  elements fit and otherwise copies to a fresh array. How much larger than needed the fresh array is
  is the runtime's choice, the parameter \<open>grow\<close>; \<open>zero\<close> is the element type's zero value.
\<close>

record 'a heap =
  arrays :: "nat \<rightharpoonup> 'a list"
  next_addr :: nat

record slice =
  sl_arr :: nat
  sl_off :: nat
  sl_len :: nat
  sl_cap :: nat

definition backing :: "'a heap \<Rightarrow> nat \<Rightarrow> 'a list" where
  "backing h a = (case arrays h a of None \<Rightarrow> [] | Some xs \<Rightarrow> xs)"

definition elems :: "'a heap \<Rightarrow> slice \<Rightarrow> 'a list" where
  "elems h s = take (sl_len s) (drop (sl_off s) (backing h (sl_arr s)))"

text \<open>Every address in use is below \<open>next_addr\<close>; a slice lies inside its array.\<close>

definition slice_ok :: "'a heap \<Rightarrow> slice \<Rightarrow> bool" where
  "slice_ok h s \<longleftrightarrow> sl_len s \<le> sl_cap s \<and> sl_off s + sl_cap s \<le> length (backing h (sl_arr s))
     \<and> sl_arr s < next_addr h"

definition overwrite :: "'a list \<Rightarrow> nat \<Rightarrow> 'a list \<Rightarrow> 'a list" where
  "overwrite xs i vs = take i xs @ vs @ drop (i + length vs) xs"

definition slice_append :: "(nat \<Rightarrow> nat) \<Rightarrow> 'a \<Rightarrow> 'a heap \<Rightarrow> slice \<Rightarrow> 'a list \<Rightarrow> 'a heap \<times> slice" where
  "slice_append grow zero h s vs =
     (let n = sl_len s + length vs in
      if n \<le> sl_cap s
      then (h\<lparr>arrays := (arrays h)(sl_arr s \<mapsto> overwrite (backing h (sl_arr s)) (sl_off s + sl_len s) vs)\<rparr>,
            s\<lparr>sl_len := n\<rparr>)
      else (h\<lparr>arrays := (arrays h)(next_addr h \<mapsto> elems h s @ vs @ replicate (grow n) zero),
              next_addr := Suc (next_addr h)\<rparr>,
            \<lparr>sl_arr = next_addr h, sl_off = 0, sl_len = n, sl_cap = n + grow n\<rparr>))"

lemma length_elems: "slice_ok h s \<Longrightarrow> length (elems h s) = sl_len s"
  by (auto simp: elems_def slice_ok_def)

lemma take_drop_append: "o1 + l \<le> length ys \<Longrightarrow> take l (drop o1 (ys @ zs)) = take l (drop o1 ys)"
  by simp

lemma take_drop_overwrite_before:
  "o1 + l \<le> i \<Longrightarrow> i \<le> length xs \<Longrightarrow> take l (drop o1 (overwrite xs i vs)) = take l (drop o1 xs)"
  using take_drop_append [of o1 l "take i xs" "vs @ drop (i + length vs) xs"]
    take_drop_append [of o1 l "take i xs" "drop i xs"]
  by (simp add: overwrite_def)

lemma take_drop_overwrite_after:
  assumes "i + length vs \<le> o1" and "i + length vs \<le> length xs"
  shows "take l (drop o1 (overwrite xs i vs)) = take l (drop o1 xs)"
proof -
  have "drop o1 (overwrite xs i vs) = drop (o1 - (i + length vs)) (drop (i + length vs) xs)"
    using assms by (simp add: overwrite_def)
  also have "\<dots> = drop o1 xs" using assms by simp
  finally show ?thesis by simp
qed

lemma take_drop_overwrite_at:
  assumes "i = o1 + l" and "i + length vs \<le> length xs"
  shows "take (l + length vs) (drop o1 (overwrite xs i vs)) = take l (drop o1 xs) @ vs"
proof -
  have "overwrite xs i vs = take o1 xs @ (take l (drop o1 xs) @ vs) @ drop (i + length vs) xs"
    using assms by (simp add: overwrite_def take_add)
  then show ?thesis using assms by simp
qed

text \<open>What \<open>append\<close> returns reads as the old elements followed by the new ones.\<close>

lemma elems_append:
  assumes ok: "slice_ok h s" and app: "slice_append grow zero h s vs = (h', s')"
  shows "elems h' s' = elems h s @ vs"
proof (cases "sl_len s + length vs \<le> sl_cap s")
  case True
  with app have "h' = h\<lparr>arrays := (arrays h)(sl_arr s \<mapsto>
        overwrite (backing h (sl_arr s)) (sl_off s + sl_len s) vs)\<rparr>"
    and "s' = s\<lparr>sl_len := sl_len s + length vs\<rparr>"
    by (simp_all add: slice_append_def Let_def)
  with ok True show ?thesis
    by (simp add: elems_def backing_def slice_ok_def take_drop_overwrite_at)
next
  case False
  with app ok show ?thesis
    by (auto simp: slice_append_def Let_def elems_def backing_def length_elems [OF ok, unfolded elems_def backing_def] slice_ok_def)
qed

text \<open>
  The windows \<open>append\<close> leaves alone: a slice on another array, one that ends before the appended
  range, and one that starts after it; and every slice, when the elements do not fit.
\<close>

definition untouched :: "slice \<Rightarrow> 'a list \<Rightarrow> slice \<Rightarrow> bool" where
  "untouched s vs t \<longleftrightarrow>
     sl_cap s < sl_len s + length vs \<or> sl_arr t \<noteq> sl_arr s \<or>
     sl_off t + sl_len t \<le> sl_off s + sl_len s \<or>
     sl_off s + sl_len s + length vs \<le> sl_off t"

lemma append_frame:
  assumes "slice_ok h s" and "slice_ok h t" and app: "slice_append grow zero h s vs = (h', s')"
    and t: "untouched s vs t"
  shows "elems h' t = elems h t"
proof (cases "sl_len s + length vs \<le> sl_cap s")
  case False
  with app assms(2) show ?thesis
    by (auto simp: slice_append_def Let_def elems_def backing_def slice_ok_def)
next
  case True
  with app have h': "h' = h\<lparr>arrays := (arrays h)(sl_arr s \<mapsto>
        overwrite (backing h (sl_arr s)) (sl_off s + sl_len s) vs)\<rparr>"
    by (simp add: slice_append_def Let_def)
  show ?thesis
  proof (cases "sl_arr t = sl_arr s")
    case False
    then show ?thesis by (simp add: h' elems_def backing_def)
  next
    case same: True
    from t True same have "sl_off t + sl_len t \<le> sl_off s + sl_len s \<or>
        sl_off s + sl_len s + length vs \<le> sl_off t"
      by (auto simp: untouched_def)
    then show ?thesis
    proof
      assume "sl_off t + sl_len t \<le> sl_off s + sl_len s"
      then show ?thesis using assms(1) True same
        by (simp add: h' elems_def backing_def slice_ok_def take_drop_overwrite_before)
    next
      assume "sl_off s + sl_len s + length vs \<le> sl_off t"
      then show ?thesis using assms(1) True same
        by (simp add: h' elems_def backing_def slice_ok_def take_drop_overwrite_after)
    qed
  qed
qed

end
