(* ===== verification/Id_Collections.thy ===== *)
theory Id_Collections
  imports Uuid Go_Slices "HOL-Library.Multiset" "HOL-Library.Char_ord" "HOL-Library.List_Lexorder"
begin

section \<open>UUID containers: package \<open>id\<close>\<close>

text \<open>
  \<open>id/slice.go\<close>, \<open>id/map.go\<close> and \<open>id/null_id.go\<close>. A \<open>Slice\<close> is a list where only its elements
  matter and a \<open>slice\<close> on a \<open>heap\<close> in \<open>Diff\<close>, which appends to a slice it does not own. A \<open>Map\<close> is
  a map to \<open>unit\<close>; loops that range over it take the visiting order \<open>ks\<close>.
\<close>

type_synonym idmap = "uuid \<rightharpoonup> unit"

subsection \<open>\<open>Slice.Diff\<close>\<close>

definition count_of :: "('u \<rightharpoonup> int) \<Rightarrow> 'u \<Rightarrow> int" where
  "count_of encountered v = (case encountered v of None \<Rightarrow> 0 | Some n \<Rightarrow> n)"

fun count_loop :: "('u \<rightharpoonup> int) \<Rightarrow> 'u list \<Rightarrow> ('u \<rightharpoonup> int)" where
  "count_loop encountered [] = encountered"
| "count_loop encountered (v # vs) = count_loop (encountered(v \<mapsto> count_of encountered v + 1)) vs"

fun diff_loop :: "('u \<rightharpoonup> int) \<Rightarrow> 'u list \<Rightarrow> 'u list \<Rightarrow> 'u list" where
  "diff_loop encountered diff [] = diff"
| "diff_loop encountered diff (v # vs) =
     (if count_of encountered v = 1 then diff_loop encountered (diff @ [v]) vs
      else diff_loop encountered diff vs)"

definition once_in :: "'u list \<Rightarrow> 'u list" where
  "once_in xs = diff_loop (count_loop Map.empty xs) [] xs"

text \<open>
  The method: \<open>append(s, b...)\<close>, then the two loops over the appended slice. It returns the new
  heap as well, since the append may have written to an array the caller can see.
\<close>

definition Slice_Diff :: "(nat \<Rightarrow> nat) \<Rightarrow> uuid heap \<Rightarrow> slice \<Rightarrow> slice \<Rightarrow> uuid heap \<times> uuid list" where
  "Slice_Diff grow h s b =
     (let (h', sl) = slice_append grow 0 h s (elems h b) in (h', once_in (elems h' sl)))"

subsection \<open>\<open>Slice.Sub\<close>, \<open>Add\<close>, \<open>Contains\<close>\<close>

fun lut_loop :: "idmap \<Rightarrow> uuid list \<Rightarrow> idmap" where
  "lut_loop lut [] = lut"
| "lut_loop lut (i # is) = lut_loop (lut(i \<mapsto> ())) is"

fun sub_loop :: "idmap \<Rightarrow> uuid list \<Rightarrow> uuid list \<Rightarrow> uuid list" where
  "sub_loop lut sub [] = sub"
| "sub_loop lut sub (i # is) =
     (if lut i = None then sub_loop lut (sub @ [i]) is else sub_loop lut sub is)"

definition Slice_Sub :: "uuid list \<Rightarrow> uuid list \<Rightarrow> uuid list" where
  "Slice_Sub s b = sub_loop (lut_loop Map.empty b) [] s"

definition Slice_Add :: "(nat \<Rightarrow> nat) \<Rightarrow> uuid heap \<Rightarrow> slice \<Rightarrow> slice \<Rightarrow> uuid heap \<times> slice" where
  "Slice_Add grow h s b = slice_append grow 0 h s (elems h b)"

fun Slice_Contains :: "uuid list \<Rightarrow> uuid \<Rightarrow> bool" where
  "Slice_Contains [] v = False"
| "Slice_Contains (i # s) v = (if i = v then True else Slice_Contains s v)"

subsection \<open>\<open>Map\<close>\<close>

fun MapFromSlice_loop :: "idmap \<Rightarrow> uuid list \<Rightarrow> idmap" where
  "MapFromSlice_loop m [] = m"
| "MapFromSlice_loop m (i # s) = MapFromSlice_loop (m(i \<mapsto> ())) s"

definition MapFromSlice :: "uuid list \<Rightarrow> idmap" where
  "MapFromSlice s = MapFromSlice_loop Map.empty s"

text \<open>The loop that stores \<open>f k\<close> at index 0, 1, ... of a slice made with a fixed length.\<close>

fun fill_loop :: "('k \<Rightarrow> 'v) \<Rightarrow> 'v list \<Rightarrow> nat \<Rightarrow> 'k list \<Rightarrow> 'v list go" where
  "fill_loop f s i [] = Ret s"
| "fill_loop f s i (k # ks) =
     (if i < length s then fill_loop f (s[i := f k]) (Suc i) ks else Panic ''index out of range'')"

definition Map_ToSlice :: "uuid list \<Rightarrow> idmap \<Rightarrow> uuid list go" where
  "Map_ToSlice ks m = fill_loop (\<lambda>k. k) (replicate (card (dom m)) 0) 0 ks"

fun Map_Copy_loop :: "idmap \<Rightarrow> idmap \<Rightarrow> uuid list \<Rightarrow> idmap" where
  "Map_Copy_loop m res [] = res"
| "Map_Copy_loop m res (k # ks) = Map_Copy_loop m (res(k := m k)) ks"

definition Map_Copy :: "uuid list \<Rightarrow> idmap \<Rightarrow> idmap" where
  "Map_Copy ks m = Map_Copy_loop m Map.empty ks"

definition render :: "uuid_lib \<Rightarrow> (uuid \<Rightarrow> string) list \<Rightarrow> uuid \<Rightarrow> string" where
  "render U fn ID = (case fn of [] \<Rightarrow> uuid_String U ID | f # fs \<Rightarrow> f ID)"

definition Map_ToString :: "uuid_lib \<Rightarrow> uuid list \<Rightarrow> idmap \<Rightarrow> string \<Rightarrow> (uuid \<Rightarrow> string) list \<Rightarrow> string go" where
  "Map_ToString U ks m sep fn =
     go_bind (fill_loop (render U fn) (replicate (card (dom m)) '''') 0 ks) (\<lambda>res. Ret (Join res sep))"

definition Map_String :: "uuid_lib \<Rightarrow> uuid list \<Rightarrow> idmap \<Rightarrow> string go" where
  "Map_String U ks m = Map_ToString U ks m '', '' []"

subsection \<open>\<open>Slice\<close> to maps and strings\<close>

definition Slice_Unique :: "uuid list \<Rightarrow> uuid list \<Rightarrow> uuid list go" where
  "Slice_Unique ks s = Map_ToSlice ks (MapFromSlice s)"

definition Slice_ToMap :: "uuid list \<Rightarrow> idmap" where
  "Slice_ToMap s = MapFromSlice s"

definition Slice_ToStringSlice :: "uuid_lib \<Rightarrow> uuid list \<Rightarrow> string list go" where
  "Slice_ToStringSlice U s = fill_loop (uuid_String U) (replicate (length s) '''') 0 s"

definition Slice_ToString :: "uuid_lib \<Rightarrow> uuid list \<Rightarrow> string \<Rightarrow> (uuid \<Rightarrow> string) list \<Rightarrow> string go" where
  "Slice_ToString U s sep fn =
     go_bind (fill_loop (render U fn) (replicate (length s) '''') 0 s) (\<lambda>res. Ret (Join res sep))"

definition Slice_String :: "uuid_lib \<Rightarrow> uuid list \<Rightarrow> string go" where
  "Slice_String U s = Slice_ToString U s '', '' []"

subsection \<open>\<open>sort.Interface\<close>\<close>

definition Slice_Len :: "uuid list \<Rightarrow> int" where
  "Slice_Len s = int (length s)"

definition in_range :: "'a list \<Rightarrow> int \<Rightarrow> bool" where
  "in_range s i \<longleftrightarrow> 0 \<le> i \<and> i < int (length s)"

definition Slice_Less :: "uuid_lib \<Rightarrow> uuid list \<Rightarrow> int \<Rightarrow> int \<Rightarrow> bool go" where
  "Slice_Less U s i j =
     (if in_range s i \<and> in_range s j
      then Ret (uuid_String U (s ! nat i) < uuid_String U (s ! nat j))
      else Panic ''index out of range'')"

definition Slice_Swap :: "uuid list \<Rightarrow> int \<Rightarrow> int \<Rightarrow> uuid list go" where
  "Slice_Swap s i j =
     (if in_range s i \<and> in_range s j
      then Ret (s[nat i := s ! nat j, nat j := s ! nat i])
      else Panic ''index out of range'')"

subsection \<open>\<open>NullUUID\<close>\<close>

record NullUUID =
  nu_UUID :: uuid
  nu_Valid :: bool

definition NullUUID_Scan :: "uuid_lib \<Rightarrow> NullUUID \<Rightarrow> scan_src \<Rightarrow> NullUUID \<times> goerror option" where
  "NullUUID_Scan U u src =
     (case src of
        SrcNil \<Rightarrow> (u\<lparr>nu_UUID := 0, nu_Valid := False\<rparr>, None)
      | SrcUUID x \<Rightarrow>
          (let u = u\<lparr>nu_Valid := True\<rparr>; (v, err) = uuid_Scan U (nu_UUID u) (SrcBytes (uuid_Bytes U x))
           in (u\<lparr>nu_UUID := v\<rparr>, err))
      | _ \<Rightarrow>
          (let u = u\<lparr>nu_Valid := True\<rparr>; (v, err) = uuid_Scan U (nu_UUID u) src
           in (u\<lparr>nu_UUID := v\<rparr>, err)))"

definition NullUUID_Value :: "uuid_lib \<Rightarrow> NullUUID \<Rightarrow> goerror + scan_src" where
  "NullUUID_Value U u = (if \<not> nu_Valid u then Inr SrcNil else uuid_Value U (nu_UUID u))"

subsection \<open>Correctness of the slice operations\<close>

lemma count_loop_count: "count_of (count_loop e xs) v = count_of e v + int (count_list xs v)"
  by (induction xs arbitrary: e) (auto simp: count_of_def)

lemma diff_loop_filter: "diff_loop e acc xs = acc @ filter (\<lambda>v. count_of e v = 1) xs"
  by (induction xs arbitrary: acc) auto

lemma once_in_eq: "once_in xs = filter (\<lambda>v. count_list xs v = 1) xs"
  by (simp add: once_in_def diff_loop_filter count_loop_count) (simp add: count_of_def)

lemma count_list_distinct: "distinct xs \<Longrightarrow> count_list xs v = (if v \<in> set xs then 1 else 0)"
  by (induction xs) auto

lemma set_once_in: "set (once_in xs) = {v. count_list xs v = 1}"
  by (auto simp: once_in_eq) (rule ccontr, simp)

lemma distinct_if_counts: "(\<And>v. count_list xs v \<le> 1) \<Longrightarrow> distinct xs"
proof (induction xs)
  case (Cons x xs)
  from Cons.prems [of x] have "x \<notin> set xs"
    using count_list_0_iff [of xs x] by simp
  moreover have "distinct xs"
  proof (rule Cons.IH)
    fix v show "count_list xs v \<le> 1"
      using Cons.prems [of v] by (simp split: if_splits)
  qed
  ultimately show ?case by simp
qed simp

lemma count_list_filter_le: "count_list (filter P xs) v \<le> count_list xs v"
  by (induction xs) auto

lemma count_list_filter: "count_list (filter P xs) v = (if P v then count_list xs v else 0)"
  by (induction xs) auto

lemma distinct_once_in: "distinct (once_in xs)"
  by (rule distinct_if_counts) (simp add: once_in_eq count_list_filter)

lemma Slice_Diff_result:
  "slice_ok h s \<Longrightarrow> snd (Slice_Diff grow h s b) = once_in (elems h s @ elems h b)"
  by (cases "slice_append grow 0 h s (elems h b)")
    (simp add: Slice_Diff_def elems_append)

text \<open>C30: \<open>Diff\<close> returns, in order of appearance, exactly the UUIDs that occur once in the two slices
  taken together, without repetition; for slices without duplicates that is the symmetric difference,
  whichever of the two is the receiver.\<close>

theorem slice_diff_spec:
  assumes "slice_ok h s" and "slice_ok h b"
  shows "snd (Slice_Diff grow h s b) =
           filter (\<lambda>v. count_list (elems h s @ elems h b) v = 1) (elems h s @ elems h b) \<and>
         distinct (snd (Slice_Diff grow h s b)) \<and>
         set (snd (Slice_Diff grow h s b)) = set (snd (Slice_Diff grow h b s)) \<and>
         (distinct (elems h s) \<and> distinct (elems h b) \<longrightarrow>
            set (snd (Slice_Diff grow h s b)) =
              (set (elems h s) - set (elems h b)) \<union> (set (elems h b) - set (elems h s)))"
proof (intro conjI impI)
  show "snd (Slice_Diff grow h s b) =
      filter (\<lambda>v. count_list (elems h s @ elems h b) v = 1) (elems h s @ elems h b)"
    by (simp add: Slice_Diff_result assms once_in_eq)
  show "distinct (snd (Slice_Diff grow h s b))"
    by (simp add: Slice_Diff_result assms distinct_once_in)
  show "set (snd (Slice_Diff grow h s b)) = set (snd (Slice_Diff grow h b s))"
    by (simp add: Slice_Diff_result assms set_once_in add.commute)
next
  assume "distinct (elems h s) \<and> distinct (elems h b)"
  then show "set (snd (Slice_Diff grow h s b)) =
      (set (elems h s) - set (elems h b)) \<union> (set (elems h b) - set (elems h s))"
    by (auto simp: Slice_Diff_result assms set_once_in count_list_distinct split: if_splits)
qed

definition ex_heap :: "uuid heap" where
  "ex_heap = \<lparr>arrays = [0 \<mapsto> [1, 2, 3, 4]], next_addr = 1\<rparr>"

definition ex_s :: slice where "ex_s = \<lparr>sl_arr = 0, sl_off = 0, sl_len = 1, sl_cap = 4\<rparr>"
definition ex_b :: slice where "ex_b = \<lparr>sl_arr = 0, sl_off = 2, sl_len = 2, sl_cap = 2\<rparr>"

lemmas ex_slices = ex_heap_def ex_s_def ex_b_def elems_def backing_def slice_ok_def

theorem slice_diff_spec_witness: "snd (Slice_Diff (\<lambda>n. n) ex_heap ex_s ex_b) = [1, 3, 4]"
proof -
  have "slice_ok ex_heap ex_s" and "slice_ok ex_heap ex_b" by (simp_all add: ex_slices)
  from slice_diff_spec [OF this, of "\<lambda>n. n"] show ?thesis by (simp add: ex_slices)
qed

text \<open>C31: \<open>Diff\<close> leaves its receiver as it was, and every slice its append does not reach; but it writes
  to memory it does not own: where the receiver has spare capacity the argument itself, or any other
  slice on the same array, can read differently after the call.\<close>

theorem slice_diff_writes_shared_memory:
  "(\<forall>grow h s b t. slice_ok h s \<and> slice_ok h t \<and> untouched s (elems h b) t \<longrightarrow>
      elems (fst (Slice_Diff grow h s b)) t = elems h t) \<and>
   (\<forall>grow h s b. slice_ok h s \<longrightarrow> elems (fst (Slice_Diff grow h s b)) s = elems h s) \<and>
   (\<exists>grow h s b. slice_ok h s \<and> slice_ok h b \<and> elems (fst (Slice_Diff grow h s b)) b \<noteq> elems h b)"
proof (intro conjI allI impI)
  fix grow and h :: "uuid heap" and s b t
  assume "slice_ok h s \<and> slice_ok h t \<and> untouched s (elems h b) t"
  then show "elems (fst (Slice_Diff grow h s b)) t = elems h t"
    by (cases "slice_append grow 0 h s (elems h b)") (auto simp: Slice_Diff_def intro: append_frame)
next
  fix grow and h :: "uuid heap" and s b
  assume ok: "slice_ok h s"
  have "untouched s (elems h b) s" by (simp add: untouched_def)
  with ok show "elems (fst (Slice_Diff grow h s b)) s = elems h s"
    by (cases "slice_append grow 0 h s (elems h b)") (simp add: Slice_Diff_def append_frame)
next
  have "slice_ok ex_heap ex_s" and "slice_ok ex_heap ex_b"
    and "elems (fst (Slice_Diff (\<lambda>n. n) ex_heap ex_s ex_b)) ex_b \<noteq> elems ex_heap ex_b"
    by (simp_all add: Slice_Diff_def slice_append_def overwrite_def ex_slices)
  then show "\<exists>grow h s b. slice_ok h s \<and> slice_ok h b \<and>
      elems (fst (Slice_Diff grow h s b)) b \<noteq> elems h b" by blast
qed

theorem slice_diff_writes_shared_memory_witness:
  "elems (fst (Slice_Diff (\<lambda>n. n) ex_heap ex_s ex_b)) ex_s = [1]"
proof -
  have "slice_ok ex_heap ex_s" by (simp add: ex_slices)
  with slice_diff_writes_shared_memory
  have "elems (fst (Slice_Diff (\<lambda>n. n) ex_heap ex_s ex_b)) ex_s = elems ex_heap ex_s" by blast
  then show ?thesis by (simp add: ex_slices)
qed

lemma lut_loop_dom: "dom (lut_loop lut is) = dom lut \<union> set is"
  by (induction "is" arbitrary: lut) auto

lemma sub_loop_filter: "sub_loop lut acc is = acc @ filter (\<lambda>i. lut i = None) is"
  by (induction "is" arbitrary: acc) auto

lemma Slice_Sub_eq: "Slice_Sub s b = filter (\<lambda>i. i \<notin> set b) s"
proof -
  have "(lut_loop Map.empty b i = None) = (i \<notin> set b)" for i
    using lut_loop_dom [of Map.empty b] by (auto simp: domIff)
  then show ?thesis by (simp add: Slice_Sub_def sub_loop_filter)
qed

lemma Slice_Contains_iff: "Slice_Contains s v \<longleftrightarrow> v \<in> set s"
  by (induction s) auto

text \<open>\<open>Sub\<close> keeps the receiver's elements that \<open>Contains\<close> does not find in the argument, in order and
  with their multiplicities; subtracting twice is subtracting once, and subtracting a slice from itself
  leaves nothing.\<close>

theorem slice_sub_spec:
  "Slice_Sub s b = filter (\<lambda>v. \<not> Slice_Contains b v) s \<and>
   count_list (Slice_Sub s b) v = (if Slice_Contains b v then 0 else count_list s v) \<and>
   Slice_Sub (Slice_Sub s b) b = Slice_Sub s b \<and>
   Slice_Sub s s = []"
  by (simp add: Slice_Sub_eq Slice_Contains_iff count_list_filter)

subsection \<open>Correctness of the map operations\<close>

lemma fill_loop_fills:
  "length rest = length ks \<Longrightarrow> fill_loop f (pre @ rest) (length pre) ks = Ret (pre @ map f ks)"
proof (induction ks arbitrary: pre rest)
  case Nil
  then show ?case by simp
next
  case (Cons k ks)
  then obtain r rest' where rest: "rest = r # rest'" and len: "length rest' = length ks"
    by (cases rest) auto
  have "fill_loop f (pre @ rest) (length pre) (k # ks) = fill_loop f ((pre @ [f k]) @ rest') (length (pre @ [f k])) ks"
    using rest by simp
  also have "\<dots> = Ret ((pre @ [f k]) @ map f ks)" by (rule Cons.IH [OF len])
  finally show ?case by simp
qed

lemma fill_loop_replicate: "n = length ks \<Longrightarrow> fill_loop f (replicate n z) 0 ks = Ret (map f ks)"
  using fill_loop_fills [of "replicate n z" ks f "[]"] by simp

lemma MapFromSlice_loop_eq: "MapFromSlice_loop m s = (\<lambda>v. if v \<in> set s then Some () else m v)"
  by (induction s arbitrary: m) (auto simp: fun_eq_iff)

lemma MapFromSlice_eq: "MapFromSlice s = (\<lambda>v. if v \<in> set s then Some () else None)"
  by (simp add: MapFromSlice_def MapFromSlice_loop_eq)

lemma dom_MapFromSlice [simp]: "dom (MapFromSlice s) = set s"
  by (auto simp: MapFromSlice_eq dom_def)

lemma idmap_eqI: "dom m = dom m' \<Longrightarrow> m = (m' :: idmap)"
  by (rule ext) (metis domIff not_Some_eq old.unit.exhaust)

lemma Map_ToSlice_eq: "ranges_over ks m \<Longrightarrow> Map_ToSlice ks m = Ret ks"
  by (simp add: Map_ToSlice_def ranges_over_length fill_loop_replicate)

lemma Map_Copy_loop_dom: "set ks \<subseteq> dom m \<Longrightarrow> dom (Map_Copy_loop m res ks) = dom res \<union> set ks"
  by (induction ks arbitrary: res) auto

lemma Map_Copy_eq: "ranges_over ks m \<Longrightarrow> Map_Copy ks m = m"
  by (rule idmap_eqI) (auto simp: Map_Copy_def Map_Copy_loop_dom ranges_over_def)

text \<open>Whatever order the runtime ranges over the map in, \<open>Unique\<close> returns (without an index panic)
  each element of the slice exactly once; turning a map into a slice and back, or copying it, gives the
  same map.\<close>

theorem slice_unique_spec:
  assumes "ranges_over ks (MapFromSlice s)"
  shows "\<exists>u. Slice_Unique ks s = Ret u \<and> distinct u \<and> set u = set s \<and> length u = card (set s) \<and>
           MapFromSlice u = Slice_ToMap s \<and> Map_Copy ks (Slice_ToMap s) = Slice_ToMap s"
proof (intro exI conjI)
  show "Slice_Unique ks s = Ret ks" by (simp add: Slice_Unique_def Map_ToSlice_eq assms)
  show "distinct ks" and "set ks = set s" and "length ks = card (set s)"
    using assms ranges_over_length [OF assms] by (auto simp: ranges_over_def)
  then show "MapFromSlice ks = Slice_ToMap s" by (intro idmap_eqI) (simp add: Slice_ToMap_def)
  show "Map_Copy ks (Slice_ToMap s) = Slice_ToMap s"
    by (simp add: Slice_ToMap_def Map_Copy_eq assms)
qed

theorem slice_unique_spec_witness:
  "ranges_over [3, 1] (MapFromSlice [1, 3, 1]) \<and>
   (\<exists>u. Slice_Unique [3, 1] [1, 3, 1] = Ret u \<and> length u = 2)"
proof -
  have "ranges_over [3, 1] (MapFromSlice [1, 3, 1])" by (auto simp: ranges_over_def)
  moreover have "card (set [1, 3, 1 :: uuid]) = 2" by (simp add: card_insert_if)
  ultimately show ?thesis using slice_unique_spec [of "[3, 1]" "[1, 3, 1]"] by metis
qed

text \<open>The textual forms: \<open>Slice.ToString\<close> joins the rendered elements in order (with the callback
  where one is given and \<open>UUID.String\<close> otherwise) and never panics; \<open>Map.ToString\<close> is the same over the
  keys in visiting order; a slice's texts determine the slice.\<close>

theorem to_string_spec:
  assumes "uuid_lib_ok U" and "ranges_over ks m"
  shows "Slice_ToString U s sep fn = Ret (Join (map (render U fn) s) sep) \<and>
         Slice_String U s = Ret (Join (map (uuid_String U) s) '', '') \<and>
         Slice_ToStringSlice U s = Ret (map (uuid_String U) s) \<and>
         Map_ToString U ks m sep fn = Slice_ToString U ks sep fn \<and>
         Map_String U ks m = Slice_String U ks \<and>
         (Slice_ToStringSlice U s = Slice_ToStringSlice U t \<longrightarrow> s = t)"
proof -
  have "inj (uuid_String U)" using uuid_String_inj [OF assms(1)] by (auto intro: injI)
  moreover have "render U [] = uuid_String U" by (simp add: render_def fun_eq_iff)
  ultimately show ?thesis
    using ranges_over_length [OF assms(2)]
    by (auto simp: Slice_ToString_def Slice_String_def Slice_ToStringSlice_def Map_ToString_def
        Map_String_def fill_loop_replicate dest: map_injective)
qed

theorem to_string_spec_witness:
  "Map_ToString decimal_uuids [7, 4] [4 \<mapsto> (), 7 \<mapsto> ()] ''-'' [] = Ret ''7-4''"
proof -
  have "ranges_over [7, 4 :: uuid] [4 \<mapsto> (), 7 \<mapsto> ()]" by (auto simp: ranges_over_def)
  from to_string_spec [OF decimal_uuids_ok this, of "[7, 4]" "''-''" "[]" "[]"] show ?thesis
    by (simp add: render_def decimal_uuids_def decimal_String_def nat_digits.simps digit_char_def)
qed

subsection \<open>\<open>sort.Interface\<close> as a contract\<close>

text \<open>
  What \<open>sort.Sort\<close> asks of its argument: \<open>Less\<close> compares the ranks of two elements and \<open>Swap\<close>
  exchanges two elements, both without a panic on indices below \<open>Len\<close>. A sorting algorithm only ever
  runs such swaps; wherever it stops with no adjacent pair out of order, the ranks are the sorted
  ranks of the start.
\<close>

fun run_swaps :: "('s \<Rightarrow> int \<Rightarrow> int \<Rightarrow> 's go) \<Rightarrow> 's \<Rightarrow> (int \<times> int) list \<Rightarrow> 's go" where
  "run_swaps swap s [] = Ret s"
| "run_swaps swap s ((i, j) # ijs) = go_bind (swap s i j) (\<lambda>s'. run_swaps swap s' ijs)"

locale sort_interface =
  fixes Len :: "'s \<Rightarrow> int"
    and Less :: "'s \<Rightarrow> int \<Rightarrow> int \<Rightarrow> bool go"
    and Swap :: "'s \<Rightarrow> int \<Rightarrow> int \<Rightarrow> 's go"
    and items :: "'s \<Rightarrow> 'a list"
    and rank :: "'a \<Rightarrow> 'r::linorder"
  assumes Len_items: "Len s = int (length (items s))"
    and Less_rank: "0 \<le> i \<Longrightarrow> i < Len s \<Longrightarrow> 0 \<le> j \<Longrightarrow> j < Len s \<Longrightarrow>
          Less s i j = Ret (rank (items s ! nat i) < rank (items s ! nat j))"
    and Swap_items: "0 \<le> i \<Longrightarrow> i < Len s \<Longrightarrow> 0 \<le> j \<Longrightarrow> j < Len s \<Longrightarrow>
          \<exists>s'. Swap s i j = Ret s' \<and>
               items s' = (items s)[nat i := items s ! nat j, nat j := items s ! nat i]"
begin

lemma swap_mset:
  assumes "0 \<le> i" "i < Len s" "0 \<le> j" "j < Len s"
  shows "\<exists>s'. Swap s i j = Ret s' \<and> Len s' = Len s \<and> mset (items s') = mset (items s)"
proof -
  obtain s' where s': "Swap s i j = Ret s'"
    and it: "items s' = (items s)[nat i := items s ! nat j, nat j := items s ! nat i]"
    using Swap_items [OF assms] by blast
  have "nat i < length (items s)" "nat j < length (items s)" using assms by (auto simp: Len_items)
  then have "mset (items s') = mset (items s)" by (simp add: it mset_swap)
  with s' it show ?thesis by (simp add: Len_items)
qed

lemma swaps_mset:
  assumes "\<forall>(i, j) \<in> set ijs. 0 \<le> i \<and> i < Len s \<and> 0 \<le> j \<and> j < Len s"
  shows "\<exists>s'. run_swaps Swap s ijs = Ret s' \<and> Len s' = Len s \<and> mset (items s') = mset (items s)"
  using assms
proof (induction ijs arbitrary: s)
  case Nil
  then show ?case by simp
next
  case (Cons ij ijs)
  obtain i j where ij: "ij = (i, j)" by (cases ij)
  with Cons.prems obtain s1 where s1: "Swap s i j = Ret s1" and len: "Len s1 = Len s"
    and ms: "mset (items s1) = mset (items s)"
    using swap_mset [of i s j] by auto
  from Cons.prems len have "\<forall>(i, j) \<in> set ijs. 0 \<le> i \<and> i < Len s1 \<and> 0 \<le> j \<and> j < Len s1" by simp
  from Cons.IH [OF this] s1 len ms ij show ?case by auto
qed

lemma sorted_when_quiet:
  assumes "\<forall>i. 0 \<le> i \<and> i + 1 < Len s \<longrightarrow> Less s (i + 1) i = Ret False"
  shows "sorted (map rank (items s))"
  unfolding sorted_iff_nth_Suc
proof (intro allI impI)
  fix i assume "Suc i < length (map rank (items s))"
  then have i: "0 \<le> int i" "int i + 1 < Len s" by (simp_all add: Len_items)
  with assms have "Less s (int i + 1) (int i) = Ret False" by blast
  with i have "\<not> rank (items s ! Suc i) < rank (items s ! i)"
    by (subst (asm) Less_rank) (auto simp: nat_add_distrib)
  with i show "map rank (items s) ! i \<le> map rank (items s) ! Suc i"
    by (simp add: Len_items)
qed

lemma sort_unique:
  assumes "\<forall>(i, j) \<in> set ijs. 0 \<le> i \<and> i < Len s \<and> 0 \<le> j \<and> j < Len s"
    and "run_swaps Swap s ijs = Ret s'"
    and "\<forall>i. 0 \<le> i \<and> i + 1 < Len s' \<longrightarrow> Less s' (i + 1) i = Ret False"
  shows "map rank (items s') = sort (map rank (items s))"
proof -
  from swaps_mset [OF assms(1)] assms(2) have "mset (items s') = mset (items s)" by auto
  then have "mset (map rank (items s')) = mset (map rank (items s))" by simp
  with sorted_when_quiet [OF assms(3)] show ?thesis by (metis properties_for_sort)
qed

end

interpretation slice_sort: sort_interface Slice_Len "Slice_Less U" Slice_Swap "\<lambda>s. s" "uuid_String U"
  by unfold_locales (auto simp: Slice_Len_def Slice_Less_def Slice_Swap_def in_range_def)

text \<open>\<open>Slice\<close> meets \<open>sort.Interface\<close>: any run of in-range swaps returns, keeps the elements, and, once
  no element is less than its predecessor, the slice is the input sorted by its textual form, whatever the
  algorithm did in between.\<close>

theorem slice_sorting:
  assumes "uuid_lib_ok U"
    and "\<forall>(i, j) \<in> set ijs. 0 \<le> i \<and> i < Slice_Len s \<and> 0 \<le> j \<and> j < Slice_Len s"
  shows "\<exists>s'. run_swaps Slice_Swap s ijs = Ret s' \<and> mset s' = mset s \<and>
           ((\<forall>i. 0 \<le> i \<and> i + 1 < Slice_Len s' \<longrightarrow> Slice_Less U s' (i + 1) i = Ret False) \<longrightarrow>
              s' = sort_key (uuid_String U) s)"
proof -
  obtain s' where run: "run_swaps Slice_Swap s ijs = Ret s'" and ms: "mset s' = mset s"
    using slice_sort.swaps_mset [OF assms(2)] by blast
  have inj: "inj (uuid_String U)" using uuid_String_inj [OF assms(1)] by (auto intro: injI)
  have "s' = sort_key (uuid_String U) s"
    if "\<forall>i. 0 \<le> i \<and> i + 1 < Slice_Len s' \<longrightarrow> Slice_Less U s' (i + 1) i = Ret False"
  proof -
    have "map (uuid_String U) s' = sort (map (uuid_String U) s)"
      using slice_sort.sort_unique [OF assms(2) run that] by simp
    also have "\<dots> = map (uuid_String U) (sort_key (uuid_String U) s)"
      by (rule properties_for_sort) simp_all
    finally show ?thesis using inj by (rule map_injective)
  qed
  with run ms show ?thesis by blast
qed

theorem slice_sorting_witness:
  "\<exists>s'. run_swaps Slice_Swap [3, 1] [(0, 1)] = Ret s' \<and> mset s' = mset [3, 1 :: uuid]"
proof -
  have "\<forall>(i, j) \<in> set [(0, 1)]. 0 \<le> i \<and> i < Slice_Len [3, 1] \<and> 0 \<le> j \<and> j < Slice_Len [3, 1]"
    by (simp add: Slice_Len_def)
  from slice_sorting [OF decimal_uuids_ok this] show ?thesis by blast
qed

subsection \<open>\<open>NullUUID\<close> and SQL\<close>

text \<open>A \<open>NullUUID\<close> survives the database: what \<open>Value\<close> writes, \<open>Scan\<close> reads back into any receiver as
  the same value, NULL included (whose UUID part becomes zero); scanning a \<open>uuid.UUID\<close> gives that UUID.\<close>

theorem null_uuid_roundtrip:
  assumes "uuid_lib_ok U"
  shows "(\<exists>v. NullUUID_Value U u = Inr v \<and>
            NullUUID_Scan U r v = (if nu_Valid u then u else \<lparr>nu_UUID = 0, nu_Valid = False\<rparr>, None)) \<and>
         NullUUID_Scan U r (SrcUUID x) = (\<lparr>nu_UUID = x, nu_Valid = True\<rparr>, None) \<and>
         (NullUUID_Scan U r src = (q, None) \<longrightarrow> (nu_Valid q \<longleftrightarrow> src \<noteq> SrcNil))"
proof -
  obtain ru rv where r: "r = \<lparr>nu_UUID = ru, nu_Valid = rv\<rparr>" by (cases r) auto
  obtain uu uv where u: "u = \<lparr>nu_UUID = uu, nu_Valid = uv\<rparr>" by (cases u) auto
  from assms show ?thesis
    by (cases uv; cases src)
      (auto simp: u r NullUUID_Value_def NullUUID_Scan_def uuid_lib_ok_def split: prod.splits)
qed

theorem null_uuid_roundtrip_witness:
  "NullUUID_Scan decimal_uuids \<lparr>nu_UUID = 5, nu_Valid = False\<rparr> (SrcUUID 9) =
     (\<lparr>nu_UUID = 9, nu_Valid = True\<rparr>, None)"
  using null_uuid_roundtrip [OF decimal_uuids_ok] by blast

end
