(* ===== verification/Migration.thy ===== *)
theory Migration
  imports Errors
begin

section \<open>Database migration: \<open>migration/migration.go\<close>\<close>

text \<open>
  \<open>Migrate\<close> brings the "version" table of a database up to the list of migrations it is given, one
  transaction per version, under an advisory lock. The database server, the driver and everything
  they keep is a state of type \<open>'w\<close> that the source only touches through \<open>database/sql\<close>: the record
  \<open>sql_driver\<close> is that interface and a parameter of the model; each call takes the state, may fail,
  and returns the new state. The text of every SQL statement is the source's.
  The assets are the caller's (\<open>MigrateData\<close>), and the \<open>text/template\<close> engine that expands an asset
  with arguments is the parameter \<open>tmpl\<close> (parse and execute, each may fail).
\<close>

subsection \<open>The interface of \<open>database/sql\<close>\<close>

record 'w sql_driver =
  sql_Begin :: "'w \<Rightarrow> goerror option \<times> 'w"
  sql_Exec :: "string \<Rightarrow> gval list \<Rightarrow> 'w \<Rightarrow> goerror option \<times> 'w"
  sql_QueryBool :: "string \<Rightarrow> gval list \<Rightarrow> 'w \<Rightarrow> (goerror + bool) \<times> 'w"
  sql_QueryInt :: "string \<Rightarrow> gval list \<Rightarrow> 'w \<Rightarrow> (goerror + int) \<times> 'w"
  sql_Commit :: "'w \<Rightarrow> goerror option \<times> 'w"
  sql_Rollback :: "'w \<Rightarrow> goerror option \<times> 'w"

record migrate_data =
  AssetNameWithArgs :: "string list list"
  Asset :: "string \<Rightarrow> goerror + string"

record template_engine =
  tmpl_Parse :: "string \<Rightarrow> goerror option"
  tmpl_Execute :: "string \<Rightarrow> string list \<Rightarrow> goerror + string"

definition advisoryLockID :: int where "advisoryLockID = 42"

definition sql_lock :: string where
  "sql_lock = ''SELECT pg_advisory_xact_lock($1)''"

definition query_indent :: string where
  "query_indent = CHR 0x0A # replicate 4 (CHR 0x09)"

definition sql_exists :: string where
  "sql_exists = ''SELECT EXISTS('' @ query_indent @ ''SELECT 1 FROM information_schema.tables'' @ query_indent @
     ''WHERE table_catalog=$1'' @ query_indent @ ''AND table_name='' @ [CHR 0x27] @ ''version'' @ [CHR 0x27] @ '')''"

definition sql_max :: string where
  "sql_max = ''SELECT max(version) as current FROM version''"

definition sql_insert :: string where
  "sql_insert = ''INSERT INTO version(version) VALUES($1)''"

text \<open>A step of a migration is a function on the transaction, a version a list of steps.\<close>

type_synonym 'w step = "'w \<Rightarrow> goerror option \<times> 'w"
type_synonym 'w migrations = "'w step list list"

text \<open>How an error prints as an operand of a format.\<close>

definition err_val :: "goerror \<Rightarrow> gval" where
  "err_val e = VForeign ''error'' (text_of e) (text_of e)"

definition int64_inc :: "int \<Rightarrow> int" where
  "int64_inc n = signed_take_bit 63 (n + 1)"

subsection \<open>The operations\<close>

text \<open>The SQL text an asset with arguments stands for, or the error that stops its expansion.\<close>

definition script_text :: "pkg_errors \<Rightarrow> template_engine \<Rightarrow> (string \<Rightarrow> goerror + string) \<Rightarrow> string \<Rightarrow> string list
    \<Rightarrow> goerror option + string" where
  "script_text P T asset filename args =
     (case asset filename of
        Inl err \<Rightarrow> Inl (errs_Wrapf P (Some err) (Sprintf ''failed to find filename: %s'' [VString filename]))
      | Inr data \<Rightarrow>
          if 0 < length args
          then (case tmpl_Parse T data of
                  Some err \<Rightarrow>
                    Inl (errs_Wrapf P (Some err) (Sprintf ''failed to parse SQL template in file %s'' [VString filename]))
                | None \<Rightarrow>
                    (case tmpl_Execute T data args of
                       Inl err \<Rightarrow>
                         Inl (errs_Wrapf P (Some err) (Sprintf ''failed to execute SQL template in file %s'' [VString filename]))
                     | Inr sqlScript \<Rightarrow> Inr sqlScript))
          else Inr data)"

definition executeSQLFile :: "pkg_errors \<Rightarrow> template_engine \<Rightarrow> 'w sql_driver \<Rightarrow> (string \<Rightarrow> goerror + string)
    \<Rightarrow> string \<Rightarrow> string list \<Rightarrow> 'w step" where
  "executeSQLFile P T D asset filename args w =
     (case script_text P T asset filename args of
        Inl err \<Rightarrow> (err, w)
      | Inr script \<Rightarrow> (let (err, w') = sql_Exec D script [] w in (errs_WithStack P err, w')))"

fun getMigrations_loop :: "pkg_errors \<Rightarrow> template_engine \<Rightarrow> 'w sql_driver \<Rightarrow> (string \<Rightarrow> goerror + string)
    \<Rightarrow> 'w migrations \<Rightarrow> string list list \<Rightarrow> 'w migrations go" where
  "getMigrations_loop P T D asset m [] = Ret m"
| "getMigrations_loop P T D asset m ([] # rest) = Panic ''index out of range''"
| "getMigrations_loop P T D asset m ((name # args) # rest) =
     getMigrations_loop P T D asset (m @ [[executeSQLFile P T D asset name args]]) rest"

definition getMigrations :: "pkg_errors \<Rightarrow> template_engine \<Rightarrow> 'w sql_driver \<Rightarrow> migrate_data \<Rightarrow> 'w migrations go" where
  "getMigrations P T D md = getMigrations_loop P T D (Asset md) [] (AssetNameWithArgs md)"

definition getCurrentVersion :: "pkg_errors \<Rightarrow> 'w sql_driver \<Rightarrow> string \<Rightarrow> 'w \<Rightarrow> (goerror + int) \<times> 'w" where
  "getCurrentVersion P D catalog w =
     (case sql_QueryBool D sql_exists [VString catalog] w of
        (Inl err, w1) \<Rightarrow>
          (Inl (errs_New P (Sprintf ''failed to scan if table \"version\" exists: %s'' [err_val err])), w1)
      | (Inr exists, w1) \<Rightarrow>
          if \<not> exists then (Inr (-1), w1)
          else (case sql_QueryInt D sql_max [] w1 of
                  (Inl err, w2) \<Rightarrow>
                    (Inl (errs_New P (Sprintf ''failed to scan max version in table \"version\": %s'' [err_val err])), w2)
                | (Inr current, w2) \<Rightarrow> (Inr current, w2)))"

fun run_steps :: "pkg_errors \<Rightarrow> int \<Rightarrow> nat \<Rightarrow> 'w step list \<Rightarrow> 'w \<Rightarrow> goerror option \<times> 'w" where
  "run_steps P nextVersion j [] w = (None, w)"
| "run_steps P nextVersion j (f # fs) w =
     (case f w of
        (Some err, w') \<Rightarrow>
          (Some (errs_New P (Sprintf ''failed to execute migration of step %d of version %d: %s''
                   [VInt (int j), VInt nextVersion, err_val err])), w')
      | (None, w') \<Rightarrow> run_steps P nextVersion (Suc j) fs w')"

text \<open>
  \<open>migrateToNextVersion\<close> returns its error, the value it leaves in \<open>*nextVersion\<close>, and the state.
  \<open>m[*nextVersion]\<close> panics on a negative index.
\<close>

definition migrateToNextVersion :: "pkg_errors \<Rightarrow> 'w sql_driver \<Rightarrow> int \<Rightarrow> 'w migrations \<Rightarrow> string \<Rightarrow> 'w
    \<Rightarrow> (goerror option \<times> int \<times> 'w) go" where
  "migrateToNextVersion P D nextVersion m catalog w =
     (case sql_Exec D sql_lock [VInt advisoryLockID] w of
        (Some err, w1) \<Rightarrow>
          Ret (errs_Wrapf P (Some err) (Sprintf ''failed to acquire lock: %s'' [VInt advisoryLockID]), nextVersion, w1)
      | (None, w1) \<Rightarrow>
          (case getCurrentVersion P D catalog w1 of
             (Inl err, w2) \<Rightarrow> Ret (errs_WithStack P (Some err), nextVersion, w2)
           | (Inr currentVersion, w2) \<Rightarrow>
               (let next = int64_inc currentVersion in
                if int (length m) \<le> next then Ret (None, next, w2)
                else if next < 0 then Panic ''index out of range''
                else (case run_steps P next 0 (m ! nat next) w2 of
                        (Some err, w3) \<Rightarrow> Ret (Some err, next, w3)
                      | (None, w3) \<Rightarrow>
                          (case sql_Exec D sql_insert [VInt next] w3 of
                             (Some err, w4) \<Rightarrow>
                               Ret (Some (errs_New P (Sprintf ''failed to update DB to version %d: %s''
                                            [VInt next, err_val err])), next, w4)
                           | (None, w4) \<Rightarrow> Ret (None, next, w4))))))"

text \<open>
  One iteration of the loop of \<open>Migrate\<close>: \<open>Inl\<close> is a \<open>return\<close> from the function, \<open>Inr\<close> continues the
  loop with the value \<open>nextVersion\<close> has when its body ends.
\<close>

definition migrate_iteration :: "pkg_errors \<Rightarrow> 'w sql_driver \<Rightarrow> 'w migrations \<Rightarrow> string \<Rightarrow> int \<Rightarrow> 'w
    \<Rightarrow> ((goerror option \<times> 'w) + (int \<times> 'w)) go" where
  "migrate_iteration P D m catalog nextVersion w =
     (case sql_Begin D w of
        (Some err, w1) \<Rightarrow> Ret (Inl (Some (errs_New P (Sprintf ''failed to start transaction: %s'' [err_val err])), w1))
      | (None, w1) \<Rightarrow>
          go_bind (migrateToNextVersion P D nextVersion m catalog w1) (\<lambda>(err, nextVersion', w2).
            case err of
              Some oldErr \<Rightarrow>
                (case sql_Rollback D w2 of
                   (Some rerr, w3) \<Rightarrow>
                     Ret (Inl (Some (errs_New P (Sprintf ''error while rolling back transaction: %s'' [err_val rerr])), w3))
                 | (None, w3) \<Rightarrow> Ret (Inl (Some oldErr, w3)))
            | None \<Rightarrow>
                (case sql_Commit D w2 of
                   (Some cerr, w3) \<Rightarrow>
                     Ret (Inl (Some (errs_New P (Sprintf ''error during transaction commit: %s'' [err_val cerr])), w3))
                 | (None, w3) \<Rightarrow> Ret (Inr (nextVersion', w3)))))"

text \<open>The loop may run forever on a database whose version does not advance: \<open>None\<close> is that.\<close>

partial_function (option) migrate_loop :: "pkg_errors \<Rightarrow> 'w sql_driver \<Rightarrow> 'w migrations \<Rightarrow> string \<Rightarrow> int \<Rightarrow> 'w
    \<Rightarrow> (goerror option \<times> 'w) go option" where
  "migrate_loop P D m catalog nextVersion w =
     (if nextVersion < int (length m)
      then (case migrate_iteration P D m catalog nextVersion w of
              Panic msg \<Rightarrow> Some (Panic msg)
            | Ret (Inl result) \<Rightarrow> Some (Ret result)
            | Ret (Inr (nextVersion', w')) \<Rightarrow> migrate_loop P D m catalog (int64_inc nextVersion') w')
      else Some (Ret (None, w)))"

definition Migrate :: "pkg_errors \<Rightarrow> template_engine \<Rightarrow> 'w sql_driver option \<Rightarrow> string \<Rightarrow> migrate_data \<Rightarrow> 'w
    \<Rightarrow> (goerror option \<times> 'w) go option" where
  "Migrate P T db catalog md w =
     (case db of
        None \<Rightarrow> Some (Ret (Some (errs_New P ''database handle is nil''), w))
      | Some D \<Rightarrow>
          (case getMigrations P T D md of
             Panic msg \<Rightarrow> Some (Panic msg)
           | Ret m \<Rightarrow> migrate_loop P D m catalog 0 w))"

subsection \<open>What the database promises\<close>

text \<open>
  An abstract view of the database: the rows of the version table (\<open>None\<close> when the table does not
  exist) and the SQL scripts executed on it so far. Two views of a state matter: what is committed,
  and what the open transaction sees.
\<close>

record vdb =
  versions :: "int list option"
  history :: "string list"

definition level :: "vdb \<Rightarrow> nat" where
  "level d = (case versions d of None \<Rightarrow> 0 | Some vs \<Rightarrow> length vs)"

text \<open>
  A database is consistent with the scripts \<open>ss\<close> when its version table records exactly the versions
  \<open>0 .. k-1\<close> and exactly the first \<open>k\<close> scripts were executed, each once and in order (\<open>k = 0\<close>: no
  version table, nothing executed).
\<close>

definition consistent :: "string list \<Rightarrow> vdb \<Rightarrow> bool" where
  "consistent ss d \<longleftrightarrow>
     level d \<le> length ss \<and> history d = take (level d) ss \<and>
     versions d = (if level d = 0 then None else Some (map int [0..<level d]))"

text \<open>
  Other instances of the service may migrate the same database at the same time. While this one does
  not hold the lock they may have committed any number of further versions.
\<close>

definition advance :: "string list \<Rightarrow> vdb \<Rightarrow> vdb \<Rightarrow> bool" where
  "advance ss d d' \<longleftrightarrow> (consistent ss d \<longrightarrow> consistent ss d' \<and> level d \<le> level d')"

text \<open>
  The documented behaviour of the server, on success and on failure of each call: transaction
  isolation and atomicity, mutual exclusion by the advisory lock (between taking it and the end of the
  transaction nobody else commits a version), SQL's \<open>max\<close> (no value, hence a scan error, on an empty
  table), INSERT (which needs the table), and scripts, whose effect on the version table is \<open>sv\<close>.
  \<open>information_schema.tables\<close> lists the tables of the database one is connected to, and no others: asked
  for another catalog the server finds no version table.
  A commit that reports an error may or may not have taken effect.
\<close>

definition begin_ok :: "'w sql_driver \<Rightarrow> ('w \<Rightarrow> vdb) \<Rightarrow> string list \<Rightarrow> bool" where
  "begin_ok D committed ss \<longleftrightarrow>
     (\<forall>w e w'. sql_Begin D w = (e, w') \<longrightarrow> advance ss (committed w) (committed w'))"

definition lock_ok :: "'w sql_driver \<Rightarrow> ('w \<Rightarrow> vdb) \<Rightarrow> ('w \<Rightarrow> vdb) \<Rightarrow> string list \<Rightarrow> bool" where
  "lock_ok D committed current ss \<longleftrightarrow>
     (\<forall>w e w'. sql_Exec D sql_lock [VInt advisoryLockID] w = (e, w') \<longrightarrow>
        advance ss (committed w) (committed w') \<and> (e = None \<longrightarrow> current w' = committed w'))"

definition exists_ok :: "'w sql_driver \<Rightarrow> string \<Rightarrow> ('w \<Rightarrow> vdb) \<Rightarrow> ('w \<Rightarrow> vdb) \<Rightarrow> bool" where
  "exists_ok D database committed current \<longleftrightarrow>
     (\<forall>w c r w'. sql_QueryBool D sql_exists [VString c] w = (r, w') \<longrightarrow>
        committed w' = committed w \<and>
        (\<forall>b. r = Inr b \<longrightarrow> b = (c = database \<and> versions (current w) \<noteq> None) \<and> current w' = current w))"

definition max_ok :: "'w sql_driver \<Rightarrow> ('w \<Rightarrow> vdb) \<Rightarrow> ('w \<Rightarrow> vdb) \<Rightarrow> bool" where
  "max_ok D committed current \<longleftrightarrow>
     (\<forall>w r w'. sql_QueryInt D sql_max [] w = (r, w') \<longrightarrow>
        committed w' = committed w \<and>
        (\<forall>n. r = Inr n \<longrightarrow> current w' = current w \<and>
           (\<exists>vs. versions (current w) = Some vs \<and> vs \<noteq> [] \<and> n = Max (set vs))))"

definition insert_ok :: "'w sql_driver \<Rightarrow> ('w \<Rightarrow> vdb) \<Rightarrow> ('w \<Rightarrow> vdb) \<Rightarrow> bool" where
  "insert_ok D committed current \<longleftrightarrow>
     (\<forall>w v e w'. sql_Exec D sql_insert [VInt v] w = (e, w') \<longrightarrow>
        committed w' = committed w \<and>
        (e = None \<longrightarrow> (\<exists>vs. versions (current w) = Some vs \<and>
           current w' = (current w)\<lparr>versions := Some (vs @ [v])\<rparr>)))"

definition script_ok :: "'w sql_driver \<Rightarrow> ('w \<Rightarrow> vdb) \<Rightarrow> ('w \<Rightarrow> vdb) \<Rightarrow> string list
    \<Rightarrow> (string \<Rightarrow> int list option \<Rightarrow> int list option) \<Rightarrow> bool" where
  "script_ok D committed current ss sv \<longleftrightarrow>
     (\<forall>w s e w'. s \<in> set ss \<and> sql_Exec D s [] w = (e, w') \<longrightarrow>
        committed w' = committed w \<and>
        (e = None \<longrightarrow> current w' =
           \<lparr>versions = sv s (versions (current w)), history = history (current w) @ [s]\<rparr>))"

definition commit_ok :: "'w sql_driver \<Rightarrow> ('w \<Rightarrow> vdb) \<Rightarrow> ('w \<Rightarrow> vdb) \<Rightarrow> string list \<Rightarrow> bool" where
  "commit_ok D committed current ss \<longleftrightarrow>
     (\<forall>w e w'. sql_Commit D w = (e, w') \<longrightarrow>
        advance ss (current w) (committed w') \<or> e \<noteq> None \<and> advance ss (committed w) (committed w'))"

definition rollback_ok :: "'w sql_driver \<Rightarrow> ('w \<Rightarrow> vdb) \<Rightarrow> string list \<Rightarrow> bool" where
  "rollback_ok D committed ss \<longleftrightarrow>
     (\<forall>w e w'. sql_Rollback D w = (e, w') \<longrightarrow> advance ss (committed w) (committed w'))"

definition driver_ok :: "'w sql_driver \<Rightarrow> string \<Rightarrow> ('w \<Rightarrow> vdb) \<Rightarrow> ('w \<Rightarrow> vdb) \<Rightarrow> string list
    \<Rightarrow> (string \<Rightarrow> int list option \<Rightarrow> int list option) \<Rightarrow> bool" where
  "driver_ok D database committed current ss sv \<longleftrightarrow>
     begin_ok D committed ss \<and> lock_ok D committed current ss \<and> exists_ok D database committed current \<and>
     max_ok D committed current \<and> insert_ok D committed current \<and> script_ok D committed current ss sv \<and>
     commit_ok D committed current ss \<and> rollback_ok D committed ss"

text \<open>The first script creates the version table, the later ones leave its rows alone.\<close>

definition scripts_ok :: "string list \<Rightarrow> (string \<Rightarrow> int list option \<Rightarrow> int list option) \<Rightarrow> bool" where
  "scripts_ok ss sv \<longleftrightarrow>
     (ss \<noteq> [] \<longrightarrow> sv (ss ! 0) None = Some []) \<and>
     (\<forall>i < length ss. 0 < i \<longrightarrow> (\<forall>v. sv (ss ! i) (Some v) = Some v)) \<and> int (length ss) < 2 ^ 62"

text \<open>\<open>ss\<close> are the scripts the assets stand for; an asset may still fail to load or to expand.\<close>

definition assets_ok :: "pkg_errors \<Rightarrow> template_engine \<Rightarrow> migrate_data \<Rightarrow> string list \<Rightarrow> bool" where
  "assets_ok P T md ss \<longleftrightarrow>
     length (AssetNameWithArgs md) = length ss \<and>
     (\<forall>i < length ss. \<exists>name args. AssetNameWithArgs md ! i = name # args \<and>
        (\<forall>s. script_text P T (Asset md) name args = Inr s \<longrightarrow> s = ss ! i))"

subsection \<open>Correctness of one iteration\<close>

declare Sprintf.simps [simp del]

lemma int64_inc_small: "- 1 \<le> n \<Longrightarrow> n < 2 ^ 62 \<Longrightarrow> int64_inc n = n + 1"
  by (simp add: int64_inc_def signed_take_bit_int_eq_self)

lemma advance_refl: "advance ss d d"
  by (simp add: advance_def)

lemma advance_trans: "advance ss d1 d2 \<Longrightarrow> advance ss d2 d3 \<Longrightarrow> advance ss d1 d3"
  by (auto simp: advance_def)

lemma Max_versions: "0 < k \<Longrightarrow> Max (set (map int [0..<k])) = int k - 1"
proof (rule Max_eqI)
  assume k: "0 < k"
  then have "k - 1 \<in> {0..<k}" by simp
  then have "int (k - 1) \<in> int ` {0..<k}" by (rule imageI)
  with k show "int k - 1 \<in> set (map int [0..<k])" by (simp add: of_nat_diff)
qed auto

lemma script_text_error: "pkg_errors_ok P \<Longrightarrow> script_text P T asset name args = Inl e \<Longrightarrow> e \<noteq> None"
  by (auto simp: script_text_def Wrapf_not_nil split: sum.splits if_splits option.splits)

lemma getMigrations_loop_eq:
  "\<forall>entry \<in> set entries. entry \<noteq> [] \<Longrightarrow>
   getMigrations_loop P T D asset m entries =
     Ret (m @ map (\<lambda>entry. [executeSQLFile P T D asset (hd entry) (tl entry)]) entries)"
  by (induction P T D asset m entries rule: getMigrations_loop.induct) auto

lemma getMigrations_loop_Ret:
  "getMigrations_loop P T D asset m entries = Ret m' \<Longrightarrow>
     m' = m @ map (\<lambda>entry. [executeSQLFile P T D asset (hd entry) (tl entry)]) entries"
  by (induction P T D asset m entries rule: getMigrations_loop.induct) auto

lemma getMigrations_eq:
  assumes "assets_ok P T md ss"
  shows "getMigrations P T D md =
    Ret (map (\<lambda>entry. [executeSQLFile P T D (Asset md) (hd entry) (tl entry)]) (AssetNameWithArgs md))"
proof -
  have "\<forall>entry \<in> set (AssetNameWithArgs md). entry \<noteq> []"
    using assms unfolding assets_ok_def by (metis in_set_conv_nth list.distinct(1))
  then show ?thesis by (simp add: getMigrations_def getMigrations_loop_eq)
qed

lemma table_exists:
  assumes "driver_ok D database committed current ss sv" and "sql_QueryBool D sql_exists [VString database] w = (r, w')"
  shows "committed w' = committed w" and "r = Inr b \<Longrightarrow> b = (versions (current w) \<noteq> None) \<and> current w' = current w"
  using assms unfolding driver_ok_def exists_ok_def by blast+

text \<open>The version the transaction reads is one below its level.\<close>

lemma getCurrentVersion_level:
  assumes D: "driver_ok D database committed current ss sv" and c: "consistent ss (current w)"
    and r: "getCurrentVersion P D database w = (r, w')"
  shows "committed w' = committed w \<and>
    (\<forall>n. r = Inr n \<longrightarrow> current w' = current w \<and> n = int (level (current w)) - 1)"
proof -
  obtain rb w1 where q1: "sql_QueryBool D sql_exists [VString database] w = (rb, w1)" by fastforce
  note 1 = table_exists [OF D q1]
  obtain ri w2 where q2: "sql_QueryInt D sql_max [] w1 = (ri, w2)" by fastforce
  with D have 2: "committed w2 = committed w1"
    "\<And>n. ri = Inr n \<Longrightarrow> current w2 = current w1 \<and>
       (\<exists>vs. versions (current w1) = Some vs \<and> vs \<noteq> [] \<and> n = Max (set vs))"
    by (auto simp: driver_ok_def max_ok_def)
  have lv: "versions (current w) = None \<Longrightarrow> level (current w) = 0" by (simp add: level_def)
  have mx: "n = int (level (current w)) - 1"
    if "versions (current w) = Some vs" "n = Max (set vs)" "vs \<noteq> []" for n vs
    using that c Max_versions [of "level (current w)"]
    by (auto simp: consistent_def split: if_splits)
  show ?thesis
    using r q1 q2 1 2 lv mx
    by (cases rb; cases ri) (auto simp: getCurrentVersion_def split: if_splits)
qed

text \<open>
  A server that serves every legal request, each script on the database the previous ones left included, and assets that load and expand: under those \<open>Migrate\<close>
  has no reason to fail.
\<close>

definition reliable :: "'w sql_driver \<Rightarrow> ('w \<Rightarrow> vdb) \<Rightarrow> string list \<Rightarrow> bool" where
  "reliable D current ss \<longleftrightarrow>
     (\<forall>w. fst (sql_Begin D w) = None \<and> fst (sql_Commit D w) = None \<and>
          fst (sql_Exec D sql_lock [VInt advisoryLockID] w) = None) \<and>
     (\<forall>w c. \<exists>b. fst (sql_QueryBool D sql_exists [VString c] w) = Inr b) \<and>
     (\<forall>w vs. versions (current w) = Some vs \<and> vs \<noteq> [] \<longrightarrow> (\<exists>n. fst (sql_QueryInt D sql_max [] w) = Inr n)) \<and>
     (\<forall>w v. versions (current w) \<noteq> None \<longrightarrow> fst (sql_Exec D sql_insert [VInt v] w) = None) \<and>
     (\<forall>w. consistent ss (current w) \<and> level (current w) < length ss \<longrightarrow>
        fst (sql_Exec D (ss ! level (current w)) [] w) = None)"

definition assets_load :: "pkg_errors \<Rightarrow> template_engine \<Rightarrow> migrate_data \<Rightarrow> bool" where
  "assets_load P T md \<longleftrightarrow>
     (\<forall>entry \<in> set (AssetNameWithArgs md). \<exists>s. script_text P T (Asset md) (hd entry) (tl entry) = Inr s)"

lemma getCurrentVersion_reliable:
  assumes D: "driver_ok D database committed current ss sv" and R: "reliable D current ss"
    and c: "consistent ss (current w)"
  shows "\<exists>n. fst (getCurrentVersion P D database w) = Inr n"
proof -
  obtain rb w1 where q1: "sql_QueryBool D sql_exists [VString database] w = (rb, w1)" by fastforce
  from R obtain b where b: "rb = Inr b" using q1 unfolding reliable_def by (metis fst_conv)
  with table_exists(2) [OF D q1] have b': "b = (versions (current w) \<noteq> None)" and cur: "current w1 = current w" by auto
  show ?thesis
  proof (cases "versions (current w)")
    case None
    with q1 b b' show ?thesis by (simp add: getCurrentVersion_def)
  next
    case (Some vs)
    with c have "vs \<noteq> []" by (auto simp: consistent_def level_def split: if_splits)
    with Some cur R obtain n where "fst (sql_QueryInt D sql_max [] w1) = Inr n"
      unfolding reliable_def by metis
    with q1 b b' Some show ?thesis
      by (cases "sql_QueryInt D sql_max [] w1") (simp add: getCurrentVersion_def)
  qed
qed

lemma executeSQLFile_reliable:
  assumes P: "pkg_errors_ok P" and R: "reliable D current ss"
    and c: "consistent ss (current w)" "level (current w) < length ss"
    and s: "script_text P T asset name args = Inr (ss ! level (current w))"
  shows "fst (executeSQLFile P T D asset name args w) = None"
proof -
  let ?s = "ss ! level (current w)"
  have "fst (sql_Exec D ?s [] w) = None" using R c by (simp add: reliable_def)
  with s WithStack_nil [OF P] show ?thesis
    by (cases "sql_Exec D ?s [] w") (simp add: executeSQLFile_def)
qed

lemma next_script_keeps_table:
  assumes "consistent ss d" and "level d < length ss" and "scripts_ok ss sv"
  shows "\<exists>vs. sv (ss ! level d) (versions d) = Some vs"
  using assms by (cases "level d = 0") (auto simp: consistent_def scripts_ok_def)

text \<open>
  Running one asset under the lock: an error leaves what is committed alone; success executes the
  script, which the transaction sees.
\<close>

lemma executeSQLFile_effect:
  assumes P: "pkg_errors_ok P" and D: "driver_ok D database committed current ss sv"
    and ss: "\<And>s. script_text P T asset name args = Inr s \<Longrightarrow> s \<in> set ss"
    and r: "executeSQLFile P T D asset name args w = (e, w')"
  shows "committed w' = committed w \<and>
    (e = None \<longrightarrow> (\<exists>s. script_text P T asset name args = Inr s \<and>
       current w' = \<lparr>versions = sv s (versions (current w)), history = history (current w) @ [s]\<rparr>))"
proof (cases "script_text P T asset name args")
  case (Inl err)
  with r script_text_error [OF P] show ?thesis by (auto simp: executeSQLFile_def)
next
  case (Inr s)
  obtain e1 w1 where x: "sql_Exec D s [] w = (e1, w1)" by fastforce
  with r Inr have "e = errs_WithStack P e1" "w' = w1" by (simp_all add: executeSQLFile_def)
  with x Inr D ss [OF Inr] WithStack_nil_iff [OF P, of e1] show ?thesis
    by (auto simp: driver_ok_def script_ok_def)
qed

text \<open>Applying the next version brings the transaction's view up by one level.\<close>

lemma consistent_step:
  assumes c: "consistent ss d" and k: "level d < length ss" and sc: "scripts_ok ss sv"
    and vs: "sv (ss ! level d) (versions d) = Some vs"
  shows "consistent ss \<lparr>versions = Some (vs @ [int (level d)]), history = history d @ [ss ! level d]\<rparr> \<and>
    level \<lparr>versions = Some (vs @ [int (level d)]), history = history d @ [ss ! level d]\<rparr> = Suc (level d)"
proof -
  have "vs = map int [0..<level d]"
  proof (cases "level d = 0")
    case True
    with c k sc vs show ?thesis by (auto simp: consistent_def scripts_ok_def)
  next
    case False
    with c k sc vs show ?thesis by (auto simp: consistent_def scripts_ok_def)
  qed
  with c k show ?thesis by (simp add: consistent_def level_def [of "_\<lparr>versions := _\<rparr>"] level_def [of "\<lparr>versions = _, history = _\<rparr>"] take_Suc_conv_app_nth)
qed

definition migration_list :: "pkg_errors \<Rightarrow> template_engine \<Rightarrow> 'w sql_driver \<Rightarrow> migrate_data \<Rightarrow> 'w migrations" where
  "migration_list P T D md =
     map (\<lambda>entry. [executeSQLFile P T D (Asset md) (hd entry) (tl entry)]) (AssetNameWithArgs md)"

text \<open>The part of a transaction after the version is read: the script and the insertion of its version.\<close>

lemma next_version_effect:
  assumes P: "pkg_errors_ok P" and D: "driver_ok D database committed current ss sv"
    and sc: "scripts_ok ss sv" and md: "assets_ok P T md ss" and c: "consistent ss (current w)" and k: "level (current w) < length ss"
  shows "\<exists>e3 w3 e4 w4. run_steps P (int (level (current w))) 0 (migration_list P T D md ! level (current w)) w = (e3, w3) \<and>
    sql_Exec D sql_insert [VInt (int (level (current w)))] w3 = (e4, w4) \<and>
    committed w3 = committed w \<and> committed w4 = committed w \<and>
    (e3 = None \<and> e4 = None \<longrightarrow> consistent ss (current w4) \<and> level (current w4) = Suc (level (current w))) \<and>
    (reliable D current ss \<and> assets_load P T md \<longrightarrow> e3 = None \<and> e4 = None)"
proof -
  define k where "k = level (current w)"
  have k': "k < length ss" using assms(6) by (simp add: k_def)
  then obtain name args where entry: "AssetNameWithArgs md ! k = name # args"
    and stext: "\<And>s. script_text P T (Asset md) name args = Inr s \<Longrightarrow> s = ss ! k"
    using md unfolding assets_ok_def by blast
  have mk: "migration_list P T D md ! k = [executeSQLFile P T D (Asset md) name args]"
    using k' entry md by (simp add: migration_list_def assets_ok_def)
  obtain e3 w3 where run: "executeSQLFile P T D (Asset md) name args w = (e3, w3)" by fastforce
  have "\<And>s. script_text P T (Asset md) name args = Inr s \<Longrightarrow> s \<in> set ss" using stext k' by auto
  from executeSQLFile_effect [OF P D this run] have co3: "committed w3 = committed w"
    and cur3: "e3 = None \<Longrightarrow> current w3 =
      \<lparr>versions = sv (ss ! k) (versions (current w)), history = history (current w) @ [ss ! k]\<rparr>"
    using stext by auto
  obtain e4 w4 where ins: "sql_Exec D sql_insert [VInt (int k)] w3 = (e4, w4)" by fastforce
  with D have co4: "committed w4 = committed w3"
    and cur4: "e4 = None \<Longrightarrow> \<exists>vs. versions (current w3) = Some vs \<and>
       current w4 = (current w3)\<lparr>versions := Some (vs @ [int k])\<rparr>"
    by (auto simp: driver_ok_def insert_ok_def)
  have done4: "consistent ss (current w4) \<and> level (current w4) = Suc k" if "e3 = None" "e4 = None"
    using cur4 [OF that(2)] cur3 [OF that(1)] consistent_step [OF c _ sc] k' by (auto simp: k_def)
  have rel: "e3 = None \<and> e4 = None" if "reliable D current ss" "assets_load P T md"
  proof -
    have "name # args \<in> set (AssetNameWithArgs md)"
      using k' entry md unfolding assets_ok_def by (metis nth_mem)
    with that(2) obtain s where "script_text P T (Asset md) name args = Inr s"
      unfolding assets_load_def by fastforce
    with stext have "script_text P T (Asset md) name args = Inr (ss ! level (current w))" by (auto simp: k_def)
    with executeSQLFile_reliable [OF P that(1) c assms(6), of T "Asset md" name args] run have e3: "e3 = None" by simp
    with cur3 next_script_keeps_table [OF c _ sc] k' have "versions (current w3) \<noteq> None" by (auto simp: k_def)
    with that(1) ins have "e4 = None" unfolding reliable_def by (metis fst_conv)
    with e3 show ?thesis by simp
  qed
  obtain e3' where "run_steps P (int k) 0 (migration_list P T D md ! k) w = (e3', w3)" "e3' = None \<longleftrightarrow> e3 = None"
    using run by (cases e3) (simp_all add: mk)
  with ins co3 co4 done4 rel show ?thesis unfolding k_def
    by (intro exI [of _ e3'] exI [of _ w3] exI [of _ e4] exI [of _ w4]) auto
qed

lemma migrateToNextVersion_known:
  assumes P: "pkg_errors_ok P" and D: "driver_ok D database committed current ss sv"
    and sc: "scripts_ok ss sv" and md: "assets_ok P T md ss"
    and lock: "sql_Exec D sql_lock [VInt advisoryLockID] w = (None, w1)"
    and a1: "advance ss (committed w) (committed w1)" and c1: "consistent ss (current w1)" and eq1: "current w1 = committed w1"
    and gcv: "getCurrentVersion P D database w1 = (Inr n, w2)"
  shows "\<exists>e i' w'. migrateToNextVersion P D i (migration_list P T D md) database w = Ret (e, i', w') \<and>
    advance ss (committed w) (committed w') \<and>
    (e = None \<longrightarrow> (\<exists>k. i' = int k \<and> level (committed w') \<le> k \<and> k \<le> length ss \<and>
       consistent ss (current w') \<and> level (current w') = (if k < length ss then Suc k else k))) \<and>
    (reliable D current ss \<and> assets_load P T md \<longrightarrow> e = None)"
proof -
  have len: "length (migration_list P T D md) = length ss" using md by (simp add: migration_list_def assets_ok_def)
  from getCurrentVersion_level [OF D c1 gcv] have co2: "committed w2 = committed w1"
    and cur2: "current w2 = current w1" and n: "n = int (level (current w1)) - 1" by auto
  have c2: "consistent ss (current w2)" and le2: "level (current w2) \<le> length ss"
    using c1 by (simp_all add: cur2 consistent_def)
  have nxt: "int64_inc n = int (level (current w2))"
    using n cur2 le2 sc by (subst int64_inc_small) (auto simp: scripts_ok_def)
  note start = lock gcv nxt len a1 co2 eq1 cur2
  show ?thesis
  proof (cases "level (current w2) < length ss")
    case False
    with le2 have "level (current w2) = length ss" by simp
    then show ?thesis using start c1 by (fastforce simp: migrateToNextVersion_def Let_def)
  next
    case True
    from next_version_effect [OF P D sc md c2 True] start True show ?thesis
      by (elim exE conjE) (auto simp: migrateToNextVersion_def Let_def split: option.split)
  qed
qed

lemma migrateToNextVersion_effect:
  assumes P: "pkg_errors_ok P" and D: "driver_ok D database committed current ss sv"
    and sc: "scripts_ok ss sv" and md: "assets_ok P T md ss" and c: "consistent ss (committed w)"
  shows "\<exists>e i' w'. migrateToNextVersion P D i (migration_list P T D md) database w = Ret (e, i', w') \<and>
    advance ss (committed w) (committed w') \<and>
    (e = None \<longrightarrow> (\<exists>k. i' = int k \<and> level (committed w') \<le> k \<and> k \<le> length ss \<and>
       consistent ss (current w') \<and> level (current w') = (if k < length ss then Suc k else k))) \<and>
    (reliable D current ss \<and> assets_load P T md \<longrightarrow> e = None)"
proof -
  obtain e1 w1 where lock: "sql_Exec D sql_lock [VInt advisoryLockID] w = (e1, w1)" by fastforce
  with D have a1: "advance ss (committed w) (committed w1)" and cur1: "e1 = None \<Longrightarrow> current w1 = committed w1"
    by (auto simp: driver_ok_def lock_ok_def)
  show ?thesis
  proof (cases e1)
    case (Some err)
    moreover from lock Some have "\<not> reliable D current ss"
      unfolding reliable_def by (metis fst_conv option.distinct(1))
    ultimately show ?thesis using lock a1 Wrapf_not_nil [OF P, of err]
      by (fastforce simp: migrateToNextVersion_def)
  next
    case None
    with cur1 a1 c have c1: "consistent ss (current w1)" and eq1: "current w1 = committed w1"
      by (auto simp: advance_def)
    obtain r w2 where gcv: "getCurrentVersion P D database w1 = (r, w2)" by fastforce
    from getCurrentVersion_level [OF D c1 gcv] have co2: "committed w2 = committed w1" by simp
    show ?thesis
    proof (cases r)
      case (Inl err)
      moreover have "\<not> reliable D current ss"
        using getCurrentVersion_reliable [OF D _ c1, of P] gcv Inl by auto
      ultimately show ?thesis using lock None gcv a1 co2 WithStack_not_nil [OF P, of err]
        by (fastforce simp: migrateToNextVersion_def)
    next
      case (Inr n)
      from migrateToNextVersion_known [OF P D sc md _ a1 c1 eq1] lock None gcv Inr show ?thesis by blast
    qed
  qed
qed

text \<open>The end of a transaction that applied a version.\<close>

lemma commit_effect:
  assumes D: "driver_ok D database committed current ss sv" and c: "consistent ss (committed w)"
    and a2: "advance ss (committed w) (committed w2)" and k: "level (committed w2) \<le> k"
    and cur: "consistent ss (current w2)" "level (current w2) = (if k < length ss then Suc k else k)"
    and cm: "sql_Commit D w2 = (e, w3)"
  shows "advance ss (committed w) (committed w3)"
    and "e = None \<Longrightarrow> consistent ss (committed w3) \<and> level (current w2) \<le> level (committed w3)"
    and "reliable D current ss \<Longrightarrow> e = None"
proof -
  have cmt: "advance ss (current w2) (committed w3) \<or> e \<noteq> None \<and> advance ss (committed w2) (committed w3)"
    using D cm by (auto simp: driver_ok_def commit_ok_def)
  have "advance ss (committed w) (current w2)"
    using a2 c k cur by (auto simp: advance_def split: if_splits)
  with cmt a2 show "advance ss (committed w) (committed w3)" by (blast intro: advance_trans)
  show "e = None \<Longrightarrow> consistent ss (committed w3) \<and> level (current w2) \<le> level (committed w3)"
    using cmt cur by (auto simp: advance_def)
  show "reliable D current ss \<Longrightarrow> e = None" using cm unfolding reliable_def by (metis fst_conv)
qed

lemma migrate_iteration_commits:
  assumes D: "driver_ok D database committed current ss sv" and c: "consistent ss (committed w)"
    and b: "sql_Begin D w = (None, w1)" and step: "migrateToNextVersion P D i m database w1 = Ret (None, int k, w2)"
    and a12: "advance ss (committed w) (committed w2)" and k: "level (committed w2) \<le> k" "k \<le> length ss"
    and cur: "consistent ss (current w2)" "level (current w2) = (if k < length ss then Suc k else k)"
  shows "(\<exists>err w'. migrate_iteration P D m database i w = Ret (Inl (Some err, w')) \<and>
            advance ss (committed w) (committed w') \<and> \<not> reliable D current ss) \<or>
         (\<exists>w'. migrate_iteration P D m database i w = Ret (Inr (int k, w')) \<and>
            consistent ss (committed w') \<and> level (committed w) \<le> k \<and> k \<le> length ss \<and>
            (if k < length ss then Suc k else k) \<le> level (committed w'))"
proof -
  have lower: "level (committed w) \<le> k" using a12 c k(1) by (simp add: advance_def)
  obtain e3 w3 where cm: "sql_Commit D w2 = (e3, w3)" by fastforce
  note commit = commit_effect [OF D c a12 k(1) cur cm]
  show ?thesis
  proof (cases e3)
    case (Some cerr)
    then have "\<exists>err. migrate_iteration P D m database i w = Ret (Inl (Some err, w3))"
      using b step cm by (simp add: migrate_iteration_def)
    with commit(1,3) Some show ?thesis by blast
  next
    case None
    then have "migrate_iteration P D m database i w = Ret (Inr (int k, w3))"
      using b step cm by (simp add: migrate_iteration_def)
    with commit(2) [OF None] show ?thesis using k(2) lower cur(2) by (intro disjI2 exI [of _ w3]) simp
  qed
qed

lemma migrate_iteration_effect:
  assumes P: "pkg_errors_ok P" and D: "driver_ok D database committed current ss sv"
    and sc: "scripts_ok ss sv" and md: "assets_ok P T md ss" and c: "consistent ss (committed w)"
  shows "(\<exists>err w'. migrate_iteration P D (migration_list P T D md) database i w = Ret (Inl (Some err, w')) \<and>
            advance ss (committed w) (committed w') \<and> \<not> (reliable D current ss \<and> assets_load P T md)) \<or>
         (\<exists>k w'. migrate_iteration P D (migration_list P T D md) database i w = Ret (Inr (int k, w')) \<and>
            consistent ss (committed w') \<and> level (committed w) \<le> k \<and> k \<le> length ss \<and>
            (if k < length ss then Suc k else k) \<le> level (committed w'))"
proof -
  obtain e1 w1 where b: "sql_Begin D w = (e1, w1)" by fastforce
  with D have a1: "advance ss (committed w) (committed w1)" by (auto simp: driver_ok_def begin_ok_def)
  with c have c1: "consistent ss (committed w1)" by (simp add: advance_def)
  show ?thesis
  proof (cases e1)
    case (Some err)
    moreover from b Some have "\<not> reliable D current ss"
      unfolding reliable_def by (metis fst_conv option.distinct(1))
    ultimately show ?thesis using b a1 by (auto simp: migrate_iteration_def)
  next
    case None
    from migrateToNextVersion_effect [OF P D sc md c1] obtain e i' w2
      where step: "migrateToNextVersion P D i (migration_list P T D md) database w1 = Ret (e, i', w2)"
        and a2: "advance ss (committed w1) (committed w2)"
        and good: "e = None \<Longrightarrow> \<exists>k. i' = int k \<and> level (committed w2) \<le> k \<and> k \<le> length ss \<and>
             consistent ss (current w2) \<and> level (current w2) = (if k < length ss then Suc k else k)"
        and rel: "reliable D current ss \<and> assets_load P T md \<Longrightarrow> e = None"
      by blast
    have a12: "advance ss (committed w) (committed w2)" using a1 a2 by (rule advance_trans)
    show ?thesis
    proof (cases e)
      case (Some old)
      obtain e3 w3 where rb: "sql_Rollback D w2 = (e3, w3)" by fastforce
      with D have "advance ss (committed w2) (committed w3)" by (auto simp: driver_ok_def rollback_ok_def)
      with a12 have "advance ss (committed w) (committed w3)" by (rule advance_trans)
      moreover have "\<not> (reliable D current ss \<and> assets_load P T md)" using rel Some by blast
      moreover have "\<exists>err. migrate_iteration P D (migration_list P T D md) database i w = Ret (Inl (Some err, w3))"
        using b None step Some rb by (cases e3) (simp_all add: migrate_iteration_def)
      ultimately show ?thesis by blast
    next
      case none: None
      from good [OF none] obtain k where "i' = int k" "level (committed w2) \<le> k" "k \<le> length ss"
          "consistent ss (current w2)" "level (current w2) = (if k < length ss then Suc k else k)" by blast
      from migrate_iteration_commits [OF D c b [unfolded None] step [unfolded none this(1)] a12 this(2-5)]
      show ?thesis by blast
    qed
  qed
qed

subsection \<open>Correctness of \<open>Migrate\<close>\<close>

text \<open>The loop: the levels still missing are the measure, whatever other instances do meanwhile.\<close>

text \<open>What one committed iteration brings: the next number, and one migration less to do.\<close>

lemma iteration_progress:
  assumes sc: "scripts_ok ss sv" and c': "consistent ss d'" and lo: "level d \<le> k" and hi: "k \<le> length ss"
    and lv: "(if k < length ss then Suc k else k) \<le> level d'"
  shows "int64_inc (int k) = int k + 1"
    and "int (length ss) \<le> int k + 1 \<Longrightarrow> level d' = length ss"
    and "advance ss d d'"
    and "k < length ss \<Longrightarrow> length ss - level d' < length ss - level d"
proof -
  show "int64_inc (int k) = int k + 1" using hi sc by (intro int64_inc_small) (auto simp: scripts_ok_def)
  have "level d' \<le> length ss" using c' by (simp add: consistent_def)
  then show "int (length ss) \<le> int k + 1 \<Longrightarrow> level d' = length ss" using hi lv by (auto split: if_splits)
  show "advance ss d d'" using lo lv c' by (auto simp: advance_def split: if_splits)
  show "k < length ss \<Longrightarrow> length ss - level d' < length ss - level d" using lo lv by simp
qed

lemma migrate_loop_effect:
  assumes P: "pkg_errors_ok P" and D: "driver_ok D database committed current ss sv"
    and sc: "scripts_ok ss sv" and md: "assets_ok P T md ss"
    and "consistent ss (committed w)" and "int (length ss) \<le> i \<Longrightarrow> level (committed w) = length ss"
  shows "\<exists>err w'. migrate_loop P D (migration_list P T D md) database i w = Some (Ret (err, w')) \<and>
           advance ss (committed w) (committed w') \<and> (err = None \<longrightarrow> level (committed w') = length ss) \<and>
           (reliable D current ss \<and> assets_load P T md \<longrightarrow> err = None)"
  using assms(5,6)
proof (induction "length ss - level (committed w)" arbitrary: i w rule: less_induct)
  case less
  let ?m = "migration_list P T D md"
  have len: "length ?m = length ss" using md by (simp add: migration_list_def assets_ok_def)
  show ?case
  proof (cases "i < int (length ss)")
    case False
    with less.prems len show ?thesis by (subst migrate_loop.simps) (simp add: advance_refl)
  next
    case True
    from migrate_iteration_effect [OF P D sc md less.prems(1), of i] show ?thesis
    proof (elim disjE exE conjE)
      fix err w'
      assume "migrate_iteration P D ?m database i w = Ret (Inl (Some err, w'))"
        and "advance ss (committed w) (committed w')"
        and "\<not> (reliable D current ss \<and> assets_load P T md)"
      with True len show ?thesis by (subst migrate_loop.simps) simp
    next
      fix k w'
      assume it: "migrate_iteration P D ?m database i w = Ret (Inr (int k, w'))"
        and c': "consistent ss (committed w')" and lo: "level (committed w) \<le> k" and hi: "k \<le> length ss"
        and lv: "(if k < length ss then Suc k else k) \<le> level (committed w')"
      note progress = iteration_progress [OF sc c' lo hi lv]
      have unf: "migrate_loop P D ?m database i w = migrate_loop P D ?m database (int k + 1) w'"
        using True len it progress(1) by (subst migrate_loop.simps) simp
      show ?thesis
      proof (cases "k < length ss")
        case True
        from less.hyps [OF progress(4) [OF this] c' progress(2), of "int k + 1"] obtain err w''
          where rec: "migrate_loop P D ?m database (int k + 1) w' = Some (Ret (err, w''))"
            and adv': "advance ss (committed w') (committed w'')"
            and fin: "err = None \<longrightarrow> level (committed w'') = length ss"
              "reliable D current ss \<and> assets_load P T md \<longrightarrow> err = None" by blast
        from rec unf have "migrate_loop P D ?m database i w = Some (Ret (err, w''))" by (rule trans [rotated])
        with advance_trans [OF progress(3) adv'] fin show ?thesis by blast
      next
        case False
        with hi have "k = length ss" by simp
        with len have "migrate_loop P D ?m database (int k + 1) w' = Some (Ret (None, w'))"
          by (subst migrate_loop.simps) simp
        with progress(2,3) unf \<open>k = length ss\<close> show ?thesis by simp
      qed
    qed
  qed
qed

lemma Migrate_effect:
  assumes "pkg_errors_ok P" and "driver_ok D database committed current ss sv"
    and "scripts_ok ss sv" and "assets_ok P T md ss" and "consistent ss (committed w)"
  shows "\<exists>err w'. Migrate P T (Some D) database md w = Some (Ret (err, w')) \<and>
           advance ss (committed w) (committed w') \<and> (err = None \<longrightarrow> level (committed w') = length ss) \<and>
           (reliable D current ss \<and> assets_load P T md \<longrightarrow> err = None)"
proof -
  have "int (length ss) \<le> 0 \<Longrightarrow> level (committed w) = length ss"
    using assms(5) by (simp add: consistent_def)
  from migrate_loop_effect [OF assms, of 0] this show ?thesis
    by (simp add: Migrate_def getMigrations_eq [OF assms(4)] migration_list_def)
qed

subsection \<open>An in-memory database, for evaluating concrete runs\<close>

definition create_version_table :: "string \<Rightarrow> int list option \<Rightarrow> int list option" where
  "create_version_table s v = (case v of None \<Rightarrow> Some [] | Some vs \<Rightarrow> Some vs)"

definition mem_Exec :: "string \<Rightarrow> gval list \<Rightarrow> vdb \<times> vdb \<Rightarrow> goerror option \<times> (vdb \<times> vdb)" where
  "mem_Exec q args w =
     (case w of (com, cur) \<Rightarrow>
       (case args of
          [] \<Rightarrow> (None, (com, \<lparr>versions = create_version_table q (versions cur), history = history cur @ [q]\<rparr>))
        | a # _ \<Rightarrow>
            if q = sql_lock then (None, (com, com))
            else (case (a, versions cur) of
                    (VInt v, Some vs) \<Rightarrow> (None, (com, cur\<lparr>versions := Some (vs @ [v])\<rparr>))
                  | _ \<Rightarrow> (Some (std_errors_New ''no such table''), (com, cur)))))"

definition mem_driver :: "(vdb \<times> vdb) sql_driver" where
  "mem_driver =
     \<lparr>sql_Begin = (\<lambda>(com, cur). (None, (com, com))),
      sql_Exec = mem_Exec,
      sql_QueryBool = (\<lambda>q args (com, cur). (Inr (args = [VString ''db''] \<and> versions cur \<noteq> None), (com, cur))),
      sql_QueryInt = (\<lambda>q args (com, cur).
         (case versions cur of
            None \<Rightarrow> (Inl (std_errors_New ''no such table''), (com, cur))
          | Some [] \<Rightarrow> (Inl (std_errors_New ''converting NULL to int64''), (com, cur))
          | Some vs \<Rightarrow> (Inr (Max (set vs)), (com, cur)))),
      sql_Commit = (\<lambda>(com, cur). (None, (cur, cur))),
      sql_Rollback = (\<lambda>(com, cur). (None, (com, com)))\<rparr>"

lemma sql_texts_differ: "sql_insert \<noteq> sql_lock"
  by (simp add: sql_insert_def sql_lock_def)

lemma mem_driver_ok: "driver_ok mem_driver ''db'' fst snd ss create_version_table"
  unfolding driver_ok_def
proof (intro conjI)
  show "begin_ok mem_driver fst ss" "rollback_ok mem_driver fst ss" "commit_ok mem_driver fst snd ss"
    by (auto simp: begin_ok_def rollback_ok_def commit_ok_def mem_driver_def advance_refl)
  show "lock_ok mem_driver fst snd ss"
    by (auto simp: lock_ok_def mem_driver_def mem_Exec_def advance_refl)
  show "exists_ok mem_driver ''db'' fst snd" by (auto simp: exists_ok_def mem_driver_def)
  show "max_ok mem_driver fst snd"
    by (auto simp: max_ok_def mem_driver_def split: option.splits list.splits)
  show "insert_ok mem_driver fst snd"
    by (auto simp: insert_ok_def mem_driver_def mem_Exec_def sql_texts_differ split: option.splits)
  show "script_ok mem_driver fst snd ss create_version_table"
    by (auto simp: script_ok_def mem_driver_def mem_Exec_def)
qed

definition ex_scripts :: "string list" where
  "ex_scripts = [''CREATE TABLE version (version int)'', ''CREATE TABLE users (id int)'']"

definition ex_assets :: migrate_data where
  "ex_assets = \<lparr>AssetNameWithArgs = [[''0.sql''], [''1.sql'']],
     Asset = (\<lambda>name. if name = ''0.sql'' then Inr (ex_scripts ! 0) else Inr (ex_scripts ! 1))\<rparr>"

definition ex_templates :: template_engine where
  "ex_templates = \<lparr>tmpl_Parse = (\<lambda>s. None), tmpl_Execute = (\<lambda>s args. Inr s)\<rparr>"

definition ex_fresh :: "vdb \<times> vdb" where
  "ex_fresh = (\<lparr>versions = None, history = []\<rparr>, \<lparr>versions = None, history = []\<rparr>)"

lemma ex_assets_ok: "assets_ok documented_errs ex_templates ex_assets ex_scripts"
  unfolding assets_ok_def
  by (auto simp: ex_assets_def ex_scripts_def script_text_def less_Suc_eq numeral_2_eq_2)

lemma ex_scripts_ok: "scripts_ok ex_scripts create_version_table"
  by (simp add: scripts_ok_def ex_scripts_def create_version_table_def)

lemma ex_fresh_consistent: "consistent ex_scripts (fst ex_fresh)"
  by (simp add: consistent_def level_def ex_fresh_def)

lemma mem_driver_reliable: "reliable mem_driver snd ss"
  unfolding reliable_def
proof (intro conjI allI impI)
  fix w :: "vdb \<times> vdb" and c :: string and v :: int and vs :: "int list"
  show "fst (sql_Begin mem_driver w) = None" "fst (sql_Commit mem_driver w) = None"
    "fst (sql_Exec mem_driver sql_lock [VInt advisoryLockID] w) = None"
    by (cases w; simp add: mem_driver_def mem_Exec_def)+
  show "\<exists>b. fst (sql_QueryBool mem_driver sql_exists [VString c] w) = Inr b"
    by (cases w) (simp add: mem_driver_def)
  show "fst (sql_Exec mem_driver (ss ! level (snd w)) [] w) = None" by (cases w) (simp add: mem_driver_def mem_Exec_def)
  show "fst (sql_Exec mem_driver sql_insert [VInt v] w) = None" if "versions (snd w) \<noteq> None"
    using that by (cases w) (auto simp: mem_driver_def mem_Exec_def sql_texts_differ)
  show "\<exists>n. fst (sql_QueryInt mem_driver sql_max [] w) = Inr n"
    if "versions (snd w) = Some vs \<and> vs \<noteq> []"
    using that by (cases w) (auto simp: mem_driver_def neq_Nil_conv)
qed

lemma ex_assets_load: "assets_load documented_errs ex_templates ex_assets"
  by (simp add: assets_load_def ex_assets_def script_text_def)

lemma ex_run:
  "\<exists>w'. Migrate documented_errs ex_templates (Some mem_driver) ''db'' ex_assets ex_fresh = Some (Ret (None, w'))"
  using Migrate_effect [OF documented_errs_ok mem_driver_ok ex_scripts_ok ex_assets_ok ex_fresh_consistent]
    mem_driver_reliable ex_assets_load by auto

subsection \<open>The calls a run makes\<close>

text \<open>
  A driver that records every call with its error: whatever \<open>Migrate\<close> does to the database can be read
  off the record.
\<close>

datatype sql_call =
    CBegin "goerror option"
  | CExec string "gval list" "goerror option"
  | CQuery string "gval list" "goerror option"
  | CCommit "goerror option"
  | CRollback "goerror option"

definition query_error :: "goerror + 'a \<Rightarrow> goerror option" where
  "query_error r = (case r of Inl e \<Rightarrow> Some e | Inr _ \<Rightarrow> None)"

definition recorded :: "('e \<Rightarrow> sql_call) \<Rightarrow> ('w \<Rightarrow> 'e \<times> 'w) \<Rightarrow> 'w \<times> sql_call list \<Rightarrow> 'e \<times> ('w \<times> sql_call list)" where
  "recorded call f w = (let (e, w') = f (fst w) in (e, (w', snd w @ [call e])))"

definition traced :: "'w sql_driver \<Rightarrow> ('w \<times> sql_call list) sql_driver" where
  "traced D =
     \<lparr>sql_Begin = recorded CBegin (sql_Begin D),
      sql_Exec = (\<lambda>q args. recorded (CExec q args) (sql_Exec D q args)),
      sql_QueryBool = (\<lambda>q args. recorded (\<lambda>r. CQuery q args (query_error r)) (sql_QueryBool D q args)),
      sql_QueryInt = (\<lambda>q args. recorded (\<lambda>r. CQuery q args (query_error r)) (sql_QueryInt D q args)),
      sql_Commit = recorded CCommit (sql_Commit D),
      sql_Rollback = recorded CRollback (sql_Rollback D)\<rparr>"

text \<open>What precedes a version in its transaction: the lock, and the one or two queries for the current version.\<close>

definition locked :: sql_call where
  "locked = CExec sql_lock [VInt advisoryLockID] None"

definition version_read :: "string \<Rightarrow> sql_call list \<Rightarrow> bool" where
  "version_read catalog cs \<longleftrightarrow>
     cs = [locked, CQuery sql_exists [VString catalog] None] \<or>
     cs = [locked, CQuery sql_exists [VString catalog] None, CQuery sql_max [] None]"

definition version_script :: "pkg_errors \<Rightarrow> template_engine \<Rightarrow> migrate_data \<Rightarrow> nat \<Rightarrow> goerror option + string" where
  "version_script P T md v = (let entry = AssetNameWithArgs md ! v in script_text P T (Asset md) (hd entry) (tl entry))"

text \<open>The calls of a transaction that may be committed: nothing to do, or a script and its entry in the version table.\<close>

inductive applied :: "(nat \<Rightarrow> goerror option + string) \<Rightarrow> string \<Rightarrow> sql_call list \<Rightarrow> bool"
  for script :: "nat \<Rightarrow> goerror option + string" and catalog :: string where
  nothing: "version_read catalog cs \<Longrightarrow> applied script catalog cs"
| version: "version_read catalog cs \<Longrightarrow> script v = Inr s \<Longrightarrow>
    applied script catalog (cs @ [CExec s [] None, CExec sql_insert [VInt (int v)] None])"

text \<open>The calls of one that failed, and the error \<open>Migrate\<close> makes of it: no call follows the failing one.\<close>

definition step_error :: "pkg_errors \<Rightarrow> nat \<Rightarrow> goerror \<Rightarrow> goerror" where
  "step_error P v e = errs_New P (Sprintf ''failed to execute migration of step %d of version %d: %s''
     [VInt 0, VInt (int v), err_val e])"

inductive failed :: "pkg_errors \<Rightarrow> (nat \<Rightarrow> goerror option + string) \<Rightarrow> string \<Rightarrow> sql_call list \<Rightarrow> goerror \<Rightarrow> bool"
  for P :: pkg_errors and script :: "nat \<Rightarrow> goerror option + string" and catalog :: string where
  lock: "errs_Wrapf P (Some e) (Sprintf ''failed to acquire lock: %s'' [VInt advisoryLockID]) = Some old \<Longrightarrow>
    failed P script catalog [CExec sql_lock [VInt advisoryLockID] (Some e)] old"
| exists_query: "errs_WithStack P (Some (errs_New P (''failed to scan if table \"version\" exists: '' @ text_of e))) = Some old \<Longrightarrow>
    failed P script catalog [locked, CQuery sql_exists [VString catalog] (Some e)] old"
| max_query: "errs_WithStack P (Some (errs_New P (''failed to scan max version in table \"version\": '' @ text_of e))) = Some old \<Longrightarrow>
    failed P script catalog [locked, CQuery sql_exists [VString catalog] None, CQuery sql_max [] (Some e)] old"
| no_script: "version_read catalog cs \<Longrightarrow> script v = Inl (Some e) \<Longrightarrow>
    failed P script catalog cs (step_error P v e)"
| script: "version_read catalog cs \<Longrightarrow> script v = Inr s \<Longrightarrow> errs_WithStack P (Some e) = Some e' \<Longrightarrow>
    failed P script catalog (cs @ [CExec s [] (Some e)]) (step_error P v e')"
| insert: "version_read catalog cs \<Longrightarrow> script v = Inr s \<Longrightarrow>
    failed P script catalog (cs @ [CExec s [] None, CExec sql_insert [VInt (int v)] (Some e)])
      (errs_New P (Sprintf ''failed to update DB to version %d: %s'' [VInt (int v), err_val e]))"

text \<open>How the calls of a run end when it returns an error: the open transaction is rolled back, unless it was its commit that failed.\<close>

inductive ends :: "pkg_errors \<Rightarrow> (nat \<Rightarrow> goerror option + string) \<Rightarrow> string \<Rightarrow> sql_call list \<Rightarrow> goerror option \<Rightarrow> bool"
  for P :: pkg_errors and script :: "nat \<Rightarrow> goerror option + string" and catalog :: string where
  success: "ends P script catalog [] None"
| no_begin: "ends P script catalog [CBegin (Some e)] (Some (errs_New P (''failed to start transaction: '' @ text_of e)))"
| rolled_back: "failed P script catalog cs old \<Longrightarrow>
    ends P script catalog (CBegin None # cs @ [CRollback None]) (Some old)"
| no_rollback: "failed P script catalog cs old \<Longrightarrow>
    ends P script catalog (CBegin None # cs @ [CRollback (Some e)])
      (Some (errs_New P (''error while rolling back transaction: '' @ text_of e)))"
| no_commit: "applied script catalog cs \<Longrightarrow>
    ends P script catalog (CBegin None # cs @ [CCommit (Some e)])
      (Some (errs_New P (''error during transaction commit: '' @ text_of e)))"

definition committed_calls :: "sql_call list list \<Rightarrow> sql_call list" where
  "committed_calls txs = concat (map (\<lambda>cs. CBegin None # cs @ [CCommit None]) txs)"

lemma traced_simps [simp]:
  "sql_Begin (traced D) (w, cs) = (let (e, w') = sql_Begin D w in (e, (w', cs @ [CBegin e])))"
  "sql_Exec (traced D) q args (w, cs) = (let (e, w') = sql_Exec D q args w in (e, (w', cs @ [CExec q args e])))"
  "sql_QueryBool (traced D) q args (w, cs) = (let (r, w') = sql_QueryBool D q args w in (r, (w', cs @ [CQuery q args (query_error r)])))"
  "sql_QueryInt (traced D) q args (w, cs) = (let (r, w') = sql_QueryInt D q args w in (r, (w', cs @ [CQuery q args (query_error r)])))"
  "sql_Commit (traced D) (w, cs) = (let (e, w') = sql_Commit D w in (e, (w', cs @ [CCommit e])))"
  "sql_Rollback (traced D) (w, cs) = (let (e, w') = sql_Rollback D w in (e, (w', cs @ [CRollback e])))"
  by (simp_all add: traced_def recorded_def split_def)

lemma traced_version:
  assumes "getCurrentVersion P (traced D) catalog (w, cs) = (r, (w', cs'))"
  shows "(\<exists>qs. cs' = cs @ qs \<and> (case r of
      Inr n \<Rightarrow> version_read catalog (locked # qs)
    | Inl err \<Rightarrow> (\<forall>old. errs_WithStack P (Some err) = Some old \<longrightarrow> failed P script catalog (locked # qs) old)))"
  using assms
  by (auto simp: getCurrentVersion_def version_read_def query_error_def err_val_def Sprintf.simps print_arg_def extra_args_def
      split: sum.splits prod.splits if_splits intro: failed.exists_query [simplified] failed.max_query [simplified])

lemma traced_script:
  assumes "pkg_errors_ok P"
    and "run_steps P (int v) 0 [executeSQLFile P T (traced D) asset name args] (w, cs) = (e, (w', cs'))"
  shows "case script_text P T asset name args of
      Inl err \<Rightarrow> \<exists>e'. err = Some e' \<and> cs' = cs \<and> e = Some (step_error P v e')
    | Inr s \<Rightarrow> (\<exists>e0. cs' = cs @ [CExec s [] e0] \<and>
        (case e0 of None \<Rightarrow> e = None | Some e1 \<Rightarrow> \<exists>e'. errs_WithStack P (Some e1) = Some e' \<and> e = Some (step_error P v e')))"
proof (cases "script_text P T asset name args")
  case (Inl err)
  then obtain e' where "err = Some e'" using script_text_error [OF assms(1)] by blast
  with Inl assms(2) show ?thesis by (simp add: executeSQLFile_def step_error_def)
next
  case (Inr s)
  obtain e0 w1 where x: "sql_Exec D s [] w = (e0, w1)" by fastforce
  show ?thesis
  proof (cases e0)
    case None
    with Inr x assms(2) WithStack_nil [OF assms(1)] show ?thesis by (auto simp: executeSQLFile_def)
  next
    case (Some e1)
    then obtain e' where "errs_WithStack P (Some e1) = Some e'" using WithStack_not_nil [OF assms(1)] by blast
    with Some Inr x assms(2) show ?thesis by (auto simp: executeSQLFile_def step_error_def)
  qed
qed

lemma traced_version_step:
  assumes P: "pkg_errors_ok P" and q: "version_read catalog qs" and v: "v < length (AssetNameWithArgs md)"
    and run: "run_steps P (int v) 0 (migration_list P T (traced D) md ! v) (w, cs @ qs) = (e, (w', cs'))"
  shows "case e of Some old \<Rightarrow> (\<exists>tx. cs' = cs @ tx \<and> failed P (version_script P T md) catalog tx old)
    | None \<Rightarrow> (\<exists>s. version_script P T md v = Inr s \<and> cs' = cs @ qs @ [CExec s [] None])"
proof -
  let ?entry = "AssetNameWithArgs md ! v"
  have "migration_list P T (traced D) md ! v = [executeSQLFile P T (traced D) (Asset md) (hd ?entry) (tl ?entry)]"
    using v by (simp add: migration_list_def)
  with run have st: "run_steps P (int v) 0 [executeSQLFile P T (traced D) (Asset md) (hd ?entry) (tl ?entry)] (w, cs @ qs) = (e, (w', cs'))"
    by simp
  have scr: "version_script P T md v = script_text P T (Asset md) (hd ?entry) (tl ?entry)"
    by (simp add: version_script_def Let_def)
  note failed = failed.no_script [OF q, of "version_script P T md" v, unfolded scr]
    failed.script [OF q, of "version_script P T md" v, unfolded scr]
  from traced_script [OF P st] failed show ?thesis
    unfolding scr by (auto split: sum.splits option.splits)
qed

lemma traced_transaction:
  assumes P: "pkg_errors_ok P"
    and run: "migrateToNextVersion P (traced D) i (migration_list P T (traced D) md) catalog (w, cs) = Ret (e, i', (w', cs'))"
  shows "\<exists>tx. cs' = cs @ tx \<and> (case e of None \<Rightarrow> applied (version_script P T md) catalog tx
    | Some old \<Rightarrow> failed P (version_script P T md) catalog tx old)"
proof -
  let ?script = "version_script P T md"
  obtain e1 w1 where lock: "sql_Exec D sql_lock [VInt advisoryLockID] w = (e1, w1)" by fastforce
  show ?thesis
  proof (cases e1)
    case (Some err)
    obtain old where "errs_Wrapf P (Some err) (Sprintf ''failed to acquire lock: %s'' [VInt advisoryLockID]) = Some old"
      using Wrapf_not_nil [OF P] by blast
    with run lock Some show ?thesis
      by (auto simp: migrateToNextVersion_def split: option.split intro: failed.lock)
  next
    case None
    obtain r w2 cs2 where gcv: "getCurrentVersion P (traced D) catalog (w1, cs @ [locked]) = (r, (w2, cs2))"
      by (metis prod_cases3)
    from traced_version [OF this, of ?script] obtain qs where qs: "cs2 = cs @ locked # qs"
      "case r of Inr n \<Rightarrow> version_read catalog (locked # qs)
       | Inl err \<Rightarrow> (\<forall>old. errs_WithStack P (Some err) = Some old \<longrightarrow> failed P ?script catalog (locked # qs) old)" by auto
    note start = run lock None gcv qs locked_def [symmetric]
    show ?thesis
    proof (cases r)
      case (Inl err)
      with start WithStack_not_nil [OF P, of err] show ?thesis
        by (auto simp: migrateToNextVersion_def)
    next
      case (Inr n)
      define v where "v = nat (int64_inc n)"
      from Inr qs(2) have q: "version_read catalog (locked # qs)" by simp
      show ?thesis
      proof (cases "int (length (AssetNameWithArgs md)) \<le> int64_inc n")
        case True
        with start Inr q show ?thesis
          by (auto simp: migrateToNextVersion_def migration_list_def intro: applied.nothing)
      next
        case False
        have pos: "0 \<le> int64_inc n"
        proof (rule ccontr)
          assume "\<not> 0 \<le> int64_inc n"
          with start Inr False show False by (simp add: migrateToNextVersion_def migration_list_def)
        qed
        then have v: "int64_inc n = int v" "v < length (AssetNameWithArgs md)" using False by (simp_all add: v_def)
        obtain e3 w3 cs3 where st: "run_steps P (int v) 0 (migration_list P T (traced D) md ! v) (w2, cs @ locked # qs) = (e3, (w3, cs3))"
          by (metis prod_cases3)
        note step = traced_version_step [OF P q v(2) st]
        obtain e4 w4 where ins: "sql_Exec D sql_insert [VInt (int v)] w3 = (e4, w4)" by fastforce
        have "Ret (e, i', (w', cs')) = (case e3 of Some err \<Rightarrow> Ret (Some err, int v, (w3, cs3))
          | None \<Rightarrow> Ret (case e4 of Some err \<Rightarrow> Some (errs_New P (Sprintf ''failed to update DB to version %d: %s''
              [VInt (int v), err_val err])) | None \<Rightarrow> None, int v, (w4, cs3 @ [CExec sql_insert [VInt (int v)] e4])))"
          unfolding run [symmetric] using start(2-) Inr v st ins
          by (cases e3; cases e4) (simp_all add: migrateToNextVersion_def migration_list_def Let_def)
        with step show ?thesis
          by (cases e3; cases e4) (auto intro: applied.version [OF q, simplified] failed.insert [OF q, simplified])
      qed
    qed
  qed
qed

lemma traced_iteration:
  assumes P: "pkg_errors_ok P"
    and run: "migrate_iteration P (traced D) (migration_list P T (traced D) md) catalog i (w, cs) = Ret r"
  shows "case r of
      Inl (err, (w', cs')) \<Rightarrow> \<exists>rest. cs' = cs @ rest \<and> ends P (version_script P T md) catalog rest err
    | Inr (k, (w', cs')) \<Rightarrow> \<exists>tx. cs' = cs @ CBegin None # tx @ [CCommit None] \<and> applied (version_script P T md) catalog tx"
proof -
  obtain e1 w1 where b: "sql_Begin D w = (e1, w1)" by fastforce
  show ?thesis
  proof (cases e1)
    case (Some err)
    with b run show ?thesis
      by (auto simp: migrate_iteration_def err_val_def Sprintf.simps print_arg_def extra_args_def intro: ends.no_begin [simplified])
  next
    case None
    with b run obtain e i' w2 cs2 where st: "migrateToNextVersion P (traced D) i (migration_list P T (traced D) md) catalog
        (w1, cs @ [CBegin None]) = Ret (e, i', (w2, cs2))"
      by (auto simp: migrate_iteration_def go_bind_eq_Ret)
    obtain tx where tx: "cs2 = cs @ CBegin None # tx" "case e of None \<Rightarrow> applied (version_script P T md) catalog tx
        | Some old \<Rightarrow> failed P (version_script P T md) catalog tx old"
      using traced_transaction [OF P st] by auto
    obtain e3 w3 where cm: "sql_Commit D w2 = (e3, w3)" by fastforce
    obtain e4 w4 where rb: "sql_Rollback D w2 = (e4, w4)" by fastforce
    show ?thesis
      using run b None st tx cm rb
      by (cases e; cases e3; cases e4) (auto simp: migrate_iteration_def err_val_def Sprintf.simps print_arg_def extra_args_def
          intro: ends.rolled_back ends.no_rollback [simplified] ends.no_commit [simplified])
  qed
qed

definition disciplined :: "pkg_errors \<Rightarrow> (nat \<Rightarrow> goerror option + string) \<Rightarrow> string \<Rightarrow> sql_call list \<Rightarrow> goerror option \<Rightarrow> bool" where
  "disciplined P script catalog calls err \<longleftrightarrow>
     (\<exists>txs rest. calls = committed_calls txs @ rest \<and> (\<forall>cs \<in> set txs. applied script catalog cs) \<and> ends P script catalog rest err)"

lemma disciplined_end: "ends P script catalog rest err \<Longrightarrow> disciplined P script catalog rest err"
  unfolding disciplined_def by (intro exI [of _ "[]"] exI [of _ rest]) (simp add: committed_calls_def)

lemma disciplined_Cons:
  assumes "applied script catalog tx" and "disciplined P script catalog calls err"
  shows "disciplined P script catalog (CBegin None # tx @ CCommit None # calls) err"
proof -
  from assms(2) obtain txs rest where "calls = committed_calls txs @ rest" "\<forall>cs \<in> set txs. applied script catalog cs"
    "ends P script catalog rest err" by (auto simp: disciplined_def)
  with assms(1) show ?thesis
    unfolding disciplined_def by (intro exI [of _ "tx # txs"] exI [of _ rest]) (simp add: committed_calls_def)
qed

lemma traced_loop:
  assumes P: "pkg_errors_ok P"
    and run: "migrate_loop P (traced D) (migration_list P T (traced D) md) catalog i (w, cs) = Some (Ret (err, (w', cs')))"
  shows "\<exists>calls. cs' = cs @ calls \<and> disciplined P (version_script P T md) catalog calls err"
proof -
  let ?Q = "\<lambda>(((((P', D'), m), c), i :: int), wc :: 'a \<times> sql_call list) (out :: (goerror option \<times> 'a \<times> sql_call list) go).
    P' = P \<and> D' = traced D \<and> m = migration_list P T (traced D) md \<and> c = catalog \<longrightarrow>
    (\<forall>err w' cs'. out = Ret (err, (w', cs')) \<longrightarrow>
      (\<exists>calls. cs' = snd wc @ calls \<and> disciplined P (version_script P T md) catalog calls err))"
  have "?Q (((((P, traced D), migration_list P T (traced D) md), catalog), i), (w, cs)) (Ret (err, (w', cs')))"
  proof (rule migrate_loop.raw_induct [where Pa = ?Q, OF _ run], unfold prod.case, intro impI allI, elim conjE)
    fix loop P' D' m c i and wc :: "'a \<times> sql_call list" and out err w' cs'
    let ?m = "migration_list P T (traced D) md" and ?script = "version_script P T md"
    assume IH: "\<And>P' D' m c i wc out. loop P' D' m c i wc = Some out \<Longrightarrow>
        P' = P \<and> D' = traced D \<and> m = ?m \<and> c = catalog \<longrightarrow>
        (\<forall>err w' cs'. out = Ret (err, (w', cs')) \<longrightarrow> (\<exists>calls. cs' = snd wc @ calls \<and> disciplined P ?script catalog calls err))"
      and body: "(if i < int (length m) then (case migrate_iteration P' D' m c i wc of
            Panic msg \<Rightarrow> Some (Panic msg)
          | Ret (Inl result) \<Rightarrow> Some (Ret result)
          | Ret (Inr (i', w')) \<Rightarrow> loop P' D' m c (int64_inc i') w') else Some (Ret (None, wc))) = Some out"
      and eqs: "P' = P" "D' = traced D" "m = ?m" "c = catalog" and out: "out = Ret (err, (w', cs'))"
    obtain w cs where wc: "wc = (w, cs)" by fastforce
    show "\<exists>calls. cs' = snd wc @ calls \<and> disciplined P ?script catalog calls err"
    proof (cases "i < int (length m)")
      case False
      with body out wc show ?thesis
        by (auto intro: disciplined_end ends.success)
    next
      case True
      then obtain r where it: "migrate_iteration P (traced D) ?m catalog i (w, cs) = Ret r"
        using body out eqs wc by (cases "migrate_iteration P (traced D) ?m catalog i (w, cs)") auto
      note iteration = traced_iteration [OF P it]
      show ?thesis
      proof (cases r)
        case (Inl x)
        with iteration True body it eqs wc out show ?thesis
          by (auto intro: disciplined_end)
      next
        case (Inr x)
        obtain k w1 cs1 where x: "x = (k, (w1, cs1))" by (metis prod_cases3)
        with Inr iteration obtain tx where tx: "cs1 = cs @ CBegin None # tx @ [CCommit None]" "applied ?script catalog tx" by auto
        from True body it eqs wc Inr x have "loop P (traced D) ?m catalog (int64_inc k) (w1, cs1) = Some out" by simp
        from IH [OF this] out obtain calls where "cs' = cs1 @ calls" "disciplined P ?script catalog calls err" by auto
        with tx disciplined_Cons [OF tx(2)] wc show ?thesis
          by (intro exI [of _ "CBegin None # tx @ CCommit None # calls"]) simp
      qed
    qed
  qed
  then show ?thesis by simp
qed

subsection \<open>The properties\<close>

text \<open>C1: Given the name of the database it is connected to, \<open>Migrate\<close> always returns, without a panic and without looping for ever, and whatever call fails
  on the way (begin, lock, query, script, insert, commit, rollback) and however many versions other
  instances commit meanwhile, the database stays consistent: the version table records exactly the
  scripts executed, each once and in order, and never loses a version.\<close>

theorem migrate_safe:
  assumes "pkg_errors_ok P" and "driver_ok D database committed current ss sv"
    and "scripts_ok ss sv" and "assets_ok P T md ss" and "consistent ss (committed w)"
  shows "\<exists>err w'. Migrate P T (Some D) database md w = Some (Ret (err, w')) \<and>
           consistent ss (committed w') \<and> level (committed w) \<le> level (committed w')"
  using Migrate_effect [OF assms] assms(5) by (auto simp: advance_def)

theorem migrate_safe_witness:
  "\<exists>err w'. Migrate documented_errs ex_templates (Some mem_driver) ''db'' ex_assets ex_fresh = Some (Ret (err, w')) \<and>
     consistent ex_scripts (fst w')"
  using migrate_safe [OF documented_errs_ok mem_driver_ok ex_scripts_ok ex_assets_ok ex_fresh_consistent] by blast

text \<open>C9: When \<open>Migrate\<close>, given the name of the database it is connected to, returns nil, the database is at the last version: every migration script was
  executed exactly once, in order, and the version table lists \<open>0 .. n-1\<close>; so a second run, or a run
  racing with other instances, executes nothing twice.\<close>

theorem migrate_success_complete:
  assumes "pkg_errors_ok P" and "driver_ok D database committed current ss sv"
    and "scripts_ok ss sv" and "assets_ok P T md ss" and "consistent ss (committed w)"
    and "Migrate P T (Some D) database md w = Some (Ret (None, w'))"
  shows "history (committed w') = ss \<and>
         versions (committed w') = (if ss = [] then None else Some (map int [0..<length ss])) \<and>
         (\<forall>w''. Migrate P T (Some D) database md w' = Some (Ret (None, w'')) \<longrightarrow>
            committed w'' = committed w')"
proof -
  have final: "consistent ss d \<and> level d = length ss \<Longrightarrow>
      d = \<lparr>versions = (if ss = [] then None else Some (map int [0..<length ss])), history = ss\<rparr>" for d
    by (cases d) (auto simp: consistent_def)
  from Migrate_effect [OF assms(1-5)] assms(5,6)
  have 1: "consistent ss (committed w') \<and> level (committed w') = length ss"
    by (auto simp: advance_def)
  have 2: "committed w'' = committed w'"
    if "Migrate P T (Some D) database md w' = Some (Ret (None, w''))" for w''
  proof -
    from 1 have "consistent ss (committed w')" ..
    from Migrate_effect [OF assms(1-4) this] that 1
    have "consistent ss (committed w'') \<and> level (committed w'') = length ss"
      by (auto simp: advance_def)
    with final [OF 1] final show ?thesis by metis
  qed
  from final [OF 1] 2 show ?thesis by simp
qed

theorem migrate_success_complete_witness:
  "\<exists>w'. Migrate documented_errs ex_templates (Some mem_driver) ''db'' ex_assets ex_fresh = Some (Ret (None, w')) \<and>
     history (fst w') = ex_scripts \<and> versions (fst w') = Some [0, 1]"
proof -
  obtain w' where run: "Migrate documented_errs ex_templates (Some mem_driver) ''db'' ex_assets ex_fresh =
    Some (Ret (None, w'))" using ex_run by blast
  with migrate_success_complete [OF documented_errs_ok mem_driver_ok ex_scripts_ok ex_assets_ok
      ex_fresh_consistent run]
  have "history (fst w') = ex_scripts \<and> versions (fst w') = Some [0, 1]"
    by (simp add: ex_scripts_def upt_rec)
  with run show ?thesis by blast
qed

text \<open>C10: Given the name of its database, on a server that serves every legal request, with assets that load and expand, \<open>Migrate\<close>
  returns nil, whatever version a consistent database starts from, and leaves it at the last version.\<close>

theorem migrate_succeeds:
  assumes "pkg_errors_ok P" and "driver_ok D database committed current ss sv"
    and "scripts_ok ss sv" and "assets_ok P T md ss" and "consistent ss (committed w)"
    and "reliable D current ss" and "assets_load P T md"
  shows "\<exists>w'. Migrate P T (Some D) database md w = Some (Ret (None, w')) \<and>
           level (committed w') = length ss \<and> history (committed w') = ss"
  using Migrate_effect [OF assms(1-5)] assms(5-7) by (auto simp: advance_def consistent_def)

theorem migrate_succeeds_witness:
  "\<exists>w'. Migrate documented_errs ex_templates (Some mem_driver) ''db'' ex_assets ex_fresh = Some (Ret (None, w')) \<and>
     history (fst w') = ex_scripts"
  using migrate_succeeds [OF documented_errs_ok mem_driver_ok ex_scripts_ok ex_assets_ok ex_fresh_consistent
      mem_driver_reliable ex_assets_load] by blast

text \<open>C11: The discipline of transactions, on any database and any assets, from any version on: a run of
  \<open>Migrate\<close> that returns is a sequence of transactions, each begun, each taking the lock and reading the version first,
  each committed after at most one script and its entry, without a failed call. If it returns an error, that is the error of
  the one call (or asset) that failed, as the code words it: nothing is called after it except the rollback of the open
  transaction, which is never committed, and the error of the rollback is returned when that fails too. Without a database handle nothing is called.\<close>

theorem migrate_error_paths:
  assumes "pkg_errors_ok P"
    and "Migrate P T (Some (traced D)) catalog md (w, []) = Some (Ret (err, (w', calls)))"
  shows "(\<exists>txs rest. calls = concat (map (\<lambda>cs. CBegin None # cs @ [CCommit None]) txs) @ rest \<and>
      (\<forall>cs \<in> set txs. applied (version_script P T md) catalog cs) \<and> ends P (version_script P T md) catalog rest err) \<and>
    Migrate P T (None :: 'w sql_driver option) catalog md w0 = Some (Ret (Some (errs_New P ''database handle is nil''), w0))"
proof -
  from assms(2) obtain m where "getMigrations P T (traced D) md = Ret m"
    and run: "migrate_loop P (traced D) m catalog 0 (w, []) = Some (Ret (err, (w', calls)))"
    by (auto simp: Migrate_def split: go.splits)
  then have "m = migration_list P T (traced D) md"
    using getMigrations_loop_Ret [of P T "traced D" "Asset md" "[]"] by (simp add: getMigrations_def migration_list_def)
  with traced_loop [OF assms(1)] run show ?thesis
    by (fastforce simp: Migrate_def disciplined_def committed_calls_def)
qed

definition failing_driver :: "(vdb \<times> vdb) sql_driver" where
  "failing_driver = mem_driver\<lparr>sql_Exec := (\<lambda>q args w.
     if q = ex_scripts ! 1 then (Some (std_errors_New ''out of range''), w) else mem_Exec q args w)\<rparr>"

lemma failing_run:
  "\<exists>calls w'. Migrate documented_errs ex_templates (Some (traced failing_driver)) ''db'' ex_assets (ex_fresh, []) =
     Some (Ret (Some (errs_New documented_errs ''failed to execute migration of step 0 of version 1: out of range''), (w', calls))) \<and>
     history (fst w') = [ex_scripts ! 0]"
proof -
  have exec: "sql_Exec failing_driver q args w = (if q = ex_scripts ! 1 then (Some (std_errors_New ''out of range''), w) else mem_Exec q args w)"
    for q args w by (simp add: failing_driver_def)
  have texts: "sql_lock \<noteq> ex_scripts ! 1" "sql_insert \<noteq> ex_scripts ! 1" "ex_scripts ! 0 \<noteq> ex_scripts ! 1" "ex_scripts ! 0 \<noteq> sql_lock"
    by (simp_all add: sql_lock_def sql_insert_def ex_scripts_def)
  have itoa: "itoa 0 = ''0''" "itoa 1 = ''1''" by code_simp+
  have inc: "int64_inc (-1) = 0" "int64_inc 0 = 1" by (simp_all add: int64_inc_small)
  have rest: "sql_Begin failing_driver (com, cur) = (None, (com, com))" "sql_Commit failing_driver (com, cur) = (None, (cur, cur))"
    "sql_Rollback failing_driver (com, cur) = (None, (com, com))"
    "sql_QueryBool failing_driver q args (com, cur) = (Inr (args = [VString ''db''] \<and> versions cur \<noteq> None), (com, cur))"
    "versions cur = Some [0] \<Longrightarrow> sql_QueryInt failing_driver q args (com, cur) = (Inr 0, (com, cur))" for com cur q args
    by (simp_all add: failing_driver_def mem_driver_def)
  note steps = migrate_iteration_def migrateToNextVersion_def getCurrentVersion_def executeSQLFile_def script_text_def
    exec texts texts [simplified] itoa inc rest mem_Exec_def create_version_table_def sql_texts_differ documented_errs_def ex_fresh_def Let_def
    err_val_def text_of_def std_errors_New_def Sprintf.simps print_arg_def extra_args_def
  let ?m = "[[executeSQLFile documented_errs ex_templates (traced failing_driver) (Asset ex_assets) ''0.sql'' []],
    [executeSQLFile documented_errs ex_templates (traced failing_driver) (Asset ex_assets) ''1.sql'' []]]"
  have assets: "Asset ex_assets ''0.sql'' = Inr (ex_scripts ! 0)" "Asset ex_assets ''1.sql'' = Inr (ex_scripts ! 1)"
    by (simp_all add: ex_assets_def)
  have m: "getMigrations documented_errs ex_templates (traced failing_driver) ex_assets = Ret ?m"
    by (simp add: getMigrations_def ex_assets_def)
  show ?thesis
    unfolding Migrate_def m option.case go.case
    by (subst migrate_loop.simps, simp add: steps assets, subst migrate_loop.simps, simp add: steps assets)
qed

theorem migrate_error_paths_witness:
  "\<exists>calls w' txs rest. Migrate documented_errs ex_templates (Some (traced failing_driver)) ''db'' ex_assets (ex_fresh, []) =
     Some (Ret (Some (errs_New documented_errs ''failed to execute migration of step 0 of version 1: out of range''), (w', calls))) \<and>
     history (fst w') = [ex_scripts ! 0] \<and> calls = concat (map (\<lambda>cs. CBegin None # cs @ [CCommit None]) txs) @ rest \<and>
     ends documented_errs (version_script documented_errs ex_templates ex_assets) ''db'' rest
       (Some (errs_New documented_errs ''failed to execute migration of step 0 of version 1: out of range''))"
proof -
  obtain calls w' where run: "Migrate documented_errs ex_templates (Some (traced failing_driver)) ''db'' ex_assets (ex_fresh, []) =
     Some (Ret (Some (errs_New documented_errs ''failed to execute migration of step 0 of version 1: out of range''), (w', calls)))"
    and h: "history (fst w') = [ex_scripts ! 0]" using failing_run by blast
  from migrate_error_paths [OF documented_errs_ok run, THEN conjunct1] obtain txs rest
    where "calls = concat (map (\<lambda>cs. CBegin None # cs @ [CCommit None]) txs) @ rest"
      "ends documented_errs (version_script documented_errs ex_templates ex_assets) ''db'' rest
        (Some (errs_New documented_errs ''failed to execute migration of step 0 of version 1: out of range''))"
    by (elim conjE exE) (rule that)
  with run h show ?thesis
    by (intro exI [of _ calls] exI [of _ w'] exI [of _ txs] exI [of _ rest] conjI)
qed

end
