(* ===== verification/Net_Url.thy ===== *)
theory Net_Url
  imports Errors "HOL-Library.List_Lexorder" "HOL-Library.Char_ord"
begin

section \<open>The \<open>net/url\<close> package\<close>

text \<open>
  What the repository uses of Go's \<open>net/url\<close>: \<open>Parse\<close>, \<open>URL.Query\<close>, \<open>Values.Add\<close>, \<open>Values.Encode\<close> and
  \<open>URL.String\<close>, on bytes, with the escaping modes of the package. The main lemmas are the round
  trips: unescaping what was escaped, and parsing the query string \<open>Encode\<close> prints.
\<close>

subsection \<open>Escaping\<close>

datatype encoding = EncodePath | EncodeHost | EncodeZone | EncodeUserPassword | EncodeQueryComponent | EncodeFragment

definition is_alnum :: "char \<Rightarrow> bool" where
  "is_alnum c \<longleftrightarrow>
     (let n = (of_char c :: nat) in (65 \<le> n \<and> n \<le> 90) \<or> (97 \<le> n \<and> n \<le> 122) \<or> (48 \<le> n \<and> n \<le> 57))"

definition host_chars :: string where
  "host_chars = ''!$&()*+,;=:[]<>'' @ [CHR 0x27, CHR 0x22]"

definition shouldEscape :: "char \<Rightarrow> encoding \<Rightarrow> bool" where
  "shouldEscape c mode \<longleftrightarrow>
     (if is_alnum c then False
      else if (mode = EncodeHost \<or> mode = EncodeZone) \<and> c \<in> set host_chars then False
      else if c \<in> set ''-_.~'' then False
      else if c \<in> set ''$&+,/:;=?@'' \<and> mode = EncodePath then c = CHR ''?''
      else if c \<in> set ''$&+,/:;=?@'' \<and> mode = EncodeUserPassword then c \<in> set ''@/?:''
      else if c \<in> set ''$&+,/:;=?@'' \<and> mode = EncodeQueryComponent then True
      else if c \<in> set ''$&+,/:;=?@'' \<and> mode = EncodeFragment then False
      else if mode = EncodeFragment \<and> c \<in> set ''!()*'' then False
      else True)"

definition hex_digits :: string where
  "hex_digits = ''0123456789ABCDEF''"

definition escape_char :: "encoding \<Rightarrow> char \<Rightarrow> string" where
  "escape_char mode c =
     (if c = CHR '' '' \<and> mode = EncodeQueryComponent then ''+''
      else if shouldEscape c mode
      then [CHR ''%'', hex_digits ! ((of_char c :: nat) div 16), hex_digits ! ((of_char c :: nat) mod 16)]
      else [c])"

definition escape :: "string \<Rightarrow> encoding \<Rightarrow> string" where
  "escape s mode = concat (map (escape_char mode) s)"

definition unhex :: "char \<Rightarrow> nat option" where
  "unhex c =
     (let n = (of_char c :: nat) in
      if 48 \<le> n \<and> n \<le> 57 then Some (n - 48)
      else if 97 \<le> n \<and> n \<le> 102 then Some (n - 87)
      else if 65 \<le> n \<and> n \<le> 70 then Some (n - 55)
      else None)"

text \<open>The two kinds of parse failure \<open>unescape\<close> reports: a bad escape, or a byte a host may not have.\<close>

definition bad_escape :: "string \<Rightarrow> string" where
  "bad_escape s = ''invalid URL escape '' @ [CHR 0x22] @ take 3 s @ [CHR 0x22]"

definition bad_host :: "string \<Rightarrow> string" where
  "bad_host s = ''invalid character '' @ [CHR 0x22] @ s @ [CHR 0x22] @ '' in host name''"

fun unescape :: "string \<Rightarrow> encoding \<Rightarrow> string + string" where
  "unescape [] mode = Inr []"
| "unescape (c # s) mode =
     (if c = CHR ''%'' then
        (case s of
           a # b # t \<Rightarrow>
             (case (unhex a, unhex b) of
                (Some x, Some y) \<Rightarrow>
                  (if mode = EncodeHost \<and> x < 8 \<and> [a, b] \<noteq> ''25'' then Inl (bad_escape (c # s))
                   else if mode = EncodeZone \<and> [a, b] \<noteq> ''25'' \<and> 16 * x + y \<noteq> 32 \<and>
                       shouldEscape (char_of (16 * x + y)) EncodeHost then Inl (bad_escape (c # s))
                   else map_sum id (\<lambda>r. char_of (16 * x + y) # r) (unescape t mode))
              | _ \<Rightarrow> Inl (bad_escape (c # s)))
         | _ \<Rightarrow> Inl (bad_escape (c # s)))
      else if c = CHR ''+'' then
        map_sum id (\<lambda>r. (if mode = EncodeQueryComponent then CHR '' '' else c) # r) (unescape s mode)
      else if (mode = EncodeHost \<or> mode = EncodeZone) \<and> (of_char c :: nat) < 128 \<and> shouldEscape c mode
      then Inl (bad_host [c])
      else map_sum id (\<lambda>r. c # r) (unescape s mode))"

text \<open>
  Escaping is undone by unescaping, in the modes where every byte may be escaped (in host mode only
  bytes above 127 may).
\<close>

lemma shouldEscape_percent: "shouldEscape (CHR ''%'') mode"
  by (cases mode) (simp_all add: shouldEscape_def is_alnum_def host_chars_def)

lemma shouldEscape_plus_query: "shouldEscape (CHR ''+'') EncodeQueryComponent"
  by (simp add: shouldEscape_def is_alnum_def)

lemma below_16: "d < (16::nat) \<Longrightarrow> d \<in> {0,1,2,3,4,5,6,7,8,9,10,11,12,13,14,15}"
proof -
  assume "d < 16"
  then have "d \<in> set [0..<16]" by simp
  also have "[0..<16] = [0,1,2,3,4,5,6,7,8,9,10,11,12,13,14,15::nat]" by (simp add: upt_rec)
  finally show ?thesis by simp
qed

lemma char_nibbles: "(of_char (c::char) :: nat) div 16 < 16" "(of_char (c::char) :: nat) mod 16 < 16"
proof -
  have "(of_char c :: nat) < 16 * 16" using nat_of_char_less_256 [of c] by simp
  then show "(of_char c :: nat) div 16 < 16" by (rule less_mult_imp_div_less)
qed simp

lemma unhex_hex_digit: "d < 16 \<Longrightarrow> unhex (hex_digits ! d) = Some d"
by (drule below_16) (auto simp: hex_digits_def unhex_def Let_def)

lemma unescape_escape_char:
  assumes "mode \<noteq> EncodeHost" and "mode \<noteq> EncodeZone"
  shows "unescape (escape_char mode c @ s) mode = map_sum id (\<lambda>r. c # r) (unescape s mode)"
proof -
  note b = char_nibbles [of c]
  have join: "16 * ((of_char c :: nat) div 16) + of_char c mod 16 = of_char c" by simp
  show ?thesis
    using assms b join shouldEscape_percent [of mode] shouldEscape_plus_query
    by (cases "mode = EncodeQueryComponent") (auto simp: escape_char_def unhex_hex_digit)
qed

lemma unescape_escape:
  "mode \<noteq> EncodeHost \<Longrightarrow> mode \<noteq> EncodeZone \<Longrightarrow> unescape (escape s mode) mode = Inr s"
  by (induction s) (simp_all add: escape_def unescape_escape_char)

abbreviation QueryEscape :: "string \<Rightarrow> string" where
  "QueryEscape s \<equiv> escape s EncodeQueryComponent"

abbreviation QueryUnescape :: "string \<Rightarrow> string + string" where
  "QueryUnescape s \<equiv> unescape s EncodeQueryComponent"

lemma hex_digits_alnum: "d < 16 \<Longrightarrow> is_alnum (hex_digits ! d)"
by (drule below_16) (auto simp: hex_digits_def is_alnum_def Let_def)

lemma QueryEscape_chars: "c \<in> set (QueryEscape s) \<Longrightarrow> is_alnum c \<or> c \<in> set ''-_.~+%''"
proof -
  assume "c \<in> set (QueryEscape s)"
  then obtain d where d: "c \<in> set (escape_char EncodeQueryComponent d)" by (auto simp: escape_def)
  have safe: "\<not> shouldEscape d EncodeQueryComponent \<Longrightarrow> is_alnum d \<or> d \<in> set ''-_.~''"
    by (simp add: shouldEscape_def split: if_splits)
  have "c = CHR ''+'' \<or> c = CHR ''%'' \<or> c = hex_digits ! ((of_char d :: nat) div 16) \<or>
      c = hex_digits ! ((of_char d :: nat) mod 16) \<or> c = d \<and> \<not> shouldEscape d EncodeQueryComponent"
    using d by (auto simp only: escape_char_def split: if_splits) simp_all
  with safe char_nibbles [of d] hex_digits_alnum show ?thesis by auto
qed

lemma QueryEscape_no_separator:
  "CHR ''&'' \<notin> set (QueryEscape s)" "CHR '';'' \<notin> set (QueryEscape s)" "CHR ''='' \<notin> set (QueryEscape s)"
  using QueryEscape_chars [of _ s] by (fastforce simp: is_alnum_def)+


subsection \<open>Query strings\<close>

text \<open>
  \<open>url.Values\<close> maps a key to its values in order. Parsing goes through the pieces between \<open>&\<close> and
  \<open>;\<close>, skips a piece that is empty or badly escaped (remembering the first error) and appends the
  value to its key. \<open>Encode\<close> ranges over the map (the order \<open>ks\<close>) and sorts the keys.
\<close>

type_synonym url_values = "string \<rightharpoonup> string list"

definition values_Add :: "url_values \<Rightarrow> string \<Rightarrow> string \<Rightarrow> url_values" where
  "values_Add v key x = v(key \<mapsto> (case v key of None \<Rightarrow> [] | Some xs \<Rightarrow> xs) @ [x])"

definition split_at :: "(char \<Rightarrow> bool) \<Rightarrow> string \<Rightarrow> string \<times> string" where
  "split_at f s = (takeWhile (\<lambda>c. \<not> f c) s, tl (dropWhile (\<lambda>c. \<not> f c) s))"

lemma split_at_shorter: "split_at f s = (a, b) \<Longrightarrow> s \<noteq> [] \<Longrightarrow> length b < length s"
proof -
  assume "split_at f s = (a, b)" and s: "s \<noteq> []"
  then have "b = tl (dropWhile (\<lambda>c. \<not> f c) s)" by (simp add: split_at_def)
  moreover have "length (dropWhile (\<lambda>c. \<not> f c) s) \<le> length s" by (rule length_dropWhile_le)
  moreover have "0 < length s" using s by simp
  ultimately show "length b < length s" using s by (cases "dropWhile (\<lambda>c. \<not> f c) s") auto
qed

definition query_separator :: "char \<Rightarrow> bool" where
  "query_separator c \<longleftrightarrow> c = CHR ''&'' \<or> c = CHR '';''"

definition parse_pair :: "string \<Rightarrow> string + (string \<times> string)" where
  "parse_pair piece =
     (let (key, val) = split_at (\<lambda>c. c = CHR ''='') piece in
      case QueryUnescape key of Inl e \<Rightarrow> Inl e
      | Inr key' \<Rightarrow> (case QueryUnescape val of Inl e \<Rightarrow> Inl e | Inr val' \<Rightarrow> Inr (key', val')))"

function parseQuery :: "url_values \<Rightarrow> string option \<Rightarrow> string \<Rightarrow> url_values \<times> string option" where
  "parseQuery m err query =
     (if query = '''' then (m, err)
      else (let (piece, rest) = split_at query_separator query in
        if piece = '''' then parseQuery m err rest
        else (case parse_pair piece of
                Inl e \<Rightarrow> parseQuery m (if err = None then Some e else err) rest
              | Inr (key, val) \<Rightarrow> parseQuery (values_Add m key val) err rest)))"
  by pat_completeness auto
termination
  by (relation "measure (\<lambda>(m, err, q). length q)") (auto dest: split_at_shorter [OF sym])

declare parseQuery.simps [simp del]

definition encode_pair :: "string \<Rightarrow> string \<Rightarrow> string" where
  "encode_pair k x = QueryEscape k @ ''='' @ QueryEscape x"

definition Encode :: "string list \<Rightarrow> url_values \<Rightarrow> string" where
  "Encode ks v = Join (concat (map (\<lambda>k. map (encode_pair k) (case v k of None \<Rightarrow> [] | Some xs \<Rightarrow> xs)) (sort ks))) ''&''"


lemma encode_pair_no_separator: "c \<in> set (encode_pair k x) \<Longrightarrow> \<not> query_separator c"
  using QueryEscape_no_separator [of k] QueryEscape_no_separator [of x]
  by (auto simp: encode_pair_def query_separator_def)

lemma encode_pair_not_empty: "encode_pair k x \<noteq> ''''"
  by (simp add: encode_pair_def)

lemma split_at_end: "(\<And>c. c \<in> set a \<Longrightarrow> \<not> f c) \<Longrightarrow> split_at f a = (a, [])"
  by (simp add: split_at_def dropWhile_eq_Nil_conv [THEN iffD2])

lemma split_at_append: "(\<And>c. c \<in> set a \<Longrightarrow> \<not> f c) \<Longrightarrow> f d \<Longrightarrow> split_at f (a @ d # b) = (a, b)"
  by (simp add: split_at_def takeWhile_append dropWhile_append)

lemma parse_pair_encode_pair: "parse_pair (encode_pair k x) = Inr (k, x)"
proof -
  have "split_at (\<lambda>c. c = CHR ''='') (QueryEscape k @ CHR ''='' # QueryEscape x) = (QueryEscape k, QueryEscape x)"
    using QueryEscape_no_separator(3) [of k] by (intro split_at_append) auto
  then show ?thesis by (simp add: encode_pair_def parse_pair_def unescape_escape)
qed

lemma parseQuery_Join:
  "parseQuery m err (Join (map (\<lambda>(k, x). encode_pair k x) kxs) ''&'') =
     (foldl (\<lambda>m (k, x). values_Add m k x) m kxs, err)"
proof (induction kxs arbitrary: m)
  case Nil
  then show ?case by (simp add: parseQuery.simps)
next
  case (Cons kx kxs)
  obtain k x where kx: "kx = (k, x)" by fastforce
  show ?case
  proof (cases "kxs = []")
    case True
    then show ?thesis
      using kx encode_pair_no_separator [of _ k x]
      by (simp add: parseQuery.simps [of m err "encode_pair k x"] encode_pair_not_empty split_at_end
          parse_pair_encode_pair parseQuery.simps [of _ err "''''"])
  next
    case False
    let ?rest = "Join (map (\<lambda>(k, x). encode_pair k x) kxs) ''&''"
    have "Join (map (\<lambda>(k, x). encode_pair k x) (kx # kxs)) ''&'' = encode_pair k x @ CHR ''&'' # ?rest"
      using False kx by (simp add: Join_Cons)
    moreover have "split_at query_separator (encode_pair k x @ CHR ''&'' # ?rest) = (encode_pair k x, ?rest)"
      using encode_pair_no_separator [of _ k x] by (intro split_at_append) (auto simp: query_separator_def)
    ultimately show ?thesis
      using Cons.IH [of "values_Add m k x"] kx
      by (simp add: parseQuery.simps [of m err "encode_pair k x @ CHR ''&'' # ?rest"] encode_pair_not_empty
          parse_pair_encode_pair)
  qed
qed

lemma foldl_values_Add_same:
  "foldl (\<lambda>m (k, x). values_Add m k x) m (map (Pair k) xs) =
     (if xs = [] then m else m(k \<mapsto> (case m k of None \<Rightarrow> [] | Some ys \<Rightarrow> ys) @ xs))"
  by (induction xs arbitrary: m) (auto simp: values_Add_def)

lemma foldl_values_Add_keys:
  "distinct ks \<Longrightarrow> (\<forall>k \<in> set ks. m k = None) \<Longrightarrow>
   foldl (\<lambda>m (k, x). values_Add m k x) m (concat (map (\<lambda>k. map (Pair k) (vals k)) ks)) =
     (\<lambda>k. if k \<in> set ks \<and> vals k \<noteq> [] then Some (vals k) else m k)"
proof (induction ks arbitrary: m)
  case Nil
  then show ?case by simp
next
  case (Cons k ks)
  let ?m = "foldl (\<lambda>m (k, x). values_Add m k x) m (map (Pair k) (vals k))"
  have m: "?m = (if vals k = [] then m else m(k \<mapsto> vals k))"
    using Cons.prems(2) by (simp add: foldl_values_Add_same)
  then have "\<forall>k' \<in> set ks. ?m k' = None" using Cons.prems by auto
  have "foldl (\<lambda>m (k, x). values_Add m k x) m (concat (map (\<lambda>k. map (Pair k) (vals k)) (k # ks))) =
      (\<lambda>j. if j \<in> set ks \<and> vals j \<noteq> [] then Some (vals j) else ?m j)"
    using Cons.IH [of ?m] Cons.prems(1) \<open>\<forall>k' \<in> set ks. ?m k' = None\<close> by simp
  with Cons.prems(1) show ?case unfolding m by (simp add: fun_eq_iff)
qed

definition proper_values :: "url_values \<Rightarrow> bool" where
  "proper_values v \<longleftrightarrow> (\<forall>k xs. v k = Some xs \<longrightarrow> xs \<noteq> [])"

lemma parseQuery_Encode:
  assumes ks: "ranges_over ks v" and v: "proper_values v"
  shows "parseQuery Map.empty None (Encode ks v) = (v, None)"
proof -
  let ?vals = "\<lambda>k. case v k of None \<Rightarrow> [] | Some xs \<Rightarrow> xs"
  have "concat (map (\<lambda>k. map (encode_pair k) (?vals k)) (sort ks)) =
      map (\<lambda>(k, x). encode_pair k x) (concat (map (\<lambda>k. map (Pair k) (?vals k)) (sort ks)))"
    by (simp add: map_concat comp_def)
  then have "parseQuery Map.empty None (Encode ks v) =
      (foldl (\<lambda>m (k, x). values_Add m k x) Map.empty (concat (map (\<lambda>k. map (Pair k) (?vals k)) (sort ks))), None)"
    unfolding Encode_def by (simp only: parseQuery_Join)
  also have "\<dots> = ((\<lambda>k. if k \<in> set (sort ks) \<and> ?vals k \<noteq> [] then Some (?vals k) else None), None)"
    using ks by (subst foldl_values_Add_keys) (auto simp: ranges_over_def)
  also have "(\<lambda>k. if k \<in> set (sort ks) \<and> ?vals k \<noteq> [] then Some (?vals k) else None) = v"
    using ks v by (auto simp: ranges_over_def proper_values_def fun_eq_iff split: option.splits)
  finally show ?thesis .
qed


subsection \<open>URLs\<close>

text \<open>
  \<open>Parse\<close> and \<open>String\<close> follow the package (as of Go 1.10 and 1.11): scheme, opaque part, user
  information, host, path with the raw form it was written in where that is not the default one,
  query, fragment. Its errors carry the texts of the package, the quoted piece printed as it is.
\<close>

record userinfo =
  user_name :: string
  user_password :: "string option"

record url =
  url_Scheme :: string
  url_Opaque :: string
  url_User :: "userinfo option"
  url_Host :: string
  url_Path :: string
  url_RawPath :: string
  url_ForceQuery :: bool
  url_RawQuery :: string
  url_Fragment :: string

definition empty_url :: url where
  "empty_url = \<lparr>url_Scheme = '''', url_Opaque = '''', url_User = None, url_Host = '''', url_Path = '''',
     url_RawPath = '''', url_ForceQuery = False, url_RawQuery = '''', url_Fragment = ''''\<rparr>"

text \<open>\<open>split(s, c, cutc)\<close> at the first occurrence of a byte, which stays in front of the second part or not.\<close>

definition url_split :: "string \<Rightarrow> char \<Rightarrow> bool \<Rightarrow> string \<times> string" where
  "url_split s c cutc =
     (let a = takeWhile (\<lambda>x. x \<noteq> c) s; b = dropWhile (\<lambda>x. x \<noteq> c) s in (a, if cutc then drop 1 b else b))"

definition is_letter :: "char \<Rightarrow> bool" where
  "is_letter c \<longleftrightarrow> (let n = (of_char c :: nat) in (65 \<le> n \<and> n \<le> 90) \<or> (97 \<le> n \<and> n \<le> 122))"

text \<open>\<open>getscheme\<close> at position \<open>i\<close> (\<open>seen\<close> are the bytes before it): the scheme and the rest.\<close>

fun getscheme :: "string \<Rightarrow> string \<Rightarrow> string + (string \<times> string)" where
  "getscheme seen [] = Inr ('''', seen)"
| "getscheme seen (c # s) =
     (if is_letter c then getscheme (seen @ [c]) s
      else if is_alnum c \<or> c \<in> set ''+-.'' then
        (if seen = [] then Inr ('''', c # s) else getscheme (seen @ [c]) s)
      else if c = CHR '':'' then
        (if seen = [] then Inl ''missing protocol scheme'' else Inr (seen, s))
      else Inr ('''', seen @ c # s))"

definition valid_userinfo :: "string \<Rightarrow> bool" where
  "valid_userinfo s \<longleftrightarrow> list_all (\<lambda>c. is_alnum c \<or> c \<in> set ''-._:~!$&()*+,;=%@'' \<or> c = CHR 0x27) s"

definition valid_optional_port :: "string \<Rightarrow> bool" where
  "valid_optional_port p \<longleftrightarrow>
     (case p of [] \<Rightarrow> True
      | c # ds \<Rightarrow> c = CHR '':'' \<and> list_all (\<lambda>d. 48 \<le> (of_char d :: nat) \<and> (of_char d :: nat) \<le> 57) ds)"

definition last_index :: "char \<Rightarrow> string \<Rightarrow> nat option" where
  "last_index c s = (if c \<in> set s then Some (length s - 1 - length (takeWhile (\<lambda>x. x \<noteq> c) (rev s))) else None)"

definition sum_bind :: "'e + 'a \<Rightarrow> ('a \<Rightarrow> 'e + 'b) \<Rightarrow> 'e + 'b" where
  "sum_bind m f = (case m of Inl e \<Rightarrow> Inl e | Inr x \<Rightarrow> f x)"

text \<open>The position of the first \<open>%25\<close>, which starts the zone of an IPv6 literal.\<close>

fun zone_index :: "string \<Rightarrow> nat option" where
  "zone_index [] = None"
| "zone_index (c # s) = (if HasPrefix (c # s) ''%25'' then Some 0 else map_option Suc (zone_index s))"

definition parse_host :: "string \<Rightarrow> string + string" where
  "parse_host host =
     (if HasPrefix host ''['' then
        (case last_index (CHR '']'') host of
           None \<Rightarrow> Inl (''missing '' @ [CHR 0x27] @ '']'' @ [CHR 0x27] @ '' in host'')
         | Some i \<Rightarrow>
             if \<not> valid_optional_port (drop (i + 1) host)
             then Inl (''invalid port '' @ [CHR 0x22] @ drop (i + 1) host @ [CHR 0x22] @ '' after host'')
             else (case zone_index (take i host) of
                     Some z \<Rightarrow>
                       sum_bind (unescape (take z host) EncodeHost) (\<lambda>h1.
                       sum_bind (unescape (drop z (take i host)) EncodeZone) (\<lambda>h2.
                       sum_bind (unescape (drop i host) EncodeHost) (\<lambda>h3. Inr (h1 @ h2 @ h3))))
                   | None \<Rightarrow> unescape host EncodeHost))
      else unescape host EncodeHost)"

definition parse_authority :: "string \<Rightarrow> string + (userinfo option \<times> string)" where
  "parse_authority authority =
     (case last_index (CHR ''@'') authority of
        None \<Rightarrow> sum_bind (parse_host authority) (\<lambda>host. Inr (None, host))
      | Some i \<Rightarrow>
          sum_bind (parse_host (drop (i + 1) authority)) (\<lambda>host.
            (let ui = take i authority in
             if \<not> valid_userinfo ui then Inl ''net/url: invalid userinfo''
             else if CHR '':'' \<notin> set ui
             then sum_bind (unescape ui EncodeUserPassword)
                    (\<lambda>u. Inr (Some \<lparr>user_name = u, user_password = None\<rparr>, host))
             else (let (name, pw) = url_split ui (CHR '':'') True in
               sum_bind (unescape name EncodeUserPassword) (\<lambda>u.
               sum_bind (unescape pw EncodeUserPassword) (\<lambda>p.
                 Inr (Some \<lparr>user_name = u, user_password = Some p\<rparr>, host)))))))"

definition set_path :: "url \<Rightarrow> string \<Rightarrow> string + url" where
  "set_path u p =
     sum_bind (unescape p EncodePath) (\<lambda>path.
       Inr (u\<lparr>url_Path := path, url_RawPath := (if p = escape path EncodePath then '''' else p)\<rparr>))"


definition count_char :: "char \<Rightarrow> string \<Rightarrow> nat" where
  "count_char c s = length (filter (\<lambda>x. x = c) s)"

definition split_query :: "url \<Rightarrow> string \<Rightarrow> url \<times> string" where
  "split_query u rest =
     (if HasSuffix rest ''?'' \<and> count_char (CHR ''?'') rest = 1
      then (u\<lparr>url_ForceQuery := True\<rparr>, take (length rest - 1) rest)
      else (let (r, q) = url_split rest (CHR ''?'') True in (u\<lparr>url_RawQuery := q\<rparr>, r)))"

definition colon_before_slash :: "string \<Rightarrow> bool" where
  "colon_before_slash rest \<longleftrightarrow> CHR '':'' \<in> set (takeWhile (\<lambda>c. c \<noteq> CHR ''/'') rest)"

definition parse_url :: "string \<Rightarrow> string + url" where
  "parse_url rawurl =
     (if rawurl = ''*'' then Inr (empty_url\<lparr>url_Path := ''*''\<rparr>)
      else sum_bind (getscheme '''' rawurl) (\<lambda>(scheme, rest0).
        (let (u, rest) = split_query (empty_url\<lparr>url_Scheme := map lower_byte scheme\<rparr>) rest0 in
         if \<not> HasPrefix rest ''/'' \<and> url_Scheme u \<noteq> '''' then Inr (u\<lparr>url_Opaque := rest\<rparr>)
         else if \<not> HasPrefix rest ''/'' \<and> colon_before_slash rest
         then Inl ''first path segment in URL cannot contain colon''
         else if (url_Scheme u \<noteq> '''' \<or> \<not> HasPrefix rest ''///'') \<and> HasPrefix rest ''//''
         then (let (authority, path) = url_split (drop 2 rest) (CHR ''/'') False in
               sum_bind (parse_authority authority) (\<lambda>(user, host).
                 set_path (u\<lparr>url_User := user, url_Host := host\<rparr>) path))
         else set_path u rest)))"

definition url_error :: "string \<Rightarrow> string \<Rightarrow> goerror" where
  "url_error u e = ForeignError ''*url.Error'' (''parse '' @ u @ '': '' @ e) None"

definition url_Parse :: "string \<Rightarrow> goerror + url" where
  "url_Parse rawurl =
     (let (u, frag) = url_split rawurl (CHR ''#'') True in
      case parse_url u of
        Inl e \<Rightarrow> Inl (url_error u e)
      | Inr v \<Rightarrow>
          if frag = '''' then Inr v
          else (case unescape frag EncodeFragment of
                  Inl e \<Rightarrow> Inl (url_error rawurl e)
                | Inr f \<Rightarrow> Inr (v\<lparr>url_Fragment := f\<rparr>)))"

definition valid_encoded_path :: "string \<Rightarrow> bool" where
  "valid_encoded_path s \<longleftrightarrow>
     list_all (\<lambda>c. c \<in> set ''!$&()*+,;=:@[]%'' \<or> c = CHR 0x27 \<or> \<not> shouldEscape c EncodePath) s"

definition EscapedPath :: "url \<Rightarrow> string" where
  "EscapedPath u =
     (if url_RawPath u \<noteq> '''' \<and> valid_encoded_path (url_RawPath u) \<and> unescape (url_RawPath u) EncodePath = Inr (url_Path u)
      then url_RawPath u
      else if url_Path u = ''*'' then ''*''
      else escape (url_Path u) EncodePath)"

definition userinfo_String :: "userinfo \<Rightarrow> string" where
  "userinfo_String ui =
     escape (user_name ui) EncodeUserPassword @
     (case user_password ui of None \<Rightarrow> '''' | Some p \<Rightarrow> '':'' @ escape p EncodeUserPassword)"

definition url_String :: "url \<Rightarrow> string" where
  "url_String u =
     (let scheme = (if url_Scheme u \<noteq> '''' then url_Scheme u @ '':'' else '''');
          body = (if url_Opaque u \<noteq> '''' then scheme @ url_Opaque u
            else (let auth = (if url_Scheme u \<noteq> '''' \<or> url_Host u \<noteq> '''' \<or> url_User u \<noteq> None
                    then (if url_Host u \<noteq> '''' \<or> url_Path u \<noteq> '''' \<or> url_User u \<noteq> None then ''//'' else '''') @
                         (case url_User u of None \<Rightarrow> '''' | Some ui \<Rightarrow> userinfo_String ui @ ''@'') @
                         escape (url_Host u) EncodeHost
                    else '''');
                  path = EscapedPath u;
                  slash = (if path \<noteq> '''' \<and> hd path \<noteq> CHR ''/'' \<and> url_Host u \<noteq> '''' then ''/'' else '''');
                  dot = (if scheme @ auth @ slash = '''' \<and> colon_before_slash path then ''./'' else '''')
              in scheme @ auth @ slash @ dot @ path))
      in body @ (if url_ForceQuery u \<or> url_RawQuery u \<noteq> '''' then ''?'' @ url_RawQuery u else '''') @
         (if url_Fragment u \<noteq> '''' then ''#'' @ escape (url_Fragment u) EncodeFragment else ''''))"

definition url_Query :: "url \<Rightarrow> url_values" where
  "url_Query u = fst (parseQuery Map.empty None (url_RawQuery u))"

lemma values_Add_proper: "proper_values v \<Longrightarrow> proper_values (values_Add v k x)"
  by (auto simp: proper_values_def values_Add_def)

lemma parseQuery_proper: "proper_values m \<Longrightarrow> proper_values (fst (parseQuery m err q))"
proof (induction m err q rule: parseQuery.induct)
  case (1 m err query)
  show ?case
  proof (cases "query = ''''")
    case True
    with "1.prems" show ?thesis by (simp add: parseQuery.simps)
  next
    case False
    obtain piece rest where sp: "split_at query_separator query = (piece, rest)" by fastforce
    note step = parseQuery.simps [of m err query]
    show ?thesis
    proof (cases "piece = ''''")
      case True
      with False sp "1.IH"(1) [OF False sp [symmetric] refl True "1.prems"] step show ?thesis by simp
    next
      case piece: False
      show ?thesis
      proof (cases "parse_pair piece")
        case (Inl e)
        with False sp piece "1.IH"(2) [OF False sp [symmetric] refl piece Inl "1.prems"] step show ?thesis by simp
      next
        case (Inr kx)
        obtain k x where kx: "kx = (k, x)" by fastforce
        with "1.IH"(3) [OF False sp [symmetric] refl piece Inr, of k x] False sp piece Inr step
          values_Add_proper [OF "1.prems"]
        show ?thesis by simp
      qed
    qed
  qed
qed

lemma url_Query_proper: "proper_values (url_Query u)"
  unfolding url_Query_def by (rule parseQuery_proper) (simp add: proper_values_def)

lemma finite_dom_values_Add: "finite (dom v) \<Longrightarrow> finite (dom (values_Add v k x))"
  by (simp add: values_Add_def)

lemma parseQuery_finite: "finite (dom m) \<Longrightarrow> finite (dom (fst (parseQuery m err q)))"
proof (induction m err q rule: parseQuery.induct)
  case (1 m err query)
  obtain piece rest where sp: "split_at query_separator query = (piece, rest)" by fastforce
  note step = parseQuery.simps [of m err query]
  show ?case
  proof (cases "query = '''' \<or> piece = ''''")
    case True
    with "1.IH"(1) [OF _ sp [symmetric] refl _ "1.prems"] sp step "1.prems" show ?thesis by auto
  next
    case False
    show ?thesis
    proof (cases "parse_pair piece")
      case (Inl e)
      with False sp "1.IH"(2) [OF _ sp [symmetric] refl _ Inl "1.prems"] step show ?thesis by simp
    next
      case (Inr kx)
      obtain k x where kx: "kx = (k, x)" by fastforce
      with "1.IH"(3) [OF _ sp [symmetric] refl _ Inr, of k x] False sp Inr step
        finite_dom_values_Add [OF "1.prems"]
      show ?thesis by simp
    qed
  qed
qed

lemma url_Query_finite: "finite (dom (url_Query u))"
  unfolding url_Query_def by (rule parseQuery_finite) simp

lemma Encode_any_order:
  assumes "ranges_over ks v" and "ranges_over ks' v"
  shows "Encode ks v = Encode ks' v"
proof -
  have "sort ks = sort ks'"
    using assms by (intro sorted_distinct_set_unique) (auto simp: ranges_over_def)
  then show ?thesis by (simp add: Encode_def)
qed

end
