(* ===== verification/Http_Header.thy ===== *)
theory Http_Header
  imports Go_Strings
begin

section \<open>HTTP headers: \<open>net/http\<close>'s \<open>Header\<close>\<close>

text \<open>
  A \<open>http.Header\<close> maps keys to lists of values; its methods canonicalise the key they are given
  (\<open>textproto.CanonicalMIMEHeaderKey\<close>), while a direct index of the map does not. The locale
  \<open>header_store\<close> is the contract the repository's clients rely on (what \<open>Get\<close> returns after
  \<open>Set\<close>, \<open>Add\<close> and \<open>Del\<close>); it is interpreted below on the four methods.
\<close>

type_synonym header = "string \<rightharpoonup> string list"

subsection \<open>Canonical keys\<close>

definition valid_field_byte :: "char \<Rightarrow> bool" where
  "valid_field_byte c \<longleftrightarrow>
     (let n = (of_char c :: nat) in
      (48 \<le> n \<and> n \<le> 57) \<or> (65 \<le> n \<and> n \<le> 90) \<or> (97 \<le> n \<and> n \<le> 122) \<or>
      n \<in> {33, 35, 36, 37, 38, 39, 42, 43, 45, 46, 94, 95, 96, 124, 126})"

fun canon_from :: "bool \<Rightarrow> string \<Rightarrow> string" where
  "canon_from upper [] = []"
| "canon_from upper (c # s) =
     (let c' = (if upper then upper_byte c else lower_byte c) in c' # canon_from (c' = CHR ''-'') s)"

definition CanonicalMIMEHeaderKey :: "string \<Rightarrow> string" where
  "CanonicalMIMEHeaderKey s = (if list_all valid_field_byte s then canon_from True s else s)"

lemma valid_letter:
  "65 \<le> (of_char c :: nat) \<Longrightarrow> (of_char c :: nat) \<le> 90 \<Longrightarrow> valid_field_byte c"
  "97 \<le> (of_char c :: nat) \<Longrightarrow> (of_char c :: nat) \<le> 122 \<Longrightarrow> valid_field_byte c"
  by (simp_all add: valid_field_byte_def Let_def)

lemma valid_upper_byte:
  assumes "valid_field_byte c"
  shows "valid_field_byte (upper_byte c)"
proof (cases "97 \<le> (of_char c :: nat) \<and> (of_char c :: nat) \<le> 122")
  case True
  then show ?thesis by (intro valid_letter(1)) (simp_all add: of_char_upper_byte, linarith+)
next
  case False
  then have "upper_byte c = c" by (auto simp: upper_byte_def)
  with assms show ?thesis by simp
qed

lemma valid_lower_byte:
  assumes "valid_field_byte c"
  shows "valid_field_byte (lower_byte c)"
proof (cases "65 \<le> (of_char c :: nat) \<and> (of_char c :: nat) \<le> 90")
  case True
  then show ?thesis by (intro valid_letter(2)) (simp_all add: of_char_lower_byte)
next
  case False
  then have "lower_byte c = c" by (auto simp: lower_byte_def)
  with assms show ?thesis by simp
qed

lemma upper_byte_idem [simp]: "upper_byte (upper_byte c) = upper_byte c"
  using of_char_upper_byte [of c] by (auto simp: upper_byte_def [of "upper_byte c"])

lemma valid_canon_from: "list_all valid_field_byte s \<Longrightarrow> list_all valid_field_byte (canon_from u s)"
  by (induction s arbitrary: u) (auto simp: Let_def valid_upper_byte valid_lower_byte)

lemma canon_from_idem: "canon_from u (canon_from u s) = canon_from u s"
  by (induction s arbitrary: u) (auto simp: Let_def)

lemma canonical_idem [simp]:
  "CanonicalMIMEHeaderKey (CanonicalMIMEHeaderKey s) = CanonicalMIMEHeaderKey s"
  by (auto simp: CanonicalMIMEHeaderKey_def valid_canon_from canon_from_idem)

definition canonical :: "string \<Rightarrow> bool" where
  "canonical k \<longleftrightarrow> CanonicalMIMEHeaderKey k = k"

text \<open>Evaluating the canonical form of a literal key.\<close>

lemmas canonical_eval =
  CanonicalMIMEHeaderKey_def valid_field_byte_def upper_byte_def lower_byte_def Let_def

subsection \<open>The methods\<close>

definition header_values :: "header \<Rightarrow> string \<Rightarrow> string list" where
  "header_values h key = (case h (CanonicalMIMEHeaderKey key) of None \<Rightarrow> [] | Some vs \<Rightarrow> vs)"

definition header_Get :: "header \<Rightarrow> string \<Rightarrow> string" where
  "header_Get h key = (case header_values h key of [] \<Rightarrow> '''' | v # vs \<Rightarrow> v)"

definition header_Set :: "header \<Rightarrow> string \<Rightarrow> string \<Rightarrow> header" where
  "header_Set h key v = h(CanonicalMIMEHeaderKey key \<mapsto> [v])"

definition header_Add :: "header \<Rightarrow> string \<Rightarrow> string \<Rightarrow> header" where
  "header_Add h key v = h(CanonicalMIMEHeaderKey key \<mapsto> header_values h key @ [v])"

definition header_Del :: "header \<Rightarrow> string \<Rightarrow> header" where
  "header_Del h key = h(CanonicalMIMEHeaderKey key := None)"

subsection \<open>The contract\<close>

locale header_store =
  fixes canon :: "'k \<Rightarrow> 'k"
    and vals :: "'h \<Rightarrow> 'k \<Rightarrow> 'v list"
    and put :: "'h \<Rightarrow> 'k \<Rightarrow> 'v \<Rightarrow> 'h"
    and add :: "'h \<Rightarrow> 'k \<Rightarrow> 'v \<Rightarrow> 'h"
    and del :: "'h \<Rightarrow> 'k \<Rightarrow> 'h"
  assumes canon_idem: "canon (canon k) = canon k"
    and vals_canon: "vals h (canon k) = vals h k"
    and vals_put: "vals (put h k v) k' = (if canon k' = canon k then [v] else vals h k')"
    and vals_add: "vals (add h k v) k' = (if canon k' = canon k then vals h k @ [v] else vals h k')"
    and vals_del: "vals (del h k) k' = (if canon k' = canon k then [] else vals h k')"
begin

lemma put_twice: "vals (put (put h k v) k w) k' = vals (put h k w) k'"
  by (simp add: vals_put)

lemma put_commute:
  "canon k \<noteq> canon l \<Longrightarrow> vals (put (put h k v) l w) k' = vals (put (put h l w) k v) k'"
  by (simp add: vals_put)

lemma put_after_add: "vals (put (add h k v) k w) k' = vals (put h k w) k'"
  by (simp add: vals_put vals_add)

lemma put_any_spelling: "canon k = canon l \<Longrightarrow> vals (put h k v) k' = vals (put h l v) k'"
  by (simp add: vals_put)

text \<open>A sequence of \<open>put\<close>s: the last one under a key decides, other keys are untouched.\<close>

lemma fold_put:
  "vals (foldl (\<lambda>h (k, v). put h k v) h kvs) k' =
     (let here = filter (\<lambda>(k, v). canon k = canon k') kvs in
      if here = [] then vals h k' else [snd (last here)])"
  by (induction kvs rule: rev_induct) (auto simp: Let_def split_beta vals_put)

end

interpretation hdr: header_store CanonicalMIMEHeaderKey header_values header_Set header_Add header_Del
  by unfold_locales (auto simp: header_values_def header_Set_def header_Add_def header_Del_def)

lemma Get_Set: "header_Get (header_Set h k v) k' =
    (if CanonicalMIMEHeaderKey k' = CanonicalMIMEHeaderKey k then v else header_Get h k')"
  by (simp add: header_Get_def hdr.vals_put)

lemma Get_Del: "header_Get (header_Del h k) k' =
    (if CanonicalMIMEHeaderKey k' = CanonicalMIMEHeaderKey k then '''' else header_Get h k')"
  by (simp add: header_Get_def hdr.vals_del)

end
