(* ===== verification/Http_Support.thy ===== *)
theory Http_Support
  imports Net_Url Http_Header
begin

section \<open>HTTP helpers: \<open>httpsupport/url.go\<close>, \<open>http_client.go\<close>, \<open>email.go\<close>\<close>

text \<open>
  URL composition from a request (scheme, host, developer mode), replacement of a host's first
  domain label, slashes at the end of a URL, the simple e-mail test, and reading and closing the body
  of a response. A response body is the sequence of results its \<open>Read\<close> method will give, together
  with whether \<open>Close\<close> was called and what it answers.
\<close>

subsection \<open>Requests and URLs\<close>

text \<open>
  A request as goa hands it out (\<open>goa.RequestData\<close>, which embeds \<open>*http.Request\<close>), with the fields the
  repository reads. A payload is a map (which may be nil), or a value of another type, which the code
  only hands to \<open>json.Marshal\<close>: \<open>Other_Payload\<close> carries what that gives, \<open>None\<close> for an error.
\<close>

datatype payload = Map_Payload "(string \<rightharpoonup> gval) option" | Other_Payload "string option"

record request_data =
  req_Method :: string
  req_Host :: string
  req_URL :: "url option"
  req_Header :: header
  req_RemoteAddr :: string
  req_ContentLength :: int
  req_Params :: "string \<rightharpoonup> string list"
  req_Payload :: payload

text \<open>A \<open>Configuration\<close> that may be nil; it only says whether the developer mode is on.\<close>

type_synonym http_config = "bool option"

definition Host :: "request_data \<Rightarrow> http_config \<Rightarrow> string" where
  "Host req config = (if config = Some True then ''auth.openshift.io'' else req_Host req)"

definition forwarded_scheme :: "url option \<Rightarrow> header \<Rightarrow> string" where
  "forwarded_scheme u hs =
     (let scheme = (case u of None \<Rightarrow> ''http''
                    | Some v \<Rightarrow> if url_Scheme v = ''https'' then ''https'' else ''http'');
          xForwardProto = header_Get hs ''X-Forwarded-Proto''
      in if xForwardProto \<noteq> '''' then xForwardProto else scheme)"

definition absoluteURLForHost :: "request_data \<Rightarrow> string \<Rightarrow> string \<Rightarrow> string" where
  "absoluteURLForHost req host relative =
     Sprintf ''%s://%s%s''
       [VString (forwarded_scheme (req_URL req) (req_Header req)), VString host, VString relative]"

definition AbsoluteURL :: "request_data \<Rightarrow> string \<Rightarrow> http_config \<Rightarrow> string" where
  "AbsoluteURL req relative config = absoluteURLForHost req (Host req config) relative"

text \<open>Both results of the Go function are kept: on an error it returns the host unchanged beside it.\<close>

definition ReplaceDomainPrefix :: "string \<Rightarrow> string \<Rightarrow> string \<times> goerror option" where
  "ReplaceDomainPrefix host replaceBy =
     (let split = SplitN2 host (CHR ''.'') in
      if length split < 2
      then (host, Some (BadParameterError (Expected (NewBadParameterError ''host'' (VString host))
                          (VString ''must contain more than one domain''))))
      else if replaceBy = '''' then (split ! 1, None)
      else (replaceBy @ ''.'' @ split ! 1, None))"

definition ReplaceDomainPrefixInAbsoluteURL :: "request_data \<Rightarrow> string \<Rightarrow> string \<Rightarrow> http_config
    \<Rightarrow> string \<times> goerror option" where
  "ReplaceDomainPrefixInAbsoluteURL req replaceBy relative config =
     (case ReplaceDomainPrefix (Host req config) replaceBy of
        (newHost, Some err) \<Rightarrow> ('''', Some err)
      | (newHost, None) \<Rightarrow> (absoluteURLForHost req newHost relative, None))"

definition AddTrailingSlashToURL :: "string \<Rightarrow> string" where
  "AddTrailingSlashToURL u = (if u \<noteq> '''' \<and> \<not> HasSuffix u ''/'' then u @ ''/'' else u)"

definition RemoveTrailingSlashFromURL :: "string \<Rightarrow> string" where
  "RemoveTrailingSlashFromURL u = (if u \<noteq> '''' \<and> HasSuffix u ''/'' then take (length u - 1) u else u)"

subsection \<open>Query parameters\<close>

text \<open>
  \<open>AddParams\<close> ranges over the map of parameters, and \<open>Encode\<close> over the values of the URL: \<open>ks\<close> and
  \<open>order\<close> are the orders the runtime picks.
\<close>

definition AddParams :: "string list \<Rightarrow> (url_values \<Rightarrow> string list) \<Rightarrow> string \<Rightarrow> (string \<rightharpoonup> string)
    \<Rightarrow> goerror + string" where
  "AddParams ks order urlString params =
     (case url_Parse urlString of
        Inl err \<Rightarrow> Inl err
      | Inr parsedURL \<Rightarrow>
          (let parameters = foldl (\<lambda>v k. values_Add v k (the (params k))) (url_Query parsedURL) ks in
           Inr (url_String (parsedURL\<lparr>url_RawQuery := Encode (order parameters) parameters\<rparr>))))"

definition AddParam :: "(url_values \<Rightarrow> string list) \<Rightarrow> string \<Rightarrow> string \<Rightarrow> string \<Rightarrow> goerror + string" where
  "AddParam order urlString paramName paramValue =
     AddParams [paramName] order urlString [paramName \<mapsto> paramValue]"

subsection \<open>HTTP clients and their options\<close>

text \<open>
  A \<open>*http.Client\<close> with the one field the options set, its transport. An option changes the client it
  is given a pointer to, here a function from the old to the new contents; \<open>http.DefaultClient\<close> is a
  variable of the standard library, part of the state of the functions that use it.
\<close>

record 'rt http_client =
  client_Transport :: "'rt option"

type_synonym 'rt http_client_option = "'rt http_client \<Rightarrow> 'rt http_client"

definition WithRoundTripper :: "'rt option \<Rightarrow> 'rt http_client_option" where
  "WithRoundTripper r client = client\<lparr>client_Transport := r\<rparr>"

definition apply_options :: "'rt http_client_option list \<Rightarrow> 'rt http_client \<Rightarrow> 'rt http_client" where
  "apply_options options client = foldl (\<lambda>c opt. opt c) client options"

text \<open>
  The doer goa's generated clients are given: it hands the request to the client it holds, which is a
  parameter with a state of its own, and does not use the context.
\<close>

record ('q, 'p, 'w) HTTPClientDoer =
  doer_HTTPClient :: "'q \<Rightarrow> 'w \<Rightarrow> ('p option \<times> goerror option) \<times> 'w"

definition DefaultHTTPDoer :: "('q \<Rightarrow> 'w \<Rightarrow> ('p option \<times> goerror option) \<times> 'w) \<Rightarrow> ('q, 'p, 'w) HTTPClientDoer" where
  "DefaultHTTPDoer DefaultClient = \<lparr>doer_HTTPClient = DefaultClient\<rparr>"

definition HTTPClientDoer_Do :: "('q, 'p, 'w) HTTPClientDoer \<Rightarrow> 'c \<Rightarrow> 'q \<Rightarrow> 'w \<Rightarrow> ('p option \<times> goerror option) \<times> 'w" where
  "HTTPClientDoer_Do d ctx req w = doer_HTTPClient d req w"

subsection \<open>The e-mail test\<close>

text \<open>
  \<open>regexp.MatchString\<close> on the fragment of regular expressions used: literals, one-or-more of the dot
  (any character but a newline), and sequences. \<open>re_rests\<close> lists what may be left of the input after
  a match at its front; a match may start anywhere.
\<close>

datatype re = Lit char | DotPlus | Seq re re

primrec dot_plus :: "string \<Rightarrow> string list" where
  "dot_plus [] = []"
| "dot_plus (c # s) = (if c = CHR 0x0A then [] else s # dot_plus s)"

primrec re_rests :: "re \<Rightarrow> string \<Rightarrow> string list" where
  "re_rests (Lit d) s = (case s of [] \<Rightarrow> [] | c # t \<Rightarrow> if c = d then [t] else [])"
| "re_rests DotPlus s = dot_plus s"
| "re_rests (Seq a b) s = concat (map (re_rests b) (re_rests a s))"

definition MatchString :: "re \<Rightarrow> string \<Rightarrow> bool" where
  "MatchString r s \<longleftrightarrow> list_ex (\<lambda>n. re_rests r (drop n s) \<noteq> []) [0..<Suc (length s)]"

definition email_pattern :: re where
  "email_pattern = Seq DotPlus (Seq (Lit (CHR ''@'')) (Seq DotPlus (Seq (Lit (CHR ''.'')) DotPlus)))"

text \<open>The pattern is a constant that compiles, so the error result is always nil.\<close>

definition ValidateEmail :: "string \<Rightarrow> bool \<times> goerror option" where
  "ValidateEmail email = (MatchString email_pattern email, None)"

subsection \<open>Response bodies\<close>

definition io_EOF :: goerror where
  "io_EOF = std_errors_New ''EOF''"

record body =
  body_reads :: "(string \<times> goerror option) list"
  body_closes :: nat
  body_close_result :: "goerror option"

text \<open>
  Reading to the end, as \<open>ioutil.ReadAll\<close> and \<open>Buffer.ReadFrom\<close> do: \<open>io.EOF\<close> ends the loop and is
  not reported; any other error is. A reader whose list is exhausted answers \<open>io.EOF\<close>.
\<close>

fun read_to_end :: "(string \<times> goerror option) list \<Rightarrow> string \<times> goerror option \<times> (string \<times> goerror option) list" where
  "read_to_end [] = ('''', None, [])"
| "read_to_end ((s, err) # rest) =
     (case err of
        Some e \<Rightarrow> (if e = io_EOF then (s, None, rest) else (s, Some e, rest))
      | None \<Rightarrow> (let (t, err', rest') = read_to_end rest in (s @ t, err', rest')))"

definition ReadAll :: "body \<Rightarrow> string \<times> goerror option \<times> body" where
  "ReadAll b = (let (s, err, rest) = read_to_end (body_reads b) in (s, err, b\<lparr>body_reads := rest\<rparr>))"

definition body_Close :: "body \<Rightarrow> goerror option \<times> body" where
  "body_Close b = (body_close_result b, b\<lparr>body_closes := Suc (body_closes b)\<rparr>)"

definition ReadBody :: "body \<Rightarrow> string \<times> goerror option \<times> body" where
  "ReadBody b =
     (let (s, err, b') = ReadAll b in
      case err of Some e \<Rightarrow> ('''', Some e, b') | None \<Rightarrow> (s, None, b'))"

definition CloseResponse :: "body \<Rightarrow> goerror option \<times> body" where
  "CloseResponse b =
     (let (_, err, b') = ReadAll b in
      if err \<noteq> Some io_EOF then (err, b') else body_Close b')"


subsection \<open>Lemmas\<close>

lemma dot_plus_iff:
  "t \<in> set (dot_plus s) \<longleftrightarrow> (\<exists>a. s = a @ t \<and> a \<noteq> [] \<and> CHR 0x0A \<notin> set a)"
proof (induction s)
  case Nil
  then show ?case by simp
next
  case (Cons c s)
  have "(\<exists>a. c # s = a @ t \<and> a \<noteq> [] \<and> CHR 0x0A \<notin> set a) \<longleftrightarrow>
        c \<noteq> CHR 0x0A \<and> (t = s \<or> (\<exists>a. s = a @ t \<and> a \<noteq> [] \<and> CHR 0x0A \<notin> set a))"
    (is "?l \<longleftrightarrow> ?r")
  proof
    assume ?l
    then obtain a where a: "c # s = a @ t" "a \<noteq> []" "CHR 0x0A \<notin> set a" by blast
    then obtain a' where "a = c # a'" "s = a' @ t" by (cases a) auto
    with a(3) show ?r by (cases "a' = []") auto
  next
    assume r: ?r
    then consider "t = s" | a where "s = a @ t" "a \<noteq> []" "CHR 0x0A \<notin> set a" by blast
    then show ?l
    proof cases
      case 1
      with r show ?thesis by (intro exI [of _ "[c]"]) simp
    next
      case 2
      with r show ?thesis by (intro exI [of _ "c # a"]) simp
    qed
  qed
  with Cons show ?case by auto
qed

lemma Lit_rests_iff: "t \<in> set (re_rests (Lit d) s) \<longleftrightarrow> s = d # t"
  by (auto split: list.splits)

lemma Seq_rests_iff:
  "u \<in> set (re_rests (Seq a b) s) \<longleftrightarrow> (\<exists>t. t \<in> set (re_rests a s) \<and> u \<in> set (re_rests b t))"
  by auto

lemma DotPlus_rests_iff:
  "t \<in> set (re_rests DotPlus s) \<longleftrightarrow> (\<exists>a. s = a @ t \<and> a \<noteq> [] \<and> CHR 0x0A \<notin> set a)"
  by (simp add: dot_plus_iff)

lemma email_rests_iff:
  "u \<in> set (re_rests email_pattern t) \<longleftrightarrow>
     (\<exists>a b c. t = a @ ''@'' @ b @ ''.'' @ c @ u \<and> a \<noteq> '''' \<and> b \<noteq> '''' \<and> c \<noteq> '''' \<and>
        CHR 0x0A \<notin> set (a @ b @ c))"
proof
  assume "u \<in> set (re_rests email_pattern t)"
  then show "\<exists>a b c. t = a @ ''@'' @ b @ ''.'' @ c @ u \<and> a \<noteq> '''' \<and> b \<noteq> '''' \<and> c \<noteq> '''' \<and>
      CHR 0x0A \<notin> set (a @ b @ c)"
    unfolding email_pattern_def Seq_rests_iff DotPlus_rests_iff Lit_rests_iff by fastforce
next
  assume "\<exists>a b c. t = a @ ''@'' @ b @ ''.'' @ c @ u \<and> a \<noteq> '''' \<and> b \<noteq> '''' \<and> c \<noteq> '''' \<and>
      CHR 0x0A \<notin> set (a @ b @ c)"
  then obtain a b c where t: "t = a @ (CHR ''@'' # b @ (CHR ''.'' # c @ u))"
    and ne: "a \<noteq> ''''" "b \<noteq> ''''" "c \<noteq> ''''" "CHR 0x0A \<notin> set a" "CHR 0x0A \<notin> set b" "CHR 0x0A \<notin> set c"
    by auto
  then show "u \<in> set (re_rests email_pattern t)"
    unfolding email_pattern_def Seq_rests_iff DotPlus_rests_iff Lit_rests_iff by blast
qed

lemma MatchString_iff: "MatchString r s \<longleftrightarrow> (\<exists>pre t. s = pre @ t \<and> re_rests r t \<noteq> [])"
proof
  assume "MatchString r s"
  then obtain n where "re_rests r (drop n s) \<noteq> []" unfolding MatchString_def list_ex_iff by blast
  then show "\<exists>pre t. s = pre @ t \<and> re_rests r t \<noteq> []" by (metis append_take_drop_id)
next
  assume "\<exists>pre t. s = pre @ t \<and> re_rests r t \<noteq> []"
  then obtain pre t where st: "s = pre @ t" "re_rests r t \<noteq> []" by blast
  then have "length pre \<in> set [0..<Suc (length s)] \<and> re_rests r (drop (length pre) s) \<noteq> []" by simp
  then show "MatchString r s" unfolding MatchString_def list_ex_iff by blast
qed

lemma read_to_end_no_EOF: "read_to_end rs = (s, err, rest) \<Longrightarrow> err \<noteq> Some io_EOF"
  by (induction rs arbitrary: s err rest rule: read_to_end.induct)
    (auto split: option.splits if_splits prod.splits)

lemma read_to_end_clean:
  "list_all (\<lambda>(s, err). err = None) rs \<Longrightarrow>
   read_to_end (rs @ (s, Some io_EOF) # rest) = (concat (map fst rs) @ s, None, rest)"
  by (induction rs) auto

lemma read_to_end_error:
  "list_all (\<lambda>(s, err). err = None) rs \<Longrightarrow> e \<noteq> io_EOF \<Longrightarrow>
   read_to_end (rs @ (s, Some e) # rest) = (concat (map fst rs) @ s, Some e, rest)"
  by (induction rs) auto

lemma foldl_add_proper:
  "proper_values v \<Longrightarrow> proper_values (foldl (\<lambda>v k. values_Add v k (f k)) v ks)"
  by (induction ks arbitrary: v) (simp_all add: values_Add_proper)

lemma foldl_add_values:
  "distinct ks \<Longrightarrow> foldl (\<lambda>v k. values_Add v k (f k)) v ks =
     (\<lambda>k. if k \<in> set ks then Some ((case v k of None \<Rightarrow> [] | Some xs \<Rightarrow> xs) @ [f k]) else v k)"
  by (induction ks arbitrary: v) (auto simp: values_Add_def fun_eq_iff)

subsection \<open>The properties\<close>

text \<open>C37: \<open>AddParams\<close> on a URL that parses changes its query and nothing else, and the query it prints
  parses back to the values the URL had, with every new value appended at the end of its key; the
  result does not depend on the order in which the maps are ranged over. A URL that does not parse
  gives the parser's error.\<close>

theorem add_params_spec:
  assumes "ranges_over ks params" and "ranges_over ks' params"
    and "\<forall>v. finite (dom v) \<longrightarrow> ranges_over (order v) v" and "\<forall>v. finite (dom v) \<longrightarrow> ranges_over (order' v) v"
  shows "(url_Parse s = Inl e \<longrightarrow> AddParams ks order s params = Inl e) \<and>
    (url_Parse s = Inr u \<longrightarrow>
      (\<exists>q. AddParams ks order s params = Inr (url_String (u\<lparr>url_RawQuery := q\<rparr>)) \<and>
         AddParams ks' order' s params = AddParams ks order s params \<and>
         parseQuery Map.empty None q =
           ((\<lambda>k. case params k of
                Some x \<Rightarrow> Some ((case url_Query u k of None \<Rightarrow> [] | Some xs \<Rightarrow> xs) @ [x])
              | None \<Rightarrow> url_Query u k), None)))"
proof -
  define v where "v = (\<lambda>k. case params k of
      Some x \<Rightarrow> Some ((case url_Query u k of None \<Rightarrow> [] | Some xs \<Rightarrow> xs) @ [x]) | None \<Rightarrow> url_Query u k)"
  have fold: "foldl (\<lambda>v k. values_Add v k (the (params k))) (url_Query u) js = v" if "ranges_over js params" for js
    using that by (auto simp: v_def ranges_over_def foldl_add_values fun_eq_iff split: option.splits)
  have "dom v \<subseteq> dom (url_Query u) \<union> dom params" by (auto simp: v_def dom_def split: option.splits)
  then have fin: "finite (dom v)"
    using url_Query_finite ranges_over_finite [OF assms(1)] by (meson finite_UnI finite_subset)
  have "proper_values v" using foldl_add_proper [OF url_Query_proper, of "\<lambda>k. the (params k)" u ks] fold [OF assms(1)] by simp
  from parseQuery_Encode [OF assms(3) [rule_format, OF fin] this]
    Encode_any_order [OF assms(3) [rule_format, OF fin] assms(4) [rule_format, OF fin]]
  show ?thesis
    using fold [OF assms(1)] fold [OF assms(2)] by (auto simp: AddParams_def v_def [symmetric])
qed

theorem add_params_spec_witness:
  "\<exists>q. AddParams [''p''] (\<lambda>v. sorted_list_of_set (dom v)) ''/a?x=1'' [''p'' \<mapsto> ''b c''] =
        Inr (url_String (empty_url\<lparr>url_Path := ''/a'', url_RawQuery := q\<rparr>)) \<and>
      parseQuery Map.empty None q = ([''x'' \<mapsto> [''1''], ''p'' \<mapsto> [''b c'']], None)"
proof -
  have parse: "url_Parse ''/a?x=1'' = Inr (empty_url\<lparr>url_Path := ''/a'', url_RawQuery := ''x=1''\<rparr>)"
    by code_simp
  have query: "url_Query (empty_url\<lparr>url_Path := ''/a'', url_RawQuery := ''x=1''\<rparr>) = [''x'' \<mapsto> [''1'']]"
    by (simp add: url_Query_def parseQuery.simps split_at_def query_separator_def parse_pair_def values_Add_def)
  have order: "\<forall>v :: url_values. finite (dom v) \<longrightarrow> ranges_over (sorted_list_of_set (dom v)) v"
    by (simp add: ranges_over_def)
  have ks: "ranges_over [''p''] [''p'' \<mapsto> ''b c'']" by (simp add: ranges_over_def)
  have merge: "(\<lambda>k. case [''p'' \<mapsto> ''b c''] k of
        Some x \<Rightarrow> Some ((case [''x'' \<mapsto> [''1'']] k of None \<Rightarrow> [] | Some xs \<Rightarrow> xs) @ [x])
      | None \<Rightarrow> [''x'' \<mapsto> [''1'']] k) = [''x'' \<mapsto> [''1''], ''p'' \<mapsto> [''b c'']]"
    by (auto simp: fun_eq_iff)
  from add_params_spec [OF ks ks order order, of "''/a?x=1''" undefined
      "empty_url\<lparr>url_Path := ''/a'', url_RawQuery := ''x=1''\<rparr>"]
  show ?thesis by (simp only: parse query merge simp_thms) auto
qed

text \<open>C38: \<open>ReplaceDomainPrefix\<close> replaces exactly the part of the host before its first dot, drops it
  with the dot when the replacement is empty, refuses a host without a dot with a bad-parameter error
  (and still returns the host), and a second replacement overrides the first one when the first
  replacement has no dot. The absolute URL built from it keeps that host between the scheme and the
  relative part, or is empty on the error.\<close>

theorem replace_domain_prefix_spec:
  assumes "CHR ''.'' \<notin> set p" and "CHR ''.'' \<notin> set a" and "a \<noteq> ''''"
  shows "ReplaceDomainPrefix (p @ CHR ''.'' # rest) r = (if r = '''' then rest else r @ ''.'' @ rest, None) \<and>
    (\<exists>b. ReplaceDomainPrefix p r = (p, Some (BadParameterError b)) \<and> parameter b = ''host'' \<and> actual_value b = VString p) \<and>
    ReplaceDomainPrefix (fst (ReplaceDomainPrefix (p @ CHR ''.'' # rest) a)) r =
      ReplaceDomainPrefix (p @ CHR ''.'' # rest) r \<and>
    ReplaceDomainPrefixInAbsoluteURL (req\<lparr>req_Host := p @ CHR ''.'' # rest\<rparr>) a relative config =
      (if config = Some True then ReplaceDomainPrefixInAbsoluteURL req a relative config
       else (forwarded_scheme (req_URL req) (req_Header req) @ ''://'' @ a @ ''.'' @ rest @ relative, None)) \<and>
    (\<exists>b. ReplaceDomainPrefixInAbsoluteURL (req\<lparr>req_Host := p\<rparr>) a relative None = ('''', Some (BadParameterError b)))"
  using assms SplitN2_append [OF assms(1), of rest] SplitN2_append [OF assms(2), of rest]
  by (auto simp: ReplaceDomainPrefix_def SplitN2_def [of p] Expected_def NewBadParameterError_def
      ReplaceDomainPrefixInAbsoluteURL_def Host_def absoluteURLForHost_def print_arg_def extra_args_def)

theorem replace_domain_prefix_spec_witness:
  "ReplaceDomainPrefix ''api.service.org'' ''sso'' = (''sso.service.org'', None) \<and>
   ReplaceDomainPrefix ''api.service.org'' '''' = (''service.org'', None)"
  using replace_domain_prefix_spec [of "''api''" "''auth''" "''service.org''" "''sso''" undefined "''''" None]
    replace_domain_prefix_spec [of "''api''" "''auth''" "''service.org''" "''''" undefined "''''" None]
  by simp

text \<open>\<open>ValidateEmail\<close> accepts exactly the strings that contain, anywhere, a non-empty run without a
  newline, an at sign, another such run, a dot and a third run; it never reports an error.\<close>

theorem validate_email_spec:
  "ValidateEmail email =
     ((\<exists>pre a b c post. email = pre @ a @ ''@'' @ b @ ''.'' @ c @ post \<and>
         a \<noteq> '''' \<and> b \<noteq> '''' \<and> c \<noteq> '''' \<and> CHR 0x0A \<notin> set (a @ b @ c)), None)"
proof -
  have ne: "re_rests email_pattern t \<noteq> [] \<longleftrightarrow> (\<exists>u. u \<in> set (re_rests email_pattern t))" for t
    by (cases "re_rests email_pattern t") auto
  show ?thesis
    unfolding ValidateEmail_def MatchString_iff ne email_rests_iff prod.inject
  proof (intro conjI refl iffI)
    assume "\<exists>pre t. email = pre @ t \<and> (\<exists>u a b c. t = a @ ''@'' @ b @ ''.'' @ c @ u \<and> a \<noteq> '''' \<and> b \<noteq> '''' \<and>
        c \<noteq> '''' \<and> CHR 0x0A \<notin> set (a @ b @ c))"
    then show "\<exists>pre a b c post. email = pre @ a @ ''@'' @ b @ ''.'' @ c @ post \<and>
        a \<noteq> '''' \<and> b \<noteq> '''' \<and> c \<noteq> '''' \<and> CHR 0x0A \<notin> set (a @ b @ c)"
      by (elim exE conjE, intro exI conjI) (simp only:)
  qed blast
qed

text \<open>\<open>CloseResponse\<close> reads the body to its end and returns the reading error, but never closes
  the body: reading to the end reports no error at the end of the file, so the comparison with
  \<open>io.EOF\<close> always takes the early return. \<open>ReadBody\<close> returns the concatenation of the chunks, or the
  empty string with the first error.\<close>

theorem close_response_never_closes:
  "body_closes (snd (CloseResponse b)) = body_closes b \<and>
   fst (CloseResponse b) = fst (snd (ReadAll b)) \<and>
   (list_all (\<lambda>(s, err). err = None) chunks \<longrightarrow>
      CloseResponse (b\<lparr>body_reads := chunks @ [(s, Some io_EOF)]\<rparr>) = (None, b\<lparr>body_reads := []\<rparr>) \<and>
      ReadBody (b\<lparr>body_reads := chunks @ [(s, Some io_EOF)]\<rparr>) = (concat (map fst chunks) @ s, None, b\<lparr>body_reads := []\<rparr>) \<and>
      (e \<noteq> io_EOF \<longrightarrow>
        ReadBody (b\<lparr>body_reads := chunks @ (s, Some e) # rest\<rparr>) = ('''', Some e, b\<lparr>body_reads := rest\<rparr>)))"
proof -
  obtain s' err rest' where r: "read_to_end (body_reads b) = (s', err, rest')" by (metis prod_cases3)
  with read_to_end_no_EOF [OF r] show ?thesis
    using read_to_end_clean [of chunks s "[]"] read_to_end_error [of chunks e s rest]
    by (auto simp: CloseResponse_def ReadBody_def ReadAll_def Let_def)
qed

theorem close_response_never_closes_witness:
  "CloseResponse \<lparr>body_reads = [(''ok'', None), ('''', Some io_EOF)], body_closes = 0, body_close_result = None\<rparr> =
   (None, \<lparr>body_reads = [], body_closes = 0, body_close_result = None\<rparr>)"
  using close_response_never_closes [of "\<lparr>body_reads = [], body_closes = 0, body_close_result = None\<rparr>"
      "[(''ok'', None)]" "''''"] by simp

end
