(* ===== verification/Jwk.thy ===== *)
theory Jwk
  imports Http_Support
begin

section \<open>Fetching public keys: \<open>auth/jwk/fetch_keys.go\<close>\<close>

text \<open>
  The state is the standard library's default HTTP client, which the options change for the whole
  process, and the network \<open>'w\<close>. Sending a request is the parameter \<open>net_Do\<close>. RSA keys are values of
  type \<open>'k\<close>; decoding them is \<open>go-jose\<close>'s, a parameter with \<open>encoding/json\<close>, whose values the code
  passes on without looking at them (type \<open>'j\<close>).
\<close>

record http_response =
  res_Status :: string
  res_StatusCode :: int
  res_Body :: body

definition StatusOK :: int where "StatusOK = 200"

record ('rt, 'w) net =
  default_client :: "'rt http_client"
  network :: 'w

type_synonym ('rt, 'w) net_Do = "'rt http_client \<Rightarrow> string \<Rightarrow> string \<Rightarrow> 'w \<Rightarrow> (goerror + http_response) \<times> 'w"

record 'k jose_key =
  jk_KeyID :: string
  jk_rsa :: "'k option"

record ('j, 'k) key_codec =
  json_Unmarshal_keys :: "string \<Rightarrow> goerror + 'j list"
  json_Marshal :: "'j \<Rightarrow> goerror + string"
  jose_UnmarshalJSON :: "string \<Rightarrow> goerror + 'k jose_key"

record 'k public_key =
  pk_KeyID :: string
  pk_Key :: 'k

definition unmarshalKey :: "('j, 'k) key_codec \<Rightarrow> string \<Rightarrow> goerror + 'k public_key" where
  "unmarshalKey C jsonData =
     (case jose_UnmarshalJSON C jsonData of
        Inl err \<Rightarrow> Inl err
      | Inr key \<Rightarrow>
          (case jk_rsa key of
             None \<Rightarrow> Inl (std_errors_New ''Key is not an *rsa.PublicKey'')
           | Some rsaKey \<Rightarrow> Inr \<lparr>pk_KeyID = jk_KeyID key, pk_Key = rsaKey\<rparr>))"

fun unmarshal_loop :: "('j, 'k) key_codec \<Rightarrow> 'k public_key list \<Rightarrow> 'j list \<Rightarrow> goerror + 'k public_key list" where
  "unmarshal_loop C keys [] = Inr keys"
| "unmarshal_loop C keys (key # rest) =
     (case json_Marshal C key of
        Inl err \<Rightarrow> Inl err
      | Inr jsonKeyData \<Rightarrow>
          (case unmarshalKey C jsonKeyData of
             Inl err \<Rightarrow> Inl err
           | Inr publicKey \<Rightarrow> unmarshal_loop C (keys @ [publicKey]) rest))"

definition unmarshalKeys :: "('j, 'k) key_codec \<Rightarrow> string \<Rightarrow> goerror + 'k public_key list" where
  "unmarshalKeys C jsonData =
     (case json_Unmarshal_keys C jsonData of Inl err \<Rightarrow> Inl err | Inr raw \<Rightarrow> unmarshal_loop C [] raw)"

text \<open>
  \<open>FetchKeys\<close> also returns the body as the deferred \<open>CloseResponse\<close> leaves it, where a response came.
  A request for a URL that does not parse is refused before anything is sent.
\<close>

definition FetchKeys :: "pkg_errors \<Rightarrow> ('rt, 'w) net_Do \<Rightarrow> ('j, 'k) key_codec \<Rightarrow> string \<Rightarrow> 'rt http_client_option list
    \<Rightarrow> ('rt, 'w) net \<Rightarrow> (goerror + 'k public_key list) \<times> body option \<times> ('rt, 'w) net" where
  "FetchKeys P do_request C keysEndpointURL options n =
     (let n1 = n\<lparr>default_client := apply_options options (default_client n)\<rparr> in
      case url_Parse keysEndpointURL of
        Inl err \<Rightarrow> (Inl err, None, n1)
      | Inr u \<Rightarrow>
          (case do_request (default_client n1) ''GET'' keysEndpointURL (network n1) of
             (Inl err, w) \<Rightarrow> (Inl err, None, n1\<lparr>network := w\<rparr>)
           | (Inr res, w) \<Rightarrow>
               (let (bodyString, err, b) = ReadBody (res_Body res);
                    final = snd (CloseResponse b);
                    n2 = n1\<lparr>network := w\<rparr>
                in case err of
                     Some e \<Rightarrow>
                       (Inl (the (errs_Wrapf P (Some e) ''unable to read response while fetching keys'')), Some final, n2)
                   | None \<Rightarrow>
                       (if res_StatusCode res \<noteq> StatusOK
                        then (Inl (errs_New P ''unable to obtain public keys from remote service''), Some final, n2)
                        else (unmarshalKeys C bodyString, Some final, n2)))))"

subsection \<open>Lemmas\<close>

text \<open>The abstract contract: decode each key of the document, in order.\<close>

definition decode_key :: "('j, 'k) key_codec \<Rightarrow> 'j \<Rightarrow> goerror + 'k public_key" where
  "decode_key C j = (case json_Marshal C j of Inl e \<Rightarrow> Inl e | Inr d \<Rightarrow> unmarshalKey C d)"

lemma unmarshal_loop_decodes:
  "unmarshal_loop C keys js = Inr out \<longleftrightarrow>
     (\<exists>ks. out = keys @ ks \<and> list_all2 (\<lambda>j k. decode_key C j = Inr k) js ks)"
proof (induction js arbitrary: keys)
  case Nil
  then show ?case by auto
next
  case (Cons j js)
  show ?case
  proof (cases "decode_key C j")
    case (Inl e)
    then show ?thesis
      by (auto simp: list_all2_Cons1 decode_key_def split: sum.splits)
  next
    case (Inr k)
    then have "unmarshal_loop C keys (j # js) = unmarshal_loop C (keys @ [k]) js"
      by (auto simp: decode_key_def split: sum.splits)
    with Inr Cons.IH [of "keys @ [k]"] show ?thesis by (auto simp: list_all2_Cons1)
  qed
qed

lemma unmarshal_loop_first_error:
  "list_all2 (\<lambda>j k. decode_key C j = Inr k) js ks \<Longrightarrow> decode_key C bad = Inl e \<Longrightarrow>
   unmarshal_loop C keys (js @ bad # rest) = Inl e"
proof (induction js ks arbitrary: keys rule: list_all2_induct)
  case Nil
  then show ?case by (auto simp: decode_key_def split: sum.splits)
next
  case (Cons j js k ks)
  then show ?case by (auto simp: decode_key_def split: sum.splits)
qed

lemma CloseResponse_closes: "body_closes (snd (CloseResponse b)) = body_closes b"
proof -
  obtain s err rest where r: "read_to_end (body_reads b) = (s, err, rest)" by (metis prod_cases3)
  with read_to_end_no_EOF [OF r] show ?thesis by (auto simp: CloseResponse_def ReadAll_def)
qed

lemma ReadBody_closes: "ReadBody b = (s, err, b') \<Longrightarrow> body_closes b' = body_closes b"
  by (auto simp: ReadBody_def ReadAll_def split: prod.splits option.splits)

text \<open>C36: \<open>FetchKeys\<close> succeeds exactly when its URL parses, the endpoint answers 200 with a body that can be read and a
  document all of whose keys are RSA keys, and then returns those keys with their IDs in the order of
  the document; one key of another kind fails the whole fetch. A URL that does not parse is refused before anything is sent,
  and the error of a request that fails is returned as it is. Whatever happens, the transport given as an option stays
  installed in the process-wide default client, and the response body is never closed.\<close>

theorem fetch_keys_spec:
  assumes "FetchKeys P do_request C endpoint options n = (r, final, n')"
  shows "case url_Parse endpoint of
      Inl e \<Rightarrow> r = Inl e \<and> final = None \<and> n' = n\<lparr>default_client := apply_options options (default_client n)\<rparr>
    | Inr u \<Rightarrow>
       (let (answer, w) = do_request (apply_options options (default_client n)) ''GET'' endpoint (network n) in
        n' = \<lparr>default_client = apply_options options (default_client n), network = w\<rparr> \<and>
        (case answer of
           Inl e \<Rightarrow> r = Inl e \<and> final = None
         | Inr res \<Rightarrow>
            (let (text, err, _) = ReadBody (res_Body res) in
               (\<forall>ks. r = Inr ks \<longleftrightarrow> err = None \<and> res_StatusCode res = 200 \<and>
                  (\<exists>js. json_Unmarshal_keys C text = Inr js \<and> list_all2 (\<lambda>j k. decode_key C j = Inr k) js ks))) \<and>
            (\<exists>b. final = Some b \<and> body_closes b = body_closes (res_Body res))))"
proof -
  have keys: "unmarshalKeys C str = Inr ks \<longleftrightarrow>
      (\<exists>js. json_Unmarshal_keys C str = Inr js \<and> list_all2 (\<lambda>j k. decode_key C j = Inr k) js ks)" for str ks
    by (auto simp: unmarshalKeys_def unmarshal_loop_decodes split: sum.splits)
  obtain answer w where answer: "do_request (apply_options options (default_client n)) ''GET'' endpoint (network n) = (answer, w)"
    by fastforce
  have n: "n\<lparr>default_client := c, network := w\<rparr> = \<lparr>default_client = c, network = w\<rparr>" for c by simp
  show ?thesis
  proof (cases "\<exists>u res. url_Parse endpoint = Inr u \<and> answer = Inr res")
    case False
    with assms answer n show ?thesis by (auto simp: FetchKeys_def split: sum.splits)
  next
    case True
    then obtain u res where ok: "url_Parse endpoint = Inr u" "answer = Inr res" by blast
    obtain str err b where body: "ReadBody (res_Body res) = (str, err, b)" by (metis prod_cases3)
    have "r = (case err of Some e \<Rightarrow> Inl (the (errs_Wrapf P (Some e) ''unable to read response while fetching keys''))
        | None \<Rightarrow> if res_StatusCode res \<noteq> 200 then Inl (errs_New P ''unable to obtain public keys from remote service'')
                  else unmarshalKeys C str)"
      "final = Some (snd (CloseResponse b))" "n' = \<lparr>default_client = apply_options options (default_client n), network = w\<rparr>"
      using assms answer ok body n by (auto simp: FetchKeys_def StatusOK_def Let_def split: option.splits if_splits)
    then show ?thesis
      using CloseResponse_closes [of b] ReadBody_closes [OF body] unfolding ok sum.case answer Let_def prod.case body
      by (auto simp: keys split: option.splits)
  qed
qed

text \<open>
  Where a fetched key comes from: the endpoint answered 200 with a document that lists it under its ID.
\<close>

definition published :: "('rt, 'w) net_Do \<Rightarrow> ('j, 'k) key_codec \<Rightarrow> string \<Rightarrow> 'rt http_client_option list
    \<Rightarrow> ('rt, 'w) net \<Rightarrow> string \<Rightarrow> 'k \<Rightarrow> bool" where
  "published do_request C endpoint options n i k \<longleftrightarrow>
     (\<exists>res w str b js. do_request (apply_options options (default_client n)) ''GET'' endpoint (network n) = (Inr res, w) \<and>
        res_StatusCode res = 200 \<and> ReadBody (res_Body res) = (str, None, b) \<and> json_Unmarshal_keys C str = Inr js \<and>
        (\<exists>j \<in> set js. decode_key C j = Inr \<lparr>pk_KeyID = i, pk_Key = k\<rparr>))"

lemma list_all2_preimage: "list_all2 R xs ys \<Longrightarrow> y \<in> set ys \<Longrightarrow> \<exists>x \<in> set xs. R x y"
  by (induction rule: list_all2_induct) auto

lemma FetchKeys_published:
  assumes "FetchKeys P do_request C endpoint options n = (Inr ks, final, n')" and "key \<in> set ks"
  shows "published do_request C endpoint options n (pk_KeyID key) (pk_Key key)"
proof -
  obtain res w str b where got:
      "do_request (apply_options options (default_client n)) ''GET'' endpoint (network n) = (Inr res, w)"
      "res_StatusCode res = 200" "ReadBody (res_Body res) = (str, None, b)" "unmarshalKeys C str = Inr ks"
    using assms(1) by (auto simp: FetchKeys_def Let_def StatusOK_def split: sum.splits prod.splits option.splits if_splits)
  then obtain js where js: "json_Unmarshal_keys C str = Inr js" "list_all2 (\<lambda>j k. decode_key C j = Inr k) js ks"
    by (auto simp: unmarshalKeys_def unmarshal_loop_decodes split: sum.splits)
  from list_all2_preimage [OF js(2) assms(2)] obtain j where "j \<in> set js" "decode_key C j = Inr key" by blast
  with got js(1) show ?thesis unfolding published_def by (cases key) force
qed

definition ex_codec :: "(string, string) key_codec" where
  "ex_codec = \<lparr>json_Unmarshal_keys = (\<lambda>s. Inr (Split s (CHR '','') )), json_Marshal = Inr,
     jose_UnmarshalJSON = (\<lambda>s. Inr \<lparr>jk_KeyID = s, jk_rsa = Some s\<rparr>)\<rparr>"

theorem fetch_keys_spec_witness:
  "fst (FetchKeys documented_errs
      (\<lambda>c m u w. (Inr \<lparr>res_Status = ''200 OK'', res_StatusCode = 200,
         res_Body = \<lparr>body_reads = [(''a,b'', Some io_EOF)], body_closes = 0, body_close_result = None\<rparr>\<rparr>, w))
      ex_codec ''/keys'' [WithRoundTripper (Some (1::nat))] \<lparr>default_client = \<lparr>client_Transport = None\<rparr>, network = ()\<rparr>) =
    Inr [\<lparr>pk_KeyID = ''a'', pk_Key = ''a''\<rparr>, \<lparr>pk_KeyID = ''b'', pk_Key = ''b''\<rparr>]"
proof -
  let ?b = "\<lparr>body_reads = [(''a,b'', Some io_EOF)], body_closes = 0, body_close_result = None\<rparr> :: body"
  let ?res = "\<lparr>res_Status = ''200 OK'', res_StatusCode = 200, res_Body = ?b\<rparr>"
  let ?do = "\<lambda>(c :: nat http_client) (m :: string) (u :: string) w. (Inr ?res :: goerror + http_response, w)"
  let ?n = "\<lparr>default_client = \<lparr>client_Transport = None\<rparr>, network = ()\<rparr> :: (nat, unit) net"
  obtain r final n' where f: "FetchKeys documented_errs ?do ex_codec ''/keys'' [WithRoundTripper (Some 1)] ?n = (r, final, n')"
    by (metis prod_cases3)
  have u: "url_Parse ''/keys'' = Inr (empty_url\<lparr>url_Path := ''/keys''\<rparr>)" by code_simp
  have body: "ReadBody ?b = (''a,b'', None, ?b\<lparr>body_reads := []\<rparr>)"
    by (simp add: ReadBody_def ReadAll_def)
  have call: "?do (apply_options [WithRoundTripper (Some 1)] (default_client ?n)) ''GET'' ''/keys'' (network ?n) = (Inr ?res, ())"
    by simp
  have b: "ReadBody (res_Body ?res) = (''a,b'', None, ?b\<lparr>body_reads := []\<rparr>)" using body by simp
  have "r = Inr [\<lparr>pk_KeyID = ''a'', pk_Key = ''a''\<rparr>, \<lparr>pk_KeyID = ''b'', pk_Key = ''b''\<rparr>]"
    using fetch_keys_spec [OF f] unfolding u sum.case Let_def call prod.case b by (simp add: ex_codec_def decode_key_def unmarshalKey_def)
  with f show ?thesis by simp
qed

end
