(* ===== verification/Context.thy ===== *)
theory Context
  imports Http_Support
begin

section \<open>Contexts and tokens: \<open>log/context.go\<close>, \<open>goasupport/forward_*.go\<close>\<close>

text \<open>
  Every request carries a \<open>context.Context\<close>, here a value of the type \<open>'c\<close> that the source only touches
  through the functions of goa (and the standard \<open>Value\<close>/\<open>WithValue\<close>). They are the fields of the
  parameter \<open>G\<close> of type \<open>goa_lib\<close>, and \<open>goa_ok\<close> states their documented behaviour: what each setter
  stores, its accessor returns, and it changes nothing else. A JWT token is what \<open>jwt-go\<close> makes of a
  token string; its claims have the dynamic type the caller of the parser chose.
\<close>

subsection \<open>Tokens\<close>

record standard_claims =
  sc_Subject :: string
  sc_Audience :: string
  sc_Issuer :: string
  sc_Id :: string
  sc_ExpiresAt :: int
  sc_IssuedAt :: int
  sc_NotBefore :: int

record permissions =
  ResourceSetName :: "string option"
  ResourceSetID :: "string option"
  Scopes :: "string list"
  Expiry :: int

record token_claims =
  tc_Name :: string
  tc_Username :: string
  tc_GivenName :: string
  tc_FamilyName :: string
  tc_Email :: string
  tc_EmailVerified :: bool
  tc_Company :: string
  tc_SessionState :: string
  tc_Approved :: bool
  tc_Permissions :: "permissions list option"
  tc_StandardClaims :: standard_claims

datatype claims =
    MapClaims "string \<Rightarrow> gval"
  | TokenClaims token_claims
  | OtherClaims

text \<open>A map of claims answers \<open>VNil\<close> for a key it does not have, as reading a Go map does.\<close>

record jwt_token =
  tok_Raw :: string
  tok_Header :: "string \<Rightarrow> gval"
  tok_Claims :: claims
  tok_Valid :: bool

subsection \<open>Contexts\<close>

text \<open>The response goa keeps in the context: a pointer to a value the handlers change.\<close>

record goa_response =
  rp_Status :: int
  rp_Length :: int
  rp_ErrorCode :: string
  rp_Header :: header

text \<open>Keys of \<open>context.WithValue\<close> are compared with their type: a key is its type and its number.\<close>

type_synonym ctx_key = "string \<times> nat"

datatype 'm stored = NoValue | AManager 'm | AValue gval

record ('c, 'm) goa_lib =
  ContextJWT :: "'c \<Rightarrow> jwt_token option"
  WithJWT :: "'c \<Rightarrow> jwt_token \<Rightarrow> 'c"
  mw_ContextRequestID :: "'c \<Rightarrow> string"
  client_ContextRequestID :: "'c \<Rightarrow> string"
  client_SetContextRequestID :: "'c \<Rightarrow> string \<Rightarrow> 'c"
  ContextRequest :: "'c \<Rightarrow> request_data option"
  ContextHasResponse :: "'c \<Rightarrow> bool"
  ContextController :: "'c \<Rightarrow> string"
  ContextAction :: "'c \<Rightarrow> string"
  WithLogContext :: "'c \<Rightarrow> string \<Rightarrow> gval \<Rightarrow> 'c"
  ctx_Value :: "'c \<Rightarrow> ctx_key \<Rightarrow> 'm stored"
  ctx_WithValue :: "'c \<Rightarrow> ctx_key \<Rightarrow> 'm stored \<Rightarrow> 'c"

definition same_request :: "('c, 'm) goa_lib \<Rightarrow> 'c \<Rightarrow> 'c \<Rightarrow> bool" where
  "same_request G c c' \<longleftrightarrow>
     mw_ContextRequestID G c' = mw_ContextRequestID G c \<and> ContextRequest G c' = ContextRequest G c \<and>
     ContextHasResponse G c' = ContextHasResponse G c \<and> ContextController G c' = ContextController G c \<and>
     ContextAction G c' = ContextAction G c"

definition goa_ok :: "('c, 'm) goa_lib \<Rightarrow> bool" where
  "goa_ok G \<longleftrightarrow>
     (\<forall>c t. ContextJWT G (WithJWT G c t) = Some t \<and> same_request G c (WithJWT G c t) \<and>
        client_ContextRequestID G (WithJWT G c t) = client_ContextRequestID G c \<and>
        ctx_Value G (WithJWT G c t) = ctx_Value G c) \<and>
     (\<forall>c i. client_ContextRequestID G (client_SetContextRequestID G c i) = i \<and>
        same_request G c (client_SetContextRequestID G c i) \<and>
        ContextJWT G (client_SetContextRequestID G c i) = ContextJWT G c \<and>
        ctx_Value G (client_SetContextRequestID G c i) = ctx_Value G c) \<and>
     (\<forall>c k v. ContextJWT G (WithLogContext G c k v) = ContextJWT G c \<and>
        same_request G c (WithLogContext G c k v) \<and>
        client_ContextRequestID G (WithLogContext G c k v) = client_ContextRequestID G c \<and>
        ctx_Value G (WithLogContext G c k v) = ctx_Value G c) \<and>
     (\<forall>c k v. ctx_Value G (ctx_WithValue G c k v) = (ctx_Value G c)(k := v) \<and>
        ContextJWT G (ctx_WithValue G c k v) = ContextJWT G c \<and>
        same_request G c (ctx_WithValue G c k v) \<and>
        client_ContextRequestID G (ctx_WithValue G c k v) = client_ContextRequestID G c)"

lemma WithJWT_ok:
  "goa_ok G \<Longrightarrow> ContextJWT G (WithJWT G c t) = Some t"
  "goa_ok G \<Longrightarrow> same_request G c (WithJWT G c t)"
  "goa_ok G \<Longrightarrow> client_ContextRequestID G (WithJWT G c t) = client_ContextRequestID G c"
  "goa_ok G \<Longrightarrow> ctx_Value G (WithJWT G c t) = ctx_Value G c"
  by (simp_all add: goa_ok_def del: split_paired_All)

lemma SetContextRequestID_ok:
  "goa_ok G \<Longrightarrow> client_ContextRequestID G (client_SetContextRequestID G c i) = i"
  "goa_ok G \<Longrightarrow> same_request G c (client_SetContextRequestID G c i)"
  "goa_ok G \<Longrightarrow> ContextJWT G (client_SetContextRequestID G c i) = ContextJWT G c"
  "goa_ok G \<Longrightarrow> ctx_Value G (client_SetContextRequestID G c i) = ctx_Value G c"
  by (simp_all add: goa_ok_def del: split_paired_All)

lemma WithLogContext_ok:
  "goa_ok G \<Longrightarrow> ContextJWT G (WithLogContext G c k v) = ContextJWT G c"
  "goa_ok G \<Longrightarrow> same_request G c (WithLogContext G c k v)"
  "goa_ok G \<Longrightarrow> client_ContextRequestID G (WithLogContext G c k v) = client_ContextRequestID G c"
  "goa_ok G \<Longrightarrow> ctx_Value G (WithLogContext G c k v) = ctx_Value G c"
  by (simp_all add: goa_ok_def del: split_paired_All)

lemma WithValue_ok:
  "goa_ok G \<Longrightarrow> ctx_Value G (ctx_WithValue G c k v) = (ctx_Value G c)(k := v)"
  "goa_ok G \<Longrightarrow> ContextJWT G (ctx_WithValue G c k v) = ContextJWT G c"
  "goa_ok G \<Longrightarrow> same_request G c (ctx_WithValue G c k v)"
  "goa_ok G \<Longrightarrow> client_ContextRequestID G (ctx_WithValue G c k v) = client_ContextRequestID G c"
  by (simp_all add: goa_ok_def del: split_paired_All)

text \<open>A context as the record of what its accessors answer, for evaluating concrete cases.\<close>

record 'm plain_context =
  pc_JWT :: "jwt_token option"
  pc_mw_id :: string
  pc_client_id :: string
  pc_request :: "request_data option"
  pc_response :: bool
  pc_controller :: string
  pc_action :: string
  pc_values :: "ctx_key \<Rightarrow> 'm stored"

definition plain_goa :: "('m plain_context, 'm) goa_lib" where
  "plain_goa =
     \<lparr>ContextJWT = pc_JWT, WithJWT = (\<lambda>c t. c\<lparr>pc_JWT := Some t\<rparr>), mw_ContextRequestID = pc_mw_id,
      client_ContextRequestID = pc_client_id, client_SetContextRequestID = (\<lambda>c i. c\<lparr>pc_client_id := i\<rparr>),
      ContextRequest = pc_request, ContextHasResponse = pc_response, ContextController = pc_controller,
      ContextAction = pc_action, WithLogContext = (\<lambda>c k v. c), ctx_Value = pc_values,
      ctx_WithValue = (\<lambda>c k v. c\<lparr>pc_values := (pc_values c)(k := v)\<rparr>)\<rparr>"

lemma plain_goa_ok: "goa_ok plain_goa"
  by (simp add: goa_ok_def plain_goa_def same_request_def)

definition background :: "'m plain_context" where
  "background = \<lparr>pc_JWT = None, pc_mw_id = '''', pc_client_id = '''', pc_request = None, pc_response = False,
     pc_controller = '''', pc_action = '''', pc_values = (\<lambda>k. NoValue)\<rparr>"

subsection \<open>\<open>log/context.go\<close>\<close>

text \<open>
  The type assertion on the claims panics when they are not a \<open>jwt.MapClaims\<close>, and \<open>id.(string)\<close> when
  the claim is there and not a string.
\<close>

definition map_claims :: "jwt_token \<Rightarrow> (string \<Rightarrow> gval) go" where
  "map_claims t = (case tok_Claims t of MapClaims m \<Rightarrow> Ret m | _ \<Rightarrow> Panic ''interface conversion'')"

definition extractIdentityID :: "pkg_errors \<Rightarrow> ('c, 'm) goa_lib \<Rightarrow> 'c \<Rightarrow> (goerror + string) go" where
  "extractIdentityID P G ctx =
     (case ContextJWT G ctx of
        None \<Rightarrow> Ret (Inl (errs_New P ''Missing token''))
      | Some token \<Rightarrow>
          go_bind (map_claims token) (\<lambda>m.
            let id = m ''sub'' in
            if id = VNil then Ret (Inl (errs_New P ''Missing sub''))
            else (case as_string id of Some s \<Rightarrow> Ret (Inr s) | None \<Rightarrow> Panic ''interface conversion'')))"

definition ExtractRequestID :: "('c, 'm) goa_lib \<Rightarrow> 'c option \<Rightarrow> string" where
  "ExtractRequestID G ctx =
     (case ctx of
        None \<Rightarrow> ''''
      | Some c \<Rightarrow>
          (let reqID = mw_ContextRequestID G c in
           if reqID = '''' then client_ContextRequestID G c else reqID))"

subsection \<open>\<open>goasupport\<close>: forwarding the request ID and the token\<close>

definition ForwardContextRequestID :: "('c, 'm) goa_lib \<Rightarrow> 'c \<Rightarrow> 'c" where
  "ForwardContextRequestID G ctx =
     (let reqID = mw_ContextRequestID G ctx in
      if reqID \<noteq> '''' then client_SetContextRequestID G ctx reqID else ctx)"

record forwardSigner =
  fs_token :: string

definition Sign :: "forwardSigner \<Rightarrow> header \<Rightarrow> header" where
  "Sign f request = header_Set request ''Authorization'' (''Bearer '' @ fs_token f)"

definition NewForwardSigner :: "('c, 'm) goa_lib \<Rightarrow> 'c \<Rightarrow> forwardSigner option" where
  "NewForwardSigner G ctx =
     (case ContextJWT G ctx of None \<Rightarrow> None | Some token \<Rightarrow> Some \<lparr>fs_token = tok_Raw token\<rparr>)"

lemma extractIdentityID_panics:
  "panics (extractIdentityID P G ctx) \<longleftrightarrow>
     (\<exists>t. ContextJWT G ctx = Some t \<and>
        (\<forall>m. tok_Claims t = MapClaims m \<longrightarrow> m ''sub'' \<noteq> VNil \<and> as_string (m ''sub'') = None))"
proof (cases "ContextJWT G ctx")
  case None
  then show ?thesis by (simp add: extractIdentityID_def)
next
  case (Some t)
  then show ?thesis
    by (cases "tok_Claims t"; cases "the (Some (case tok_Claims t of MapClaims m \<Rightarrow> m ''sub'' | _ \<Rightarrow> VNil))")
      (simp_all add: extractIdentityID_def map_claims_def Let_def)
qed

text \<open>The request ID reaches the calls a service makes in turn: forwarding a context leaves the ID
  the log prints unchanged, hands the incoming ID to the client side when there is one, keeps token and
  request, and doing it twice changes nothing more. The signer made from a context with a token
  overwrites whatever \<open>Authorization\<close> header was there, under any spelling, with that raw token.\<close>

theorem forward_context_spec:
  assumes "goa_ok G"
  shows "ExtractRequestID G (Some (ForwardContextRequestID G ctx)) = ExtractRequestID G (Some ctx) \<and>
    client_ContextRequestID G (ForwardContextRequestID G ctx) = ExtractRequestID G (Some ctx) \<and>
    ContextJWT G (ForwardContextRequestID G ctx) = ContextJWT G ctx \<and>
    ContextRequest G (ForwardContextRequestID G ctx) = ContextRequest G ctx \<and>
    client_ContextRequestID G (ForwardContextRequestID G (ForwardContextRequestID G ctx)) =
      client_ContextRequestID G (ForwardContextRequestID G ctx) \<and>
    (\<forall>t. ContextJWT G ctx = Some t \<longrightarrow>
      (\<exists>s. NewForwardSigner G (ForwardContextRequestID G ctx) = Some s \<and>
        header_values (Sign s (header_Add h ''AUTHORIZATION'' old)) ''Authorization'' = [''Bearer '' @ tok_Raw t]))"
  using SetContextRequestID_ok [OF assms] hdr.vals_put
  by (simp add: ExtractRequestID_def ForwardContextRequestID_def Let_def same_request_def NewForwardSigner_def Sign_def)

theorem forward_context_spec_witness:
  "ExtractRequestID plain_goa (Some (ForwardContextRequestID plain_goa
     (background :: nat plain_context)\<lparr>pc_mw_id := ''r1''\<rparr>)) = ''r1''"
  using forward_context_spec [OF plain_goa_ok, of "(background :: nat plain_context)\<lparr>pc_mw_id := ''r1''\<rparr>"]
  by (simp add: ExtractRequestID_def plain_goa_def)

end
