(* ===== verification/Log.thy ===== *)
theory Log
  imports Context
begin

section \<open>Structured logging: \<open>log/log.go\<close>, \<open>log/log_request.go\<close>\<close>

text \<open>
  The package keeps its own logger beside the standard one of \<open>logrus\<close>. Logging is a trace: each call
  the package makes to \<open>logrus\<close> to emit an entry is a \<open>log_call\<close> (which of the two loggers, the level,
  the \<open>WithField\<close>/\<open>WithFields\<close> calls that built the entry, in order, and the message); what \<open>logrus\<close>
  then writes is not modelled. The caller that \<open>runtime.Caller(2)\<close> finds, the process ID and
  \<open>logrus.ParseLevel\<close> are parameters.
\<close>

subsection \<open>Levels and loggers\<close>

datatype level = PanicLevel | FatalLevel | ErrorLevel | WarnLevel | InfoLevel | DebugLevel | TraceLevel

primrec level_num :: "level \<Rightarrow> nat" where
  "level_num PanicLevel = 0"
| "level_num FatalLevel = 1"
| "level_num ErrorLevel = 2"
| "level_num WarnLevel = 3"
| "level_num InfoLevel = 4"
| "level_num DebugLevel = 5"
| "level_num TraceLevel = 6"

lemma level_num_inj: "level_num a = level_num b \<longleftrightarrow> a = b"
  by (cases a; cases b) simp_all

instantiation level :: linorder
begin

definition less_eq_level :: "level \<Rightarrow> level \<Rightarrow> bool" where
  "less_eq_level a b \<longleftrightarrow> level_num a \<le> level_num b"

definition less_level :: "level \<Rightarrow> level \<Rightarrow> bool" where
  "less_level a b \<longleftrightarrow> level_num a < level_num b"

instance
  by standard (auto simp: less_eq_level_def less_level_def level_num_inj)

end

datatype formatter = DefaultText | JSONFormatter string | TextFormatter string
datatype log_out = Stderr | Stdout

record logger =
  lg_Level :: level
  lg_Formatter :: formatter
  lg_Out :: log_out

datatype fval =
    FVal gval
  | FHeaders "string \<rightharpoonup> string + string list"
  | FMap "string \<rightharpoonup> gval"
  | FLists "string \<rightharpoonup> string list"
  | FStrs "string list"

datatype with_call = WithField string fval | WithFields "string \<rightharpoonup> fval"

datatype log_message = Formatted string "gval list" | Line string

record log_call =
  lc_std :: bool
  lc_level :: level
  lc_with :: "with_call list"
  lc_message :: log_message

record log_state =
  own :: logger
  std :: logger
  emitted :: "log_call list"

text \<open>What \<open>logrus.New()\<close> returns, and the layout of time stamps.\<close>

definition log_New :: logger where
  "log_New = \<lparr>lg_Level = InfoLevel, lg_Formatter = DefaultText, lg_Out = Stderr\<rparr>"

definition timestamp_format :: string where
  "timestamp_format = ''2006-01-02 15:04:05''"

definition emit :: "log_call \<Rightarrow> log_state \<Rightarrow> log_state" where
  "emit c st = st\<lparr>emitted := emitted st @ [c]\<rparr>"

definition log_Warnf :: "string \<Rightarrow> gval list \<Rightarrow> log_state \<Rightarrow> log_state" where
  "log_Warnf format args =
     emit \<lparr>lc_std = True, lc_level = WarnLevel, lc_with = [], lc_message = Formatted format args\<rparr>"

definition unable_to_parse :: string where
  "unable_to_parse = ''unable to parse log level configuration error: %q''"

definition InitializeLogger :: "(string \<Rightarrow> goerror + level) \<Rightarrow> bool \<Rightarrow> string \<Rightarrow> log_state \<Rightarrow> log_state" where
  "InitializeLogger ParseLevel logJSON lvl st =
     (let (logLevel, st1) = (case ParseLevel lvl of
              Inl err \<Rightarrow> (ErrorLevel, log_Warnf unable_to_parse [VForeign ''error'' (text_of err) (text_of err)] st)
            | Inr l \<Rightarrow> (l, st));
          customFormatter = (if logJSON then JSONFormatter timestamp_format else TextFormatter timestamp_format)
      in st1\<lparr>own := \<lparr>lg_Level = logLevel, lg_Formatter = customFormatter, lg_Out = Stdout\<rparr>,
             std := (std st1)\<lparr>lg_Level := logLevel, lg_Formatter := customFormatter\<rparr>\<rparr>)"

definition NewCustomizedLogger :: "(string \<Rightarrow> goerror + level) \<Rightarrow> string \<Rightarrow> bool \<Rightarrow> log_state
    \<Rightarrow> (goerror + logger) \<times> log_state" where
  "NewCustomizedLogger ParseLevel level logJSON st =
     (case ParseLevel level of
        Inl err \<Rightarrow> (Inl err, st)
      | Inr lv \<Rightarrow>
          (let customFormatter = (if logJSON then JSONFormatter timestamp_format else TextFormatter timestamp_format);
               stdLevel = (if logJSON then InfoLevel else DebugLevel)
           in (Inr (log_New\<lparr>lg_Level := lv, lg_Formatter := customFormatter, lg_Out := Stdout\<rparr>),
               st\<lparr>std := (std st)\<lparr>lg_Level := stdLevel, lg_Formatter := customFormatter\<rparr>\<rparr>)))"

definition Logger :: "log_state \<Rightarrow> logger" where
  "Logger st = own st"

definition IsDebug :: "log_state \<Rightarrow> bool" where
  "IsDebug st \<longleftrightarrow> DebugLevel \<le> lg_Level (own st)"

text \<open>
  The initial level: what the configuration file names, or \<open>info\<close> when that is no level. A
  configuration that cannot be read is only reported (\<open>config.GetLogLevel\<close> then still answers).
\<close>

definition getDefaultLogLevel :: "(string \<Rightarrow> goerror + level) \<Rightarrow> goerror option \<Rightarrow> string \<Rightarrow> log_state
    \<Rightarrow> level \<times> log_state" where
  "getDefaultLogLevel ParseLevel config_err GetLogLevel st =
     (let st1 = (if config_err \<noteq> None
                 then emit \<lparr>lc_std = True, lc_level = ErrorLevel, lc_with = [],
                            lc_message = Formatted ''error getting configuration data'' []\<rparr> st
                 else st)
      in case ParseLevel GetLogLevel of
           Inl err \<Rightarrow> (InfoLevel, log_Warnf unable_to_parse [VForeign ''error'' (text_of err) (text_of err)] st1)
         | Inr l \<Rightarrow> (l, st1))"

subsection \<open>The caller\<close>

definition defaultPackageName :: string where
  "defaultPackageName = ''github.com/fabric8-services/fabric8-common/''"

text \<open>\<open>runtime.Caller(2)\<close>: file, line and the full name of the function, if there is such a frame.\<close>

type_synonym caller = "(string \<times> int \<times> string) option"

record caller_details =
  cd_file :: string
  cd_line :: int
  cd_pkg :: string
  cd_func :: string

definition extractCallerDetails :: "caller \<Rightarrow> (goerror + caller_details) go" where
  "extractCallerDetails caller =
     (case caller of
        None \<Rightarrow> Ret (Inl (std_errors_New ''unable to extract the caller details''))
      | Some (file, line, fName) \<Rightarrow>
          (let parts = Split fName (CHR ''.''); pl = length parts in
           if pl < 2 \<or> parts ! (pl - 2) = '''' then Panic ''index out of range''
           else (let pName = (if hd (parts ! (pl - 2)) = CHR ''('' then Join (take (pl - 2) parts) ''.''
                              else Join (take (pl - 1) parts) ''.'')
                 in Ret (Inr \<lparr>cd_file = file, cd_line = line, cd_pkg = RemoveAll defaultPackageName pName,
                              cd_func = fName\<rparr>))))"

subsection \<open>The logging functions\<close>

definition fstr :: "string \<Rightarrow> fval" where
  "fstr s = FVal (VString s)"

definition ctx_fields :: "pkg_errors \<Rightarrow> ('c, 'm) goa_lib \<Rightarrow> 'c \<Rightarrow> with_call list go" where
  "ctx_fields P G ctx =
     go_bind (extractIdentityID P G ctx) (\<lambda>r.
       Ret (WithField ''req_id'' (fstr (ExtractRequestID G (Some ctx))) #
            (case r of Inr identityID \<Rightarrow> [WithField ''identity_id'' (fstr identityID)] | Inl err \<Rightarrow> [])))"

definition opt_ctx_fields :: "pkg_errors \<Rightarrow> ('c, 'm) goa_lib \<Rightarrow> 'c option \<Rightarrow> with_call list go" where
  "opt_ctx_fields P G ctx = (case ctx of None \<Rightarrow> Ret [] | Some c \<Rightarrow> ctx_fields P G c)"

definition masked_headers :: "header \<Rightarrow> string \<rightharpoonup> string + string list" where
  "masked_headers h k =
     (if k = ''Authorization'' \<or> k = ''Cookie'' then map_option (\<lambda>v. Inl ''*****'') (h k)
      else map_option Inr (h k))"

definition payload_field :: "payload \<Rightarrow> fval" where
  "payload_field p =
     (case p of
        Map_Payload (Some mp) \<Rightarrow> FMap mp
      | Map_Payload None \<Rightarrow> fstr ''null''
      | Other_Payload (Some js) \<Rightarrow> fstr js
      | Other_Payload None \<Rightarrow> fstr ''<invalid JSON>'')"

definition request_fields :: "('c, 'm) goa_lib \<Rightarrow> 'c \<Rightarrow> with_call list" where
  "request_fields G ctx =
     (case ContextRequest G ctx of
        None \<Rightarrow> []
      | Some req \<Rightarrow>
          (if req_Header req \<noteq> Map.empty then [WithField ''req_headers'' (FHeaders (masked_headers (req_Header req)))] else []) @
          (if req_Params req \<noteq> Map.empty then [WithField ''req_params'' (FLists (req_Params req))] else []) @
          (if 0 < req_ContentLength req then [WithField ''req_payload'' (payload_field (req_Payload req))] else []))"

definition log_message_of :: "string \<Rightarrow> gval list \<Rightarrow> log_message" where
  "log_message_of format args = (if 0 < length args then Formatted format args else Line format)"

record ('c, 'm) log_env =
  env_P :: pkg_errors
  env_G :: "('c, 'm) goa_lib"
  env_pid :: int
  env_caller :: caller

definition log_Error :: "('c, 'm) log_env \<Rightarrow> 'c option \<Rightarrow> (string \<rightharpoonup> fval) \<Rightarrow> string \<Rightarrow> gval list \<Rightarrow> log_state \<Rightarrow> log_state go" where
  "log_Error env ctx kvs format args st =
     (if ErrorLevel \<le> lg_Level (own st) then
        go_bind (extractCallerDetails (env_caller env)) (\<lambda>d.
        go_bind (opt_ctx_fields (env_P env) (env_G env) ctx) (\<lambda>cf.
          Ret (emit \<lparr>lc_std = True, lc_level = ErrorLevel,
            lc_with = [WithField ''pid'' (FVal (VInt (env_pid env)))] @
              (case d of Inl err \<Rightarrow> []
               | Inr cd \<Rightarrow> [WithField ''file'' (fstr (cd_file cd)), WithField ''pkg'' (fstr (cd_pkg cd)),
                           WithField ''line'' (FVal (VInt (cd_line cd))), WithField ''func'' (fstr (cd_func cd))]) @
              cf @ (case ctx of None \<Rightarrow> [] | Some c \<Rightarrow> request_fields (env_G env) c) @ [WithFields kvs],
            lc_message = log_message_of format args\<rparr> st)))
      else Ret st)"

definition log_Warn :: "('c, 'm) log_env \<Rightarrow> 'c option \<Rightarrow> (string \<rightharpoonup> fval) \<Rightarrow> string \<Rightarrow> gval list \<Rightarrow> log_state \<Rightarrow> log_state go" where
  "log_Warn env ctx kvs format args st =
     (if WarnLevel \<le> lg_Level (own st) then
        go_bind (extractCallerDetails (env_caller env)) (\<lambda>d.
        go_bind (opt_ctx_fields (env_P env) (env_G env) ctx) (\<lambda>cf.
          Ret (emit \<lparr>lc_std = False, lc_level = WarnLevel,
            lc_with = (case d of Inl err \<Rightarrow> []
               | Inr cd \<Rightarrow> [WithField ''file'' (fstr (cd_file cd)), WithField ''pkg'' (fstr (cd_pkg cd)),
                           WithField ''func'' (fstr (cd_func cd))]) @ cf @ [WithFields kvs],
            lc_message = log_message_of format args\<rparr> st)))
      else Ret st)"

text \<open>\<open>Info\<close> and \<open>Debug\<close> differ in nothing but their level.\<close>

definition log_at :: "level \<Rightarrow> ('c, 'm) log_env \<Rightarrow> 'c option \<Rightarrow> (string \<rightharpoonup> fval) \<Rightarrow> string \<Rightarrow> gval list \<Rightarrow> log_state \<Rightarrow> log_state go" where
  "log_at lvl env ctx kvs format args st =
     (if lvl \<le> lg_Level (own st) then
        go_bind (extractCallerDetails (env_caller env)) (\<lambda>d.
        go_bind (opt_ctx_fields (env_P env) (env_G env) ctx) (\<lambda>cf.
          Ret (emit \<lparr>lc_std = False, lc_level = lvl,
            lc_with = (case d of Inl err \<Rightarrow> [] | Inr cd \<Rightarrow> [WithField ''pkg'' (fstr (cd_pkg cd))]) @
              cf @ [WithFields kvs],
            lc_message = log_message_of format args\<rparr> st)))
      else Ret st)"

definition log_Info :: "('c, 'm) log_env \<Rightarrow> 'c option \<Rightarrow> (string \<rightharpoonup> fval) \<Rightarrow> string \<Rightarrow> gval list \<Rightarrow> log_state \<Rightarrow> log_state go" where
  "log_Info = log_at InfoLevel"

definition log_Debug :: "('c, 'm) log_env \<Rightarrow> 'c option \<Rightarrow> (string \<rightharpoonup> fval) \<Rightarrow> string \<Rightarrow> gval list \<Rightarrow> log_state \<Rightarrow> log_state go" where
  "log_Debug = log_at DebugLevel"

text \<open>\<open>Panic\<close> is guarded by the error level; \<open>logrus\<close> panics after emitting the entry.\<close>

definition log_Panic :: "('c, 'm) log_env \<Rightarrow> 'c option \<Rightarrow> (string \<rightharpoonup> fval) \<Rightarrow> string \<Rightarrow> gval list \<Rightarrow> log_state \<Rightarrow> log_state go" where
  "log_Panic env ctx kvs format args st =
     (if ErrorLevel \<le> lg_Level (own st) then
        go_bind (opt_ctx_fields (env_P env) (env_G env) ctx) (\<lambda>cf.
          Panic (case log_message_of format args of Formatted f a \<Rightarrow> Sprintf f a | Line s \<Rightarrow> s))
      else Ret st)"


subsection \<open>Logging requests: \<open>log_request.go\<close>\<close>

definition reqIDKey :: ctx_key where
  "reqIDKey = (''log.middlewareKey'', 1)"

text \<open>\<open>base64.StdEncoding\<close> of six bytes, which are two groups of three.\<close>

definition base64_digits :: string where
  "base64_digits = ''ABCDEFGHIJKLMNOPQRSTUVWXYZabcdefghijklmnopqrstuvwxyz0123456789+/''"

definition base64_group :: "char \<Rightarrow> char \<Rightarrow> char \<Rightarrow> string" where
  "base64_group a b c =
     (let n = (of_char a * 65536 + of_char b * 256 + of_char c :: nat) in
      map (\<lambda>d. base64_digits ! d) [n div 262144 mod 64, n div 4096 mod 64, n div 64 mod 64, n mod 64])"

definition shortID :: "char \<times> char \<times> char \<times> char \<times> char \<times> char \<Rightarrow> string" where
  "shortID bytes = (case bytes of (a, b, c, d, e, f) \<Rightarrow> base64_group a b c @ base64_group d e f)"

text \<open>The host of \<open>net.SplitHostPort\<close>, \<open>None\<close> when it reports an error.\<close>

definition first_index :: "char \<Rightarrow> string \<Rightarrow> nat option" where
  "first_index c s = (if c \<in> set s then Some (length (takeWhile (\<lambda>x. x \<noteq> c) s)) else None)"

definition SplitHostPort :: "string \<Rightarrow> string option" where
  "SplitHostPort hostport =
     (case last_index (CHR '':'') hostport of
        None \<Rightarrow> None
      | Some i \<Rightarrow>
          if hd hostport = CHR ''['' then
            (case first_index (CHR '']'') hostport of
               None \<Rightarrow> None
             | Some e \<Rightarrow>
                 if e + 1 \<noteq> i then None
                 else if CHR ''['' \<in> set (drop 1 hostport) \<or> CHR '']'' \<in> set (drop (e + 1) hostport) then None
                 else Some (take (e - 1) (drop 1 hostport)))
          else if CHR '':'' \<in> set (take i hostport) \<or> CHR ''['' \<in> set hostport \<or> CHR '']'' \<in> set hostport then None
          else Some (take i hostport))"

definition log_from :: "request_data \<Rightarrow> string" where
  "log_from req =
     (let f = header_Get (req_Header req) ''X-Forwarded-For'' in
      if f \<noteq> '''' then f
      else (case SplitHostPort (req_RemoteAddr req) of None \<Rightarrow> req_RemoteAddr req | Some ip \<Rightarrow> ip))"

definition stored_val :: "'m stored \<Rightarrow> gval" where
  "stored_val v = (case v of NoValue \<Rightarrow> VNil | AValue x \<Rightarrow> x | AManager m \<Rightarrow> VForeign ''auth.Manager'' '''' '''')"

definition log_verbose :: "('c, 'm) log_env \<Rightarrow> 'c \<Rightarrow> request_data \<Rightarrow> log_state \<Rightarrow> log_state go" where
  "log_verbose env ctx r st =
     go_bind (if req_Header r \<noteq> Map.empty
       then log_Info env (Some ctx) (\<lambda>k. map_option FStrs (req_Header r k)) ''request headers'' [] st
       else Ret st) (\<lambda>st.
     go_bind (if req_Params r \<noteq> Map.empty
       then log_Info env (Some ctx) (\<lambda>k. map_option FStrs (req_Params r k)) ''request params'' [] st
       else Ret st) (\<lambda>st.
     if 0 < req_ContentLength r
     then (case req_Payload r of
             Map_Payload mp \<Rightarrow>
               log_Info env (Some ctx) (case mp of None \<Rightarrow> Map.empty | Some m \<Rightarrow> (\<lambda>k. map_option FVal (m k)))
                 ''request payload'' [] st
           | Other_Payload js \<Rightarrow>
               log_Info env (Some ctx)
                 [''raw'' \<mapsto> fstr (case js of None \<Rightarrow> ''<invalid JSON>'' | Some j \<Rightarrow> j)] ''payload'' [] st)
     else Ret st))"

definition completed_fields :: "('c, 'm) goa_lib \<Rightarrow> 'c \<Rightarrow> gval \<Rightarrow> string \<Rightarrow> goa_response \<Rightarrow> string \<rightharpoonup> fval" where
  "completed_fields G ctx duration identityID resp =
     (let m = [''status'' \<mapsto> FVal (VInt (rp_Status resp)), ''bytes'' \<mapsto> FVal (VInt (rp_Length resp)),
               ''duration'' \<mapsto> FVal duration, ''duration_unit'' \<mapsto> fstr ''ms'',
               ''ctrl'' \<mapsto> fstr (ContextController G ctx), ''action'' \<mapsto> fstr (ContextAction G ctx)];
          m1 = (if rp_ErrorCode resp \<noteq> '''' then m(''error'' \<mapsto> fstr (rp_ErrorCode resp)) else m)
      in if identityID \<noteq> '''' then m1(''identity_id'' \<mapsto> fstr identityID) else m1)"

text \<open>
  A goa handler works on the request and on the response, which is the one goa keeps in the context (here passed
  along); it may log, and it gives an error or nil.
\<close>

type_synonym 'c handler =
  "'c \<Rightarrow> request_data \<Rightarrow> goa_response \<Rightarrow> log_state \<Rightarrow> (goerror option \<times> goa_response \<times> log_state) go"

text \<open>
  The middleware. \<open>h\<close> is the next handler, \<open>bytes\<close> what \<open>rand.Reader\<close> gives and \<open>duration\<close> the
  measured time; the request \<open>r\<close> comes from the context, \<open>req\<close> is the handler's argument.
\<close>

definition LogRequest :: "('c, 'm) log_env \<Rightarrow> bool \<Rightarrow> char \<times> char \<times> char \<times> char \<times> char \<times> char \<Rightarrow> gval
    \<Rightarrow> 'c handler \<Rightarrow> 'c handler" where
  "LogRequest env verbose bytes duration h ctx0 req resp st0 =
     (let G = env_G env;
          reqID = (let v = stored_val (ctx_Value G ctx0 reqIDKey) in if v = VNil then VString (shortID bytes) else v);
          ctx = WithLogContext G ctx0 ''req_id'' reqID
      in case ContextRequest G ctx of
           None \<Rightarrow> Panic ''nil pointer dereference''
         | Some r \<Rightarrow>
             (case req_URL r of
                None \<Rightarrow> Panic ''nil pointer dereference''
              | Some u \<Rightarrow>
                  (let props = [req_Method r \<mapsto> fstr (url_String u), ''from'' \<mapsto> fstr (log_from req),
                         ''ctrl'' \<mapsto> fstr (ContextController G ctx), ''action'' \<mapsto> fstr (ContextAction G ctx)]
                   in go_bind (extractIdentityID (env_P env) G ctx) (\<lambda>id.
                      go_bind (log_Info env (Some ctx)
                        (case id of Inr i \<Rightarrow> props(''identity_id'' \<mapsto> fstr i) | Inl e \<Rightarrow> props) ''request started'' [] st0) (\<lambda>st1.
                      go_bind (if verbose then log_verbose env ctx r st1 else Ret st1) (\<lambda>st2.
                      go_bind (h ctx req resp st2) (\<lambda>(err, resp', st3).
                        if \<not> ContextHasResponse G ctx then Panic ''nil pointer dereference''
                        else go_bind (log_Info env (Some ctx)
                          (completed_fields G ctx duration (case id of Inr i \<Rightarrow> i | Inl e \<Rightarrow> '''') resp')
                          ''completed'' [] st3) (\<lambda>st4.
                        Ret (err, resp', st4)))))))))"


subsection \<open>Lemmas\<close>

text \<open>
  A context whose claims can be read: no token, or map claims whose \<open>sub\<close> is missing or a string.
  A caller whose name has the shape the Go runtime gives functions: a package path and a name, with
  something in front of the last dot.
\<close>

definition readable_identity :: "('c, 'm) goa_lib \<Rightarrow> 'c \<Rightarrow> bool" where
  "readable_identity G ctx \<longleftrightarrow>
     (\<forall>t. ContextJWT G ctx = Some t \<longrightarrow>
        (\<exists>m. tok_Claims t = MapClaims m \<and> (m ''sub'' = VNil \<or> (\<exists>s. m ''sub'' = VString s))))"

definition identity_of :: "('c, 'm) goa_lib \<Rightarrow> 'c \<Rightarrow> string option" where
  "identity_of G ctx =
     (case ContextJWT G ctx of
        None \<Rightarrow> None
      | Some t \<Rightarrow> (case tok_Claims t of MapClaims m \<Rightarrow> as_string (m ''sub'') | _ \<Rightarrow> None))"

definition good_caller :: "caller \<Rightarrow> bool" where
  "good_caller c \<longleftrightarrow>
     (case c of None \<Rightarrow> True
      | Some (file, line, fName) \<Rightarrow>
          (let parts = Split fName (CHR ''.'') in 2 \<le> length parts \<and> parts ! (length parts - 2) \<noteq> ''''))"

lemma extractIdentityID_readable:
  assumes "readable_identity G ctx"
  shows "\<exists>r. extractIdentityID P G ctx = Ret r \<and>
    (case identity_of G ctx of None \<Rightarrow> (\<exists>e. r = Inl e) | Some s \<Rightarrow> r = Inr s)"
proof (cases "ContextJWT G ctx")
  case None
  then show ?thesis by (simp add: extractIdentityID_def identity_of_def)
next
  case (Some t)
  with assms obtain m where "tok_Claims t = MapClaims m" "m ''sub'' = VNil \<or> (\<exists>s. m ''sub'' = VString s)"
    unfolding readable_identity_def by blast
  with Some show ?thesis
    by (auto simp: extractIdentityID_def identity_of_def map_claims_def)
qed

lemma ctx_fields_readable:
  assumes "readable_identity G ctx"
  shows "ctx_fields P G ctx = Ret (WithField ''req_id'' (fstr (ExtractRequestID G (Some ctx))) #
    (case identity_of G ctx of None \<Rightarrow> [] | Some s \<Rightarrow> [WithField ''identity_id'' (fstr s)]))"
  using extractIdentityID_readable [OF assms, of P]
  by (cases "identity_of G ctx") (auto simp: ctx_fields_def)

lemma extractCallerDetails_good: "good_caller c \<Longrightarrow> \<exists>d. extractCallerDetails c = Ret d"
  by (cases c) (auto simp: extractCallerDetails_def good_caller_def Let_def)

text \<open>The fields an entry gets from the context, in order.\<close>

definition context_part :: "('c, 'm) goa_lib \<Rightarrow> 'c option \<Rightarrow> with_call list" where
  "context_part G ctx =
     (case ctx of None \<Rightarrow> []
      | Some c \<Rightarrow> WithField ''req_id'' (fstr (ExtractRequestID G (Some c))) #
          (case identity_of G c of None \<Rightarrow> [] | Some s \<Rightarrow> [WithField ''identity_id'' (fstr s)]))"

lemma opt_ctx_fields_readable:
  "(\<forall>c. ctx = Some c \<longrightarrow> readable_identity G c) \<Longrightarrow> opt_ctx_fields P G ctx = Ret (context_part G ctx)"
  by (cases ctx) (auto simp: opt_ctx_fields_def context_part_def ctx_fields_readable)

definition fields_among :: "string list \<Rightarrow> with_call list \<Rightarrow> bool" where
  "fields_among ks ws \<longleftrightarrow> list_all (\<lambda>w. case w of WithField k v \<Rightarrow> k \<in> set ks | WithFields m \<Rightarrow> False) ws"

definition entry_ok :: "level \<Rightarrow> bool \<Rightarrow> ('c, 'm) goa_lib \<Rightarrow> 'c option \<Rightarrow> (string \<rightharpoonup> fval) \<Rightarrow> string \<Rightarrow> gval list
    \<Rightarrow> log_call \<Rightarrow> bool" where
  "entry_ok lvl to_std G ctx kvs format args c \<longleftrightarrow>
     lc_level c = lvl \<and> lc_std c = to_std \<and> lc_message c = log_message_of format args \<and>
     (\<exists>pre post. lc_with c = pre @ context_part G ctx @ post @ [WithFields kvs] \<and>
        fields_among [''pid'', ''file'', ''pkg'', ''line'', ''func''] pre \<and>
        fields_among [''req_headers'', ''req_params'', ''req_payload''] post)"

lemma entry_okI:
  assumes "fields_among [''pid'', ''file'', ''pkg'', ''line'', ''func''] pre"
    and "fields_among [''req_headers'', ''req_params'', ''req_payload''] post"
  shows "entry_ok lvl b G ctx kvs format args
    \<lparr>lc_std = b, lc_level = lvl, lc_with = pre @ context_part G ctx @ post @ [WithFields kvs],
     lc_message = log_message_of format args\<rparr>"
  unfolding entry_ok_def log_call.simps using assms by blast

lemma fields_among_Nil: "fields_among ks []"
  by (simp add: fields_among_def)

lemma request_fields_keys:
  "fields_among [''req_headers'', ''req_params'', ''req_payload''] (request_fields G c)"
  by (cases "ContextRequest G c") (simp_all add: request_fields_def fields_among_def)

lemma log_at_entry:
  assumes "good_caller (env_caller env)" and "\<forall>c. ctx = Some c \<longrightarrow> readable_identity (env_G env) c"
  shows "\<exists>c. log_at lvl env ctx kvs format args st = Ret (if lvl \<le> lg_Level (own st) then emit c st else st) \<and>
    entry_ok lvl False (env_G env) ctx kvs format args c"
proof -
  obtain d where d: "extractCallerDetails (env_caller env) = Ret d"
    using extractCallerDetails_good [OF assms(1)] by blast
  let ?pre = "case d of Inl err \<Rightarrow> [] | Inr cd \<Rightarrow> [WithField ''pkg'' (fstr (cd_pkg cd))]"
  have pre: "fields_among [''pid'', ''file'', ''pkg'', ''line'', ''func''] ?pre"
    by (cases d) (simp_all add: fields_among_def)
  let ?c = "\<lparr>lc_std = False, lc_level = lvl,
      lc_with = ?pre @ context_part (env_G env) ctx @ [] @ [WithFields kvs],
      lc_message = log_message_of format args\<rparr>"
  have "log_at lvl env ctx kvs format args st = Ret (if lvl \<le> lg_Level (own st) then emit ?c st else st)"
    by (simp add: log_at_def d opt_ctx_fields_readable [OF assms(2)])
  moreover have "entry_ok lvl False (env_G env) ctx kvs format args ?c"
    by (rule entry_okI [OF pre fields_among_Nil])
  ultimately show ?thesis by blast
qed

lemma log_Error_entry:
  assumes "good_caller (env_caller env)" and "\<forall>c. ctx = Some c \<longrightarrow> readable_identity (env_G env) c"
  shows "\<exists>c. log_Error env ctx kvs format args st = Ret (if ErrorLevel \<le> lg_Level (own st) then emit c st else st) \<and>
    entry_ok ErrorLevel True (env_G env) ctx kvs format args c \<and>
    (\<forall>c0. ctx = Some c0 \<longrightarrow> set (request_fields (env_G env) c0) \<subseteq> set (lc_with c))"
proof -
  obtain d where d: "extractCallerDetails (env_caller env) = Ret d"
    using extractCallerDetails_good [OF assms(1)] by blast
  let ?pre = "[WithField ''pid'' (FVal (VInt (env_pid env)))] @ (case d of Inl err \<Rightarrow> []
     | Inr cd \<Rightarrow> [WithField ''file'' (fstr (cd_file cd)), WithField ''pkg'' (fstr (cd_pkg cd)),
                 WithField ''line'' (FVal (VInt (cd_line cd))), WithField ''func'' (fstr (cd_func cd))])"
  let ?post = "case ctx of None \<Rightarrow> [] | Some c \<Rightarrow> request_fields (env_G env) c"
  have pre: "fields_among [''pid'', ''file'', ''pkg'', ''line'', ''func''] ?pre"
    by (cases d) (simp_all add: fields_among_def)
  have post: "fields_among [''req_headers'', ''req_params'', ''req_payload''] ?post"
    by (cases ctx) (simp_all add: fields_among_Nil request_fields_keys)
  let ?c = "\<lparr>lc_std = True, lc_level = ErrorLevel,
      lc_with = ?pre @ context_part (env_G env) ctx @ ?post @ [WithFields kvs],
      lc_message = log_message_of format args\<rparr>"
  have "log_Error env ctx kvs format args st = Ret (if ErrorLevel \<le> lg_Level (own st) then emit ?c st else st)"
    by (simp add: log_Error_def d opt_ctx_fields_readable [OF assms(2)])
  moreover have "entry_ok ErrorLevel True (env_G env) ctx kvs format args ?c"
    by (rule entry_okI [OF pre post])
  moreover have "\<forall>c0. ctx = Some c0 \<longrightarrow> set (request_fields (env_G env) c0) \<subseteq> set (lc_with ?c)" by auto
  ultimately show ?thesis by blast
qed

lemma log_Warn_entry:
  assumes "good_caller (env_caller env)" and "\<forall>c. ctx = Some c \<longrightarrow> readable_identity (env_G env) c"
  shows "\<exists>c. log_Warn env ctx kvs format args st = Ret (if WarnLevel \<le> lg_Level (own st) then emit c st else st) \<and>
    entry_ok WarnLevel False (env_G env) ctx kvs format args c"
proof -
  obtain d where d: "extractCallerDetails (env_caller env) = Ret d"
    using extractCallerDetails_good [OF assms(1)] by blast
  let ?pre = "case d of Inl err \<Rightarrow> [] | Inr cd \<Rightarrow> [WithField ''file'' (fstr (cd_file cd)),
     WithField ''pkg'' (fstr (cd_pkg cd)), WithField ''func'' (fstr (cd_func cd))]"
  have pre: "fields_among [''pid'', ''file'', ''pkg'', ''line'', ''func''] ?pre"
    by (cases d) (simp_all add: fields_among_def)
  let ?c = "\<lparr>lc_std = False, lc_level = WarnLevel,
      lc_with = ?pre @ context_part (env_G env) ctx @ [] @ [WithFields kvs],
      lc_message = log_message_of format args\<rparr>"
  have "log_Warn env ctx kvs format args st = Ret (if WarnLevel \<le> lg_Level (own st) then emit ?c st else st)"
    by (simp add: log_Warn_def d opt_ctx_fields_readable [OF assms(2)])
  moreover have "entry_ok WarnLevel False (env_G env) ctx kvs format args ?c"
    by (rule entry_okI [OF pre fields_among_Nil])
  ultimately show ?thesis by blast
qed


lemma extractCallerDetails_parts:
  "Split fName (CHR ''.'') = front @ [seg, f] \<Longrightarrow> seg \<noteq> '''' \<Longrightarrow>
   extractCallerDetails (Some (file, line, fName)) =
     Ret (Inr \<lparr>cd_file = file, cd_line = line,
       cd_pkg = RemoveAll defaultPackageName (if hd seg = CHR ''('' then Join front ''.'' else Join (front @ [seg]) ''.''),
       cd_func = fName\<rparr>)"
  by (simp add: extractCallerDetails_def nth_append Let_def)

lemma log_Info_entry:
  assumes "good_caller (env_caller env)" and "readable_identity (env_G env) c"
  shows "\<exists>e. log_Info env (Some c) kvs format args st = Ret (if InfoLevel \<le> lg_Level (own st) then emit e st else st) \<and>
    entry_ok InfoLevel False (env_G env) (Some c) kvs format args e"
  unfolding log_Info_def by (rule log_at_entry) (use assms in auto)

text \<open>
  A step that only logs: it adds entries where the level lets it, and changes nothing else.
\<close>

definition logged :: "log_state \<Rightarrow> log_call list \<Rightarrow> log_state" where
  "logged st es = (if InfoLevel \<le> lg_Level (own st) then st\<lparr>emitted := emitted st @ es\<rparr> else st)"

definition only_logs :: "(log_state \<Rightarrow> log_state go) \<Rightarrow> bool" where
  "only_logs m \<longleftrightarrow> (\<forall>st. \<exists>es. m st = Ret (logged st es))"

lemma logged_simps [simp]:
  "own (logged st es) = own st" "std (logged st es) = std st" "logged (logged st es) es' = logged st (es @ es')"
  by (simp_all add: logged_def)

lemma logged_Nil: "logged st [] = st"
  by (simp add: logged_def)

lemma only_logs_Ret: "only_logs Ret"
  unfolding only_logs_def by (intro allI exI [of _ "[]"]) (simp add: logged_Nil)

lemma only_logs_bind: "only_logs m \<Longrightarrow> only_logs m' \<Longrightarrow> only_logs (\<lambda>st. go_bind (m st) m')"
  unfolding only_logs_def by (metis go_bind.simps(1) logged_simps(3))

lemma only_logs_if: "only_logs m \<Longrightarrow> only_logs m' \<Longrightarrow> only_logs (\<lambda>st. if b then m st else m' st)"
  by (cases b) simp_all

lemma log_Info_logs:
  assumes "good_caller (env_caller env)" and "readable_identity (env_G env) c"
  shows "\<exists>e. log_Info env (Some c) kvs format args st = Ret (logged st [e]) \<and>
    entry_ok InfoLevel False (env_G env) (Some c) kvs format args e"
  using log_Info_entry [OF assms, of kvs format args st]
  by (auto simp: logged_def emit_def)

lemma only_logs_Info:
  assumes "good_caller (env_caller env)" and "readable_identity (env_G env) c"
  shows "only_logs (log_Info env (Some c) kvs format args)"
  unfolding only_logs_def using log_Info_logs [OF assms] by blast

lemma only_logs_verbose:
  assumes "good_caller (env_caller env)" and "readable_identity (env_G env) c"
  shows "only_logs (log_verbose env c r)"
  unfolding log_verbose_def
  by (cases "req_Payload r")
    (simp_all only: payload.case, (intro only_logs_bind only_logs_if only_logs_Ret only_logs_Info assms)+)

text \<open>
  \<open>LogRequest\<close> around any handler: the handler runs once, on a context and logger that do not depend on it, and
  one entry after it tells the status and length of its response; its panic is the middleware's.
\<close>

definition logged_context :: "('c, 'm) goa_lib \<Rightarrow> char \<times> char \<times> char \<times> char \<times> char \<times> char \<Rightarrow> 'c \<Rightarrow> 'c" where
  "logged_context G bytes ctx = WithLogContext G ctx ''req_id''
     (if stored_val (ctx_Value G ctx reqIDKey) = VNil then VString (shortID bytes) else stored_val (ctx_Value G ctx reqIDKey))"

lemma logged_context_same:
  assumes "goa_ok G"
  shows "ContextJWT G (logged_context G bytes ctx) = ContextJWT G ctx" "same_request G ctx (logged_context G bytes ctx)"
    "ctx_Value G (logged_context G bytes ctx) = ctx_Value G ctx"
    "readable_identity G (logged_context G bytes ctx) = readable_identity G ctx"
  using WithLogContext_ok [OF assms] by (simp_all add: logged_context_def readable_identity_def)

lemma log_request_runs:
  assumes "goa_ok (env_G env)" and "good_caller (env_caller env)" and "readable_identity (env_G env) ctx"
    and "ContextRequest (env_G env) ctx = Some r" and "req_URL r = Some u" and "ContextHasResponse (env_G env) ctx"
  shows "\<exists>es. (\<exists>e rest kvs. es = e # rest \<and> (\<not> verbose \<longrightarrow> rest = []) \<and>
      entry_ok InfoLevel False (env_G env) (Some (logged_context (env_G env) bytes ctx)) kvs ''request started'' [] e) \<and> (\<forall>h.
    (\<forall>err resp' st3. h (logged_context (env_G env) bytes ctx) req resp (logged st es) = Ret (err, resp', st3) \<longrightarrow>
       (\<exists>after kvs. LogRequest env verbose bytes duration h ctx req resp st = Ret (err, resp', logged st3 [after]) \<and>
          entry_ok InfoLevel False (env_G env) (Some (logged_context (env_G env) bytes ctx)) kvs ''completed'' [] after \<and>
          kvs ''status'' = Some (FVal (VInt (rp_Status resp'))) \<and> kvs ''bytes'' = Some (FVal (VInt (rp_Length resp'))))) \<and>
    (\<forall>m. h (logged_context (env_G env) bytes ctx) req resp (logged st es) = Panic m \<longrightarrow> LogRequest env verbose bytes duration h ctx req resp st = Panic m))"
proof -
  let ?G = "env_G env"
  define ctx' where "ctx' = logged_context ?G bytes ctx"
  note same = logged_context_same [OF assms(1), where bytes = bytes and ctx = ctx, folded ctx'_def]
  have read: "readable_identity ?G ctx'" and req: "ContextRequest ?G ctx' = Some r" "ContextHasResponse ?G ctx'"
    using same assms(3,4,6) by (simp_all add: same_request_def)
  obtain id where id: "extractIdentityID (env_P env) ?G ctx' = Ret id"
    using extractIdentityID_readable [OF read] by blast
  let ?props = "[req_Method r \<mapsto> fstr (url_String u), ''from'' \<mapsto> fstr (log_from req),
    ''ctrl'' \<mapsto> fstr (ContextController ?G ctx'), ''action'' \<mapsto> fstr (ContextAction ?G ctx')]"
  let ?kvs = "case id of Inr i \<Rightarrow> ?props(''identity_id'' \<mapsto> fstr i) | Inl e \<Rightarrow> ?props"
  let ?start = "log_Info env (Some ctx') ?kvs ''request started'' []"
  let ?verb = "\<lambda>st1. if verbose then log_verbose env ctx' r st1 else Ret st1"
  let ?done = "\<lambda>resp'. completed_fields ?G ctx' duration (case id of Inr i \<Rightarrow> i | Inl e \<Rightarrow> '''') resp'"
  obtain e where e: "?start st = Ret (logged st [e])" "entry_ok InfoLevel False ?G (Some ctx') ?kvs ''request started'' [] e"
    using log_Info_logs [OF assms(2) read] by blast
  have "only_logs ?verb"
    by (intro only_logs_if only_logs_Ret only_logs_verbose assms(2) read)
  then have "\<exists>rest. ?verb (logged st [e]) = Ret (logged st (e # rest)) \<and> (\<not> verbose \<longrightarrow> rest = [])"
    unfolding only_logs_def by (cases verbose) (fastforce dest: spec [of _ "logged st [e]"])+
  then obtain rest where rest: "?verb (logged st [e]) = Ret (logged st (e # rest))" "\<not> verbose \<longrightarrow> rest = []" by blast
  let ?es = "e # rest"
  have es: "go_bind (?start st) ?verb = Ret (logged st ?es)" unfolding e(1) go_bind.simps by (rule rest(1))
  have *: "LogRequest env verbose bytes duration h ctx req resp st =
      go_bind (h ctx' req resp (logged st ?es)) (\<lambda>(err, resp', st3).
        go_bind (log_Info env (Some ctx') (?done resp') ''completed'' [] st3) (\<lambda>st4. Ret (err, resp', st4)))" for h
    unfolding LogRequest_def Let_def logged_context_def [symmetric] ctx'_def [symmetric] req(1) option.case assms(5) id go_bind.simps
      go_bind_assoc [symmetric] es using req(2) by (simp add: split_beta)
  show ?thesis
    unfolding ctx'_def [symmetric]
  proof (rule exI [of _ ?es], intro conjI allI impI)
    show "\<exists>e' rest' kvs. ?es = e' # rest' \<and> (\<not> verbose \<longrightarrow> rest' = []) \<and>
        entry_ok InfoLevel False ?G (Some ctx') kvs ''request started'' [] e'"
      using e(2) rest(2) by blast
  next
    fix h and err :: "goerror option" and resp' :: goa_response and st3 :: log_state
    assume "h ctx' req resp (logged st ?es) = Ret (err, resp', st3)"
    moreover obtain e where "log_Info env (Some ctx') (?done resp') ''completed'' [] st3 = Ret (logged st3 [e])"
      "entry_ok InfoLevel False ?G (Some ctx') (?done resp') ''completed'' [] e"
      using log_Info_logs [OF assms(2) read, of "?done resp'" "''completed''" "[]" st3] by blast
    moreover have "?done resp' ''status'' = Some (FVal (VInt (rp_Status resp')))" "?done resp' ''bytes'' = Some (FVal (VInt (rp_Length resp')))"
      by (simp_all add: completed_fields_def Let_def)
    ultimately show "\<exists>after kvs. LogRequest env verbose bytes duration h ctx req resp st = Ret (err, resp', logged st3 [after]) \<and>
        entry_ok InfoLevel False ?G (Some ctx') kvs ''completed'' [] after \<and>
        kvs ''status'' = Some (FVal (VInt (rp_Status resp'))) \<and> kvs ''bytes'' = Some (FVal (VInt (rp_Length resp')))"
      by (intro exI [of _ e] exI [of _ "?done resp'"]) (simp add: *)
  qed (simp add: *)
qed

text \<open>Where the context can be read, logging returns.\<close>

lemma log_Error_total:
  assumes "good_caller (env_caller env)" and "readable_identity (env_G env) ctx"
  shows "\<exists>st'. log_Error env (Some ctx) kvs f a st = Ret st'"
  using log_Error_entry [OF assms(1), of "Some ctx" kvs f a st] assms(2) by blast

lemma log_Debug_total:
  assumes "good_caller (env_caller env)" and "readable_identity (env_G env) ctx"
  shows "\<exists>st'. log_Debug env (Some ctx) kvs f a st = Ret st'"
  using log_at_entry [OF assms(1), of "Some ctx" DebugLevel kvs f a st] assms(2) unfolding log_Debug_def by blast

subsection \<open>The properties\<close>

text \<open>C28: With claims that can be read and a caller of the usual shape, no logging function but \<open>Panic\<close>
  panics; each appends exactly one entry at its level when the package's logger has at least that level
  and nothing otherwise, changes no logger, and the entry carries the request ID and the identity of
  the context between its own fields and the caller's. So whatever \<open>Debug\<close> logs, the same call of
  \<open>Info\<close>, \<open>Warn\<close> and \<open>Error\<close> logs too.\<close>

theorem logging_entries:
  assumes "good_caller (env_caller env)" and "\<forall>c. ctx = Some c \<longrightarrow> readable_identity (env_G env) c"
  shows "(\<exists>c. log_Error env ctx kvs format args st = Ret (if ErrorLevel \<le> lg_Level (own st) then emit c st else st) \<and>
           entry_ok ErrorLevel True (env_G env) ctx kvs format args c) \<and>
    (\<exists>c. log_Warn env ctx kvs format args st = Ret (if WarnLevel \<le> lg_Level (own st) then emit c st else st) \<and>
           entry_ok WarnLevel False (env_G env) ctx kvs format args c) \<and>
    (\<exists>c. log_Info env ctx kvs format args st = Ret (if InfoLevel \<le> lg_Level (own st) then emit c st else st) \<and>
           entry_ok InfoLevel False (env_G env) ctx kvs format args c) \<and>
    (\<exists>c. log_Debug env ctx kvs format args st = Ret (if DebugLevel \<le> lg_Level (own st) then emit c st else st) \<and>
           entry_ok DebugLevel False (env_G env) ctx kvs format args c) \<and>
    panics (log_Panic env ctx kvs format args st) = (ErrorLevel \<le> lg_Level (own st))"
proof (intro conjI)
  show "panics (log_Panic env ctx kvs format args st) = (ErrorLevel \<le> lg_Level (own st))"
    by (simp add: log_Panic_def opt_ctx_fields_readable [OF assms(2)])
qed (use log_Error_entry [OF assms, of kvs format args st] in blast,
    use log_Warn_entry [OF assms, of kvs format args st] in blast,
    use log_at_entry [OF assms, of InfoLevel kvs format args st] in \<open>simp only: log_Info_def\<close>,
    use log_at_entry [OF assms, of DebugLevel kvs format args st] in \<open>simp only: log_Debug_def\<close>)

definition ex_logger :: "level \<Rightarrow> log_state" where
  "ex_logger l = \<lparr>own = log_New\<lparr>lg_Level := l\<rparr>, std = log_New, emitted = []\<rparr>"

definition ex_env :: "caller \<Rightarrow> (nat plain_context, nat) log_env" where
  "ex_env c = \<lparr>env_P = documented_errs, env_G = plain_goa, env_pid = 7, env_caller = c\<rparr>"

lemma background_readable: "readable_identity plain_goa background"
  by (simp add: readable_identity_def plain_goa_def background_def)

theorem logging_entries_witness:
  "log_Debug (ex_env None) (Some background) Map.empty ''m'' [] (ex_logger InfoLevel) = Ret (ex_logger InfoLevel) \<and>
   (\<exists>c. log_Info (ex_env None) (Some background) Map.empty ''m'' [] (ex_logger InfoLevel) = Ret (emit c (ex_logger InfoLevel)))"
proof -
  have "good_caller (env_caller (ex_env None))" by (simp add: ex_env_def good_caller_def)
  moreover have "\<forall>c. Some (background :: nat plain_context) = Some c \<longrightarrow> readable_identity (env_G (ex_env None)) c"
    by (simp add: ex_env_def background_readable)
  ultimately show ?thesis
    using logging_entries [of "ex_env None" "Some background" Map.empty "''m''" "[]" "ex_logger InfoLevel"]
    by (auto simp: ex_logger_def less_eq_level_def)
qed

text \<open>C27: What \<open>Error\<close> writes of a request's headers: the same keys, with the values of
  \<open>Authorization\<close> and \<open>Cookie\<close> replaced by stars and all others as they are. Where the keys of the
  header are canonical, as \<open>net/http\<close> makes them, no spelling of the two names escapes the mask.\<close>

theorem error_masks_credentials:
  assumes "good_caller (env_caller env)" and "readable_identity (env_G env) ctx"
    and "ErrorLevel \<le> lg_Level (own st)" and "ContextRequest (env_G env) ctx = Some req"
    and "req_Header req \<noteq> Map.empty" and "\<forall>k. req_Header req k \<noteq> None \<longrightarrow> canonical k"
  shows "\<exists>c m. log_Error env (Some ctx) kvs format args st = Ret (emit c st) \<and>
    WithField ''req_headers'' (FHeaders m) \<in> set (lc_with c) \<and> dom m = dom (req_Header req) \<and>
    (\<forall>k v. m k = Some v \<longrightarrow>
      (if CanonicalMIMEHeaderKey k \<in> {''Authorization'', ''Cookie''} then v = Inl ''*****''
       else \<exists>vs. v = Inr vs \<and> req_Header req k = Some vs))"
proof -
  let ?m = "masked_headers (req_Header req)"
  have "\<forall>c. Some ctx = Some c \<longrightarrow> readable_identity (env_G env) c" using assms(2) by simp
  from log_Error_entry [OF assms(1) this, of kvs format args st] assms(3) obtain c
    where c: "log_Error env (Some ctx) kvs format args st = Ret (emit c st)"
      "set (request_fields (env_G env) ctx) \<subseteq> set (lc_with c)" by auto
  moreover have "WithField ''req_headers'' (FHeaders ?m) \<in> set (request_fields (env_G env) ctx)"
    using assms(4,5) by (simp add: request_fields_def)
  moreover have "dom ?m = dom (req_Header req)" by (auto simp: masked_headers_def dom_def)
  moreover have "if CanonicalMIMEHeaderKey k \<in> {''Authorization'', ''Cookie''} then v = Inl ''*****''
       else \<exists>vs. v = Inr vs \<and> req_Header req k = Some vs" if "?m k = Some v" for k v
  proof -
    from that have "req_Header req k \<noteq> None" by (auto simp: masked_headers_def split: if_splits)
    with assms(6) have "CanonicalMIMEHeaderKey k = k" by (simp add: canonical_def)
    then show ?thesis using that by (auto simp: masked_headers_def split: if_splits)
  qed
  ultimately show ?thesis by blast
qed

theorem error_masks_credentials_witness:
  "\<exists>c m. log_Error (ex_env None)
      (Some (background\<lparr>pc_request := Some \<lparr>req_Method = ''GET'', req_Host = ''h'', req_URL = Some empty_url,
         req_Header = [''Authorization'' \<mapsto> [''Bearer s'']], req_RemoteAddr = ''1.2.3.4:80'', req_ContentLength = 0,
         req_Params = Map.empty, req_Payload = Other_Payload None\<rparr>\<rparr>)) Map.empty ''m'' [] (ex_logger InfoLevel) =
      Ret (emit c (ex_logger InfoLevel)) \<and>
    WithField ''req_headers'' (FHeaders m) \<in> set (lc_with c) \<and> m ''Authorization'' = Some (Inl ''*****'')"
proof -
  let ?h = "[''Authorization'' \<mapsto> [''Bearer s'']]"
  let ?r = "\<lparr>req_Method = ''GET'', req_Host = ''h'', req_URL = Some empty_url, req_Header = ?h,
     req_RemoteAddr = ''1.2.3.4:80'', req_ContentLength = 0, req_Params = Map.empty, req_Payload = Other_Payload None\<rparr>"
  let ?ctx = "(background :: nat plain_context)\<lparr>pc_request := Some ?r\<rparr>"
  have key: "CanonicalMIMEHeaderKey ''Authorization'' = ''Authorization''" by code_simp
  have "good_caller (env_caller (ex_env None))" "readable_identity (env_G (ex_env None)) ?ctx"
    "ErrorLevel \<le> lg_Level (own (ex_logger InfoLevel))" "ContextRequest (env_G (ex_env None)) ?ctx = Some ?r"
    "req_Header ?r \<noteq> Map.empty" "\<forall>k. req_Header ?r k \<noteq> None \<longrightarrow> canonical k"
    by (simp_all add: ex_env_def good_caller_def readable_identity_def plain_goa_def background_def ex_logger_def
        less_eq_level_def canonical_def key)
  note spec = error_masks_credentials [OF this, of Map.empty "''m''" "[]", unfolded request_data.simps]
  from spec obtain c m
    where l: "log_Error (ex_env None) (Some ?ctx) Map.empty ''m'' [] (ex_logger InfoLevel) = Ret (emit c (ex_logger InfoLevel))"
      "WithField ''req_headers'' (FHeaders m) \<in> set (lc_with c)" and dm: "dom m = dom ?h"
      and mask: "\<forall>k v. m k = Some v \<longrightarrow> (if CanonicalMIMEHeaderKey k \<in> {''Authorization'', ''Cookie''} then v = Inl ''*****''
        else \<exists>vs. v = Inr vs \<and> ?h k = Some vs)"
    by (elim exE conjE) (rule that)
  from dm have "''Authorization'' \<in> dom m" by simp
  then obtain v where v: "m ''Authorization'' = Some v" by blast
  with mask [rule_format, OF v] have "m ''Authorization'' = Some (Inl ''*****'')" by (simp add: key)
  with l show ?thesis by blast
qed

text \<open>The package and function a log entry names: for a method with a pointer receiver the package
  is what stands before the receiver, for a function what stands before the last dot; the repository's
  own prefix is cut off.\<close>

theorem caller_details_spec:
  assumes "CHR ''.'' \<notin> set t" and "CHR ''.'' \<notin> set f" and "\<not> Contains pkg defaultPackageName"
    and "Split pkg (CHR ''.'') = init @ [seg]" and "seg \<noteq> ''''" and "hd seg \<noteq> CHR ''(''"
  shows "extractCallerDetails (Some (file, line, defaultPackageName @ pkg @ ''.(*'' @ t @ '').'' @ f)) =
      Ret (Inr \<lparr>cd_file = file, cd_line = line, cd_pkg = pkg,
        cd_func = defaultPackageName @ pkg @ ''.(*'' @ t @ '').'' @ f\<rparr>) \<and>
    extractCallerDetails (Some (file, line, pkg @ ''.'' @ f)) =
      Ret (Inr \<lparr>cd_file = file, cd_line = line, cd_pkg = pkg, cd_func = pkg @ ''.'' @ f\<rparr>)"
proof -
  let ?dot = "CHR ''.''" and ?p = "defaultPackageName @ pkg" and ?r = "CHR ''('' # CHR ''*'' # t @ [CHR '')'']"
  have r: "?dot \<notin> set ?r" using assms(1) by simp
  have m: "Split (?p @ ?dot # (?r @ ?dot # f)) ?dot = Split ?p ?dot @ [?r, f]"
    using Split_append_sep [OF r, of f] Split_no_sep [OF assms(2)]
    by (simp only: Split_append [of ?p ?dot "?r @ ?dot # f"])
  have rm: "RemoveAll defaultPackageName ?p = pkg"
    using RemoveAll_prefix [of defaultPackageName pkg] RemoveAll_absent [OF assms(3)]
    by (simp add: defaultPackageName_def)
  have 1: "extractCallerDetails (Some (file, line, ?p @ ?dot # (?r @ ?dot # f))) =
      Ret (Inr \<lparr>cd_file = file, cd_line = line, cd_pkg = pkg, cd_func = ?p @ ?dot # (?r @ ?dot # f)\<rparr>)"
    by (subst extractCallerDetails_parts [OF m]) (simp_all add: Join_Split rm)
  have f: "Split (pkg @ ?dot # f) ?dot = init @ [seg, f]"
    using Split_no_sep [OF assms(2)] assms(4) by (simp only: Split_append append_assoc append.simps)
  have j: "Join (init @ [seg]) ''.'' = pkg" using Join_Split [of pkg ?dot] assms(4) by simp
  have 2: "extractCallerDetails (Some (file, line, pkg @ ?dot # f)) =
      Ret (Inr \<lparr>cd_file = file, cd_line = line, cd_pkg = pkg, cd_func = pkg @ ?dot # f\<rparr>)"
    using assms(5,6) j RemoveAll_absent [OF assms(3)] by (subst extractCallerDetails_parts [OF f]) simp_all
  from 1 2 show ?thesis by simp
qed

theorem caller_details_spec_witness:
  "map_option cd_pkg (case extractCallerDetails
      (Some (''token.go'', 12, ''github.com/fabric8-services/fabric8-common/auth.(*tokenManager).Parse'')) of
      Ret (Inr d) \<Rightarrow> Some d | _ \<Rightarrow> None) = Some ''auth''"
  using caller_details_spec [of "''tokenManager''" "''Parse''" "''auth''" "[]" "''auth''" "''token.go''" 12]
  by (simp add: defaultPackageName_def HasPrefix_def)


text \<open>C26: \<open>LogRequest\<close> is transparent: the next handler runs exactly once, on the context that differs from its own only in
  the request ID stored for goa's logger, with the caller's token and request still in it, and on the logger with
  nothing changed but, from the info level on, what the middleware wrote before, which is one entry where it is not verbose. Its error,
  its response and what it logged come back, followed by one last entry with the status and length it left in the
  response; its panic is the middleware's. The request ID is a fresh short ID even when goa's middleware has assigned one: the
  package looks under its own key, where nothing is ever stored.\<close>

theorem log_request_transparent:
  assumes "goa_ok (env_G env)" and "good_caller (env_caller env)" and "readable_identity (env_G env) ctx"
    and "ContextRequest (env_G env) ctx = Some r" and "req_URL r = Some u" and "ContextHasResponse (env_G env) ctx"
    and "ctx_Value (env_G env) ctx reqIDKey = NoValue"
  shows "let ctx' = WithLogContext (env_G env) ctx ''req_id'' (VString (shortID bytes)) in
    ContextJWT (env_G env) ctx' = ContextJWT (env_G env) ctx \<and> ContextRequest (env_G env) ctx' = ContextRequest (env_G env) ctx \<and>
    (\<exists>e rest kvs. (\<not> verbose \<longrightarrow> rest = []) \<and> entry_ok InfoLevel False (env_G env) (Some ctx') kvs ''request started'' [] e \<and>
      (\<forall>h. case h ctx' req resp (if InfoLevel \<le> lg_Level (own st) then st\<lparr>emitted := emitted st @ e # rest\<rparr> else st) of
         Panic m \<Rightarrow> LogRequest env verbose bytes duration h ctx req resp st = Panic m
       | Ret (err, resp', st1) \<Rightarrow>
           (\<exists>after kvs'. LogRequest env verbose bytes duration h ctx req resp st =
              Ret (err, resp', if InfoLevel \<le> lg_Level (own st1) then st1\<lparr>emitted := emitted st1 @ [after]\<rparr> else st1) \<and>
            entry_ok InfoLevel False (env_G env) (Some ctx') kvs' ''completed'' [] after \<and>
            kvs' ''status'' = Some (FVal (VInt (rp_Status resp'))) \<and> kvs' ''bytes'' = Some (FVal (VInt (rp_Length resp'))))))"
proof -
  let ?G = "env_G env" and ?ctx' = "logged_context (env_G env) bytes ctx"
  have ctx': "WithLogContext ?G ctx ''req_id'' (VString (shortID bytes)) = ?ctx'"
    using assms(7) by (simp add: logged_context_def stored_val_def)
  obtain e rest kvs where e: "\<not> verbose \<longrightarrow> rest = []" "entry_ok InfoLevel False ?G (Some ?ctx') kvs ''request started'' [] e"
    and run: "\<forall>h. (\<forall>err resp' st3. h ?ctx' req resp (logged st (e # rest)) = Ret (err, resp', st3) \<longrightarrow>
       (\<exists>after kvs. LogRequest env verbose bytes duration h ctx req resp st = Ret (err, resp', logged st3 [after]) \<and>
          entry_ok InfoLevel False ?G (Some ?ctx') kvs ''completed'' [] after \<and>
          kvs ''status'' = Some (FVal (VInt (rp_Status resp'))) \<and> kvs ''bytes'' = Some (FVal (VInt (rp_Length resp'))))) \<and>
      (\<forall>m. h ?ctx' req resp (logged st (e # rest)) = Panic m \<longrightarrow> LogRequest env verbose bytes duration h ctx req resp st = Panic m)"
    using log_request_runs [OF assms(1-6), of verbose bytes req resp st duration] by blast
  show ?thesis
    unfolding Let_def ctx' logged_def [symmetric]
  proof (intro conjI exI [of _ e] exI [of _ rest] exI [of _ kvs] allI)
    show "case h ?ctx' req resp (logged st (e # rest)) of
         Panic m \<Rightarrow> LogRequest env verbose bytes duration h ctx req resp st = Panic m
       | Ret (err, resp', st1) \<Rightarrow>
           (\<exists>after kvs'. LogRequest env verbose bytes duration h ctx req resp st = Ret (err, resp', logged st1 [after]) \<and>
            entry_ok InfoLevel False ?G (Some ?ctx') kvs' ''completed'' [] after \<and>
            kvs' ''status'' = Some (FVal (VInt (rp_Status resp'))) \<and> kvs' ''bytes'' = Some (FVal (VInt (rp_Length resp'))))" for h
      using spec [OF run, of h] by (simp split: go.split)
  qed (use e logged_context_same(1,2) [OF assms(1), where bytes = bytes and ctx = ctx] in \<open>simp_all add: same_request_def\<close>)
qed

text \<open>A handler that answers 204 where its context still has the request, and 500 elsewhere.\<close>

definition asks_request :: "nat plain_context handler" where
  "asks_request c r p s = Ret (None, p\<lparr>rp_Status := (if pc_request c = None then 500 else 204)\<rparr>, s)"

theorem log_request_transparent_witness:
  "\<exists>st' e after. LogRequest (ex_env None) False (CHR ''a'', CHR ''b'', CHR ''c'', CHR ''d'', CHR ''e'', CHR ''f'') (VInt 3)
      asks_request
      (background\<lparr>pc_request := Some \<lparr>req_Method = ''GET'', req_Host = ''h'', req_URL = Some empty_url,
         req_Header = Map.empty, req_RemoteAddr = ''1.2.3.4:80'', req_ContentLength = 0,
         req_Params = Map.empty, req_Payload = Other_Payload None\<rparr>, pc_response := True\<rparr>)
      undefined \<lparr>rp_Status = 0, rp_Length = 0, rp_ErrorCode = '''', rp_Header = Map.empty\<rparr> (ex_logger InfoLevel) =
    Ret (None, \<lparr>rp_Status = 204, rp_Length = 0, rp_ErrorCode = '''', rp_Header = Map.empty\<rparr>, st') \<and>
    emitted st' = [e, after] \<and> lc_message e = Line ''request started'' \<and> lc_message after = Line ''completed''"
proof -
  let ?r = "\<lparr>req_Method = ''GET'', req_Host = ''h'', req_URL = Some empty_url,
         req_Header = Map.empty, req_RemoteAddr = ''1.2.3.4:80'', req_ContentLength = 0,
         req_Params = Map.empty, req_Payload = Other_Payload None\<rparr>"
  let ?ctx = "(background :: nat plain_context)\<lparr>pc_request := Some ?r, pc_response := True\<rparr>"
  let ?p = "\<lparr>rp_Status = 0, rp_Length = 0, rp_ErrorCode = '''', rp_Header = Map.empty\<rparr> :: goa_response"
  have hyps: "goa_ok (env_G (ex_env None))" "good_caller (env_caller (ex_env None))"
    "readable_identity (env_G (ex_env None)) ?ctx" "ContextRequest (env_G (ex_env None)) ?ctx = Some ?r"
    "req_URL ?r = Some empty_url" "ContextHasResponse (env_G (ex_env None)) ?ctx"
    "ctx_Value (env_G (ex_env None)) ?ctx reqIDKey = NoValue" and
    same: "WithLogContext (env_G (ex_env None)) ?ctx k v = ?ctx" for k v
    using plain_goa_ok by (simp_all add: ex_env_def good_caller_def readable_identity_def plain_goa_def background_def)
  have lvl: "InfoLevel \<le> lg_Level (own (ex_logger InfoLevel))" "InfoLevel \<le> lg_Level (own ((ex_logger InfoLevel)\<lparr>emitted := es\<rparr>))" for es
    by (simp_all add: ex_logger_def)
  have "lc_message c = Line m" if "entry_ok l b G x kvs m [] c" for l b x kvs m c and G :: "(nat plain_context, nat) goa_lib"
    using that by (simp add: entry_ok_def log_message_of_def)
  note msg = this
  have h: "asks_request ?ctx undefined ?p s = Ret (None, ?p\<lparr>rp_Status := 204\<rparr>, s)" for s by (simp add: asks_request_def)
  from log_request_transparent [OF hyps, where verbose = False and bytes = "(CHR ''a'', CHR ''b'', CHR ''c'', CHR ''d'', CHR ''e'', CHR ''f'')"
      and req = undefined and resp = ?p and st = "ex_logger InfoLevel" and duration = "VInt 3"]
  show ?thesis
    unfolding Let_def same lvl(1) if_True
    by (elim conjE exE, drule_tac x = asks_request in spec) (auto simp: h lvl ex_logger_def dest!: msg)
qed

end
