(* ===== verification/Auth.thy ===== *)
theory Auth
  imports Jwk Log Uuid
begin

section \<open>Tokens and the token manager: \<open>auth/token.go\<close>, \<open>auth/token_context.go\<close>\<close>

text \<open>
  The token manager keeps the public keys of the authentication service twice: in a map by key ID, for
  verifying tokens, and in a list, for handing them out. Parsing and verifying tokens is \<open>jwt-go\<close>'s (the
  parameter \<open>J\<close>, which calls back the key function); the UUID library and the generated client of the
  authentication service are parameters too. RSA public keys are values of type \<open>'k\<close>, never nil pointers.
  Operations that log take and return the logger's state, and panic where logging panics.
\<close>

subsection \<open>The key store\<close>

record manager_config =
  cfg_AuthServiceURL :: string
  cfg_DevModePrivateKey :: "string option"

record 'k tokenManager =
  publicKeysMap :: "string \<rightharpoonup> 'k"
  publicKeys :: "'k public_key list"
  tm_config :: manager_config

text \<open>The names of the service accounts; the source calls the first one \<open>Auth\<close>.\<close>

definition Auth_account :: string where "Auth_account = ''fabric8-auth''"
definition WIT :: string where "WIT = ''fabric8-wit''"
definition OsoProxy :: string where "OsoProxy = ''fabric8-oso-proxy''"
definition Tenant :: string where "Tenant = ''fabric8-tenant''"
definition Notification :: string where "Notification = ''fabric8-notification''"
definition JenkinsIdler :: string where "JenkinsIdler = ''fabric8-jenkins-idler''"
definition JenkinsProxy :: string where "JenkinsProxy = ''fabric8-jenkins-proxy''"
definition ToolChainOperator :: string where "ToolChainOperator = ''toolchain-operator''"
definition TenantUpdate :: string where "TenantUpdate = ''fabric8-tenant-update''"

lemmas account_names = Auth_account_def WIT_def OsoProxy_def Tenant_def Notification_def JenkinsIdler_def JenkinsProxy_def
  ToolChainOperator_def TenantUpdate_def

definition devModeKeyID :: string where
  "devModeKeyID = ''test-key''"

definition add_key :: "'k tokenManager \<Rightarrow> string \<Rightarrow> 'k \<Rightarrow> 'k tokenManager" where
  "add_key tm kid key =
     tm\<lparr>publicKeysMap := (publicKeysMap tm)(kid \<mapsto> key),
        publicKeys := publicKeys tm @ [\<lparr>pk_KeyID = kid, pk_Key = key\<rparr>]\<rparr>"

definition PublicKey :: "'k tokenManager \<Rightarrow> string \<Rightarrow> 'k option" where
  "PublicKey mgm keyID = publicKeysMap mgm keyID"

definition PublicKeys :: "'k tokenManager \<Rightarrow> 'k list" where
  "PublicKeys mgm = map pk_Key (publicKeys mgm)"

definition empty_manager :: "manager_config \<Rightarrow> 'k tokenManager" where
  "empty_manager config = \<lparr>publicKeysMap = Map.empty, publicKeys = [], tm_config = config\<rparr>"

text \<open>
  \<open>NewManager\<close>: \<open>keysPath\<close> is the generated client's path of the key endpoint, \<open>ParsePEM\<close> is
  \<open>jwt.ParseRSAPrivateKeyFromPEM\<close> followed by taking the public key.
\<close>

definition NewManager :: "pkg_errors \<Rightarrow> ('rt, 'w) net_Do \<Rightarrow> ('j, 'k) key_codec \<Rightarrow> string \<Rightarrow> (string \<Rightarrow> goerror + 'k)
    \<Rightarrow> manager_config \<Rightarrow> 'rt http_client_option list \<Rightarrow> ('rt, 'w) net
    \<Rightarrow> (goerror + 'k tokenManager) \<times> ('rt, 'w) net" where
  "NewManager P do_request C keysPath ParsePEM config options n =
     (let authURL = RemoveTrailingSlashFromURL (cfg_AuthServiceURL config);
          keysEndpoint = Sprintf ''%s%s'' [VString authURL, VString keysPath];
          (remoteKeys, _, n') = FetchKeys P do_request C keysEndpoint options n
      in case remoteKeys of
           Inl err \<Rightarrow> (Inl (errs_New P ''unable to load public keys from auth service''), n')
         | Inr keys \<Rightarrow>
             (let tm = foldl (\<lambda>tm k. add_key tm (pk_KeyID k) (pk_Key k)) (empty_manager config) keys in
              case cfg_DevModePrivateKey config of
                None \<Rightarrow> (Inr tm, n')
              | Some pem \<Rightarrow>
                  (case ParsePEM pem of
                     Inl err \<Rightarrow> (Inl err, n')
                   | Inr key \<Rightarrow> (Inr (add_key tm devModeKeyID key), n'))))"

definition NewManagerWithPublicKey :: "string \<Rightarrow> 'k \<Rightarrow> manager_config \<Rightarrow> 'k tokenManager" where
  "NewManagerWithPublicKey kid key config =
     \<lparr>publicKeysMap = [kid \<mapsto> key], publicKeys = [\<lparr>pk_KeyID = kid, pk_Key = key\<rparr>], tm_config = config\<rparr>"

text \<open>
  \<open>DefaultManager\<close> creates the process-wide manager at most once: \<open>defaultOnce\<close> and the two variables it
  fills are the option, empty until the first call.
\<close>

definition DefaultManager :: "(manager_config \<Rightarrow> 's \<Rightarrow> (goerror + 'k tokenManager) \<times> 's) \<Rightarrow> manager_config
    \<Rightarrow> (goerror + 'k tokenManager) option \<times> 's \<Rightarrow> (goerror + 'k tokenManager) \<times> ((goerror + 'k tokenManager) option \<times> 's)" where
  "DefaultManager new config st =
     (case st of
        (Some r, s) \<Rightarrow> (r, (Some r, s))
      | (None, s) \<Rightarrow> (let (r, s') = new config s in (r, (Some r, s'))))"

subsection \<open>Verifying tokens\<close>

type_synonym 'k keyfunc = "jwt_token \<Rightarrow> log_state \<Rightarrow> ((goerror + 'k) \<times> log_state) go"

record 'k jwt_lib =
  jwt_Parse :: "string \<Rightarrow> 'k keyfunc \<Rightarrow> log_state \<Rightarrow> ((goerror + jwt_token) \<times> log_state) go"
  jwt_ParseWithClaims :: "string \<Rightarrow> 'k keyfunc \<Rightarrow> log_state \<Rightarrow> ((goerror + jwt_token) \<times> log_state) go"

text \<open>
  The documented behaviour of \<open>jwt-go\<close>: a token it returns without an error is valid, holds the string
  it was parsed from and claims of the type asked for, and its signature verifies (\<open>verifies s k\<close>) under
  the key the key function returned for a token with the same header.
\<close>

definition vouched :: "(string \<Rightarrow> 'k \<Rightarrow> bool) \<Rightarrow> string \<Rightarrow> 'k keyfunc \<Rightarrow> jwt_token \<Rightarrow> bool" where
  "vouched verifies s kf t \<longleftrightarrow>
     tok_Valid t \<and> tok_Raw t = s \<and>
     (\<exists>t0 k st st'. tok_Header t0 = tok_Header t \<and> kf t0 st = Ret (Inr k, st') \<and> verifies s k)"

definition jwt_ok :: "'k jwt_lib \<Rightarrow> (string \<Rightarrow> 'k \<Rightarrow> bool) \<Rightarrow> bool" where
  "jwt_ok J verifies \<longleftrightarrow>
     (\<forall>s kf st t st'. jwt_Parse J s kf st = Ret (Inr t, st') \<longrightarrow>
        vouched verifies s kf t \<and> (\<exists>m. tok_Claims t = MapClaims m)) \<and>
     (\<forall>s kf st t st'. jwt_ParseWithClaims J s kf st = Ret (Inr t, st') \<longrightarrow>
        vouched verifies s kf t \<and> (\<exists>c. tok_Claims t = TokenClaims c))"

definition no_kid :: string where
  "no_kid = ''There is no '' @ [CHR 0x27] @ ''kid'' @ [CHR 0x27] @ '' header in the token''"

definition keyFunction :: "('c, 'k tokenManager) log_env \<Rightarrow> 'k tokenManager \<Rightarrow> 'c \<Rightarrow> 'k keyfunc" where
  "keyFunction env mgm ctx token st =
     (let kid = tok_Header token ''kid''; P = env_P env in
      if kid = VNil then
        go_bind (log_Error env (Some ctx) Map.empty no_kid [] st) (\<lambda>st1. Ret (Inl (errs_New P no_kid), st1))
      else (case PublicKey mgm (Sprintf ''%s'' [kid]) of
              None \<Rightarrow>
                go_bind (log_Error env (Some ctx) [''kid'' \<mapsto> FVal kid] ''There is no public key with such ID'' [] st)
                  (\<lambda>st1. Ret (Inl (errs_New P (Sprintf ''There is no public key with such ID: %s'' [kid])), st1))
            | Some key \<Rightarrow> Ret (Inr key, st)))"

definition invalid_token :: "pkg_errors \<Rightarrow> goerror" where
  "invalid_token P = the (errs_WithStack P (Some (errs_New P ''token is not valid'')))"

definition ParseToken :: "'k jwt_lib \<Rightarrow> ('c, 'k tokenManager) log_env \<Rightarrow> 'k tokenManager \<Rightarrow> 'c \<Rightarrow> string \<Rightarrow> log_state
    \<Rightarrow> ((goerror + token_claims) \<times> log_state) go" where
  "ParseToken J env mgm ctx tokenString st =
     go_bind (jwt_ParseWithClaims J tokenString (keyFunction env mgm ctx) st) (\<lambda>(r, st1).
       case r of
         Inl err \<Rightarrow> Ret (Inl err, st1)
       | Inr token \<Rightarrow>
           (case tok_Claims token of
              TokenClaims claims \<Rightarrow>
                Ret (if tok_Valid token then Inr claims else Inl (invalid_token (env_P env)), st1)
            | _ \<Rightarrow> Panic ''interface conversion''))"

definition ParseTokenWithMapClaims :: "'k jwt_lib \<Rightarrow> ('c, 'k tokenManager) log_env \<Rightarrow> 'k tokenManager \<Rightarrow> 'c \<Rightarrow> string
    \<Rightarrow> log_state \<Rightarrow> ((goerror + (string \<Rightarrow> gval)) \<times> log_state) go" where
  "ParseTokenWithMapClaims J env mgm ctx tokenString st =
     go_bind (jwt_Parse J tokenString (keyFunction env mgm ctx) st) (\<lambda>(r, st1).
       case r of
         Inl err \<Rightarrow> Ret (Inl err, st1)
       | Inr token \<Rightarrow>
           (case tok_Claims token of
              MapClaims claims \<Rightarrow>
                Ret (if tok_Valid token then Inr claims else Inl (invalid_token (env_P env)), st1)
            | _ \<Rightarrow> Panic ''interface conversion''))"

text \<open>\<open>err.Error()\<close> on the parser's error; \<open>Error\<close> of an internal error that holds nil panics.\<close>

definition manager_Parse :: "'k jwt_lib \<Rightarrow> ('c, 'k tokenManager) log_env \<Rightarrow> 'k tokenManager \<Rightarrow> 'c \<Rightarrow> string \<Rightarrow> log_state
    \<Rightarrow> ((goerror + jwt_token) \<times> log_state) go" where
  "manager_Parse J env mgm ctx tokenString st =
     go_bind (jwt_Parse J tokenString (keyFunction env mgm ctx) st) (\<lambda>(r, st1).
       case r of
         Inl err \<Rightarrow>
           go_bind (log_Error env (Some ctx) [''err'' \<mapsto> FVal (VForeign ''error'' (text_of err) (text_of err))]
                     ''unable to parse token'' [] st1) (\<lambda>st2.
           go_bind (Error err) (\<lambda>msg. Ret (Inl (NewUnauthorizedError msg), st2)))
       | Inr jwtToken \<Rightarrow> Ret (Inr jwtToken, st1))"

subsection \<open>Who a token belongs to\<close>

definition Locate :: "pkg_errors \<Rightarrow> ('c, 'm) goa_lib \<Rightarrow> uuid_lib \<Rightarrow> 'c \<Rightarrow> (goerror + uuid \<times> string) go" where
  "Locate P G U ctx =
     (case ContextJWT G ctx of
        None \<Rightarrow> Ret (Inl (errs_New P ''missing token''))
      | Some token \<Rightarrow>
          go_bind (map_claims token) (\<lambda>m.
            case as_string (m ''sub'') of
              None \<Rightarrow> Ret (Inl (errs_New P (''missing or invalid '' @ [CHR 0x27] @ ''sub'' @ [CHR 0x27] @ '' claim in token'')))
            | Some ident \<Rightarrow>
                (case uuid_FromString U ident of
                   Inl err \<Rightarrow> Ret (Inl (errs_New P (''token '' @ [CHR 0x27] @ ''sub'' @ [CHR 0x27] @ '' claim is not a valid UUID'')))
                 | Inr idTyped \<Rightarrow>
                     (case as_string (m ''preferred_username'') of
                        None \<Rightarrow> Ret (Inl (errs_New P (''missing or invalid '' @ [CHR 0x27] @ ''preferred_username'' @
                                  [CHR 0x27] @ '' claim in token'')))
                      | Some username \<Rightarrow> Ret (Inr (idTyped, username))))))"

definition ExtractServiceAccountName :: "('c, 'm) goa_lib \<Rightarrow> 'c \<Rightarrow> (string \<times> bool) go" where
  "ExtractServiceAccountName G ctx =
     (case ContextJWT G ctx of
        None \<Rightarrow> Ret ('''', False)
      | Some token \<Rightarrow>
          go_bind (map_claims token) (\<lambda>m.
            let accountName = m ''service_accountname'' in
            if accountName = VNil then Ret ('''', False)
            else (case as_string accountName of Some s \<Rightarrow> Ret (s, True) | None \<Rightarrow> Ret ('''', False))))"

definition IsServiceAccount :: "('c, 'm) goa_lib \<Rightarrow> 'c \<Rightarrow> bool go" where
  "IsServiceAccount G ctx = go_bind (ExtractServiceAccountName G ctx) (\<lambda>(_, ok). Ret ok)"

fun account_loop :: "string \<Rightarrow> string list \<Rightarrow> bool" where
  "account_loop accountName [] = False"
| "account_loop accountName (name # names) = (if accountName = name then True else account_loop accountName names)"

definition IsSpecificServiceAccount :: "('c, 'm) goa_lib \<Rightarrow> 'c \<Rightarrow> string list \<Rightarrow> bool go" where
  "IsSpecificServiceAccount G ctx names =
     go_bind (ExtractServiceAccountName G ctx) (\<lambda>(accountName, ok).
       if \<not> ok then Ret False else Ret (account_loop accountName names))"

definition CheckClaims :: "pkg_errors \<Rightarrow> uuid_lib \<Rightarrow> token_claims \<Rightarrow> goerror option go" where
  "CheckClaims P U claims =
     (if sc_Subject (tc_StandardClaims claims) = ''''
      then Ret (Some (errs_New P ''subject claim not found in token''))
      else (case uuid_FromString U (sc_Subject (tc_StandardClaims claims)) of
              Inl err \<Rightarrow> go_bind (Error err) (\<lambda>m. Ret (Some (errs_New P (''subject claim from token is not UUID '' @ m))))
            | Inr u \<Rightarrow>
                if tc_Username claims = '''' then Ret (Some (errs_New P ''username claim not found in token''))
                else if tc_Email claims = '''' then Ret (Some (errs_New P ''email claim not found in token''))
                else Ret None))"

definition AddLoginRequiredHeader :: "'k tokenManager \<Rightarrow> header \<Rightarrow> header" where
  "AddLoginRequiredHeader mgm rw =
     (let rw1 = header_Add rw ''Access-Control-Expose-Headers'' ''WWW-Authenticate'';
          loginURL = AddTrailingSlashToURL (cfg_AuthServiceURL (tm_config mgm)) @ ''api/login''
      in header_Set rw1 ''WWW-Authenticate''
           (Sprintf (''LOGIN url=%s, description='' @ [CHR 0x22] @ ''re-login is required'' @ [CHR 0x22]) [VString loginURL]))"

subsection \<open>The manager in the context\<close>

definition contextTokenManagerKey :: ctx_key where
  "contextTokenManagerKey = (''auth.contextTMKey'', 1)"

definition ContextWithTokenManager :: "('c, 'm) goa_lib \<Rightarrow> 'c \<Rightarrow> 'm stored \<Rightarrow> 'c" where
  "ContextWithTokenManager G ctx tm = ctx_WithValue G ctx contextTokenManagerKey tm"

definition ReadManagerFromContext :: "('c, 'm) log_env \<Rightarrow> 'c \<Rightarrow> log_state \<Rightarrow> ((goerror + 'm) \<times> log_state) go" where
  "ReadManagerFromContext env ctx st =
     (case ctx_Value (env_G env) ctx contextTokenManagerKey of
        NoValue \<Rightarrow>
          go_bind (log_Error env (Some ctx) [''token'' \<mapsto> FVal VNil] ''missing token manager'' [] st)
            (\<lambda>st1. Ret (Inl (errs_New (env_P env) ''missing token manager''), st1))
      | AManager tm \<Rightarrow> Ret (Inr tm, st)
      | AValue v \<Rightarrow> Panic ''interface conversion'')"

definition LocateIdentity :: "('c, 'm) log_env \<Rightarrow> uuid_lib \<Rightarrow> 'c \<Rightarrow> log_state
    \<Rightarrow> ((goerror + uuid \<times> string) \<times> log_state) go" where
  "LocateIdentity env U ctx st =
     go_bind (ReadManagerFromContext env ctx st) (\<lambda>(r, st1).
       case r of
         Inl err \<Rightarrow> Ret (Inl err, st1)
       | Inr tm \<Rightarrow> go_bind (Locate (env_P env) (env_G env) U ctx) (\<lambda>r'. Ret (r', st1)))"

definition InjectTokenManager :: "('c, 'm) goa_lib \<Rightarrow> 'm \<Rightarrow> 'c handler \<Rightarrow> 'c handler" where
  "InjectTokenManager G tokenManager h ctx req resp st =
     h (ContextWithTokenManager G ctx (AManager tokenManager)) req resp st"


subsection \<open>The contract of a key store\<close>

text \<open>
  What verifying and handing out keys relies on: adding a key makes it the one found under its ID and
  appends it to the list of all keys.
\<close>

locale key_store =
  fixes lookup :: "'m \<Rightarrow> 'i \<Rightarrow> 'k option"
    and add :: "'m \<Rightarrow> 'i \<Rightarrow> 'k \<Rightarrow> 'm"
    and all_keys :: "'m \<Rightarrow> 'k list"
  assumes lookup_add: "lookup (add m i k) j = (if j = i then Some k else lookup m j)"
    and all_add: "all_keys (add m i k) = all_keys m @ [k]"
begin

definition consistent_store :: "'m \<Rightarrow> bool" where
  "consistent_store m \<longleftrightarrow> (\<forall>i k. lookup m i = Some k \<longrightarrow> k \<in> set (all_keys m))"

lemma add_consistent: "consistent_store m \<Longrightarrow> consistent_store (add m i k)"
  by (auto simp: consistent_store_def lookup_add all_add)

lemma foldl_consistent: "consistent_store m \<Longrightarrow> consistent_store (foldl (\<lambda>m x. add m (f x) (g x)) m xs)"
  by (induction xs arbitrary: m) (simp_all add: add_consistent)

text \<open>The last key added under an ID is the one found.\<close>

lemma lookup_foldl:
  "lookup (foldl (\<lambda>m x. add m (f x) (g x)) m xs) i =
     (case find (\<lambda>x. f x = i) (rev xs) of Some x \<Rightarrow> Some (g x) | None \<Rightarrow> lookup m i)"
  by (induction xs rule: rev_induct) (auto simp: lookup_add)

lemma all_foldl: "all_keys (foldl (\<lambda>m x. add m (f x) (g x)) m xs) = all_keys m @ map g xs"
  by (induction xs rule: rev_induct) (simp_all add: all_add)

end

interpretation manager_keys: key_store PublicKey add_key PublicKeys
  by unfold_locales (auto simp: PublicKey_def PublicKeys_def add_key_def)

lemma empty_manager_keys [simp]:
  "PublicKey (empty_manager config) i = None" "PublicKeys (empty_manager config) = []"
  by (simp_all add: PublicKey_def PublicKeys_def empty_manager_def)

lemma tm_config_foldl: "tm_config (foldl (\<lambda>tm k. add_key tm (f k) (g k)) tm ks) = tm_config tm"
  by (induction ks arbitrary: tm) (simp_all add: add_key_def)

subsection \<open>Lemmas on verification\<close>

text \<open>A key the key function returns is the manager's key for the token's \<open>kid\<close>.\<close>

lemma keyFunction_key:
  assumes "keyFunction env mgm ctx token st = Ret (Inr k, st')"
  shows "tok_Header token ''kid'' \<noteq> VNil \<and> PublicKey mgm (Sprintf ''%s'' [tok_Header token ''kid'']) = Some k \<and> st' = st"
  using assms
  by (auto simp: keyFunction_def Let_def go_bind_eq_Ret simp del: Sprintf.simps split: if_splits option.splits)

lemma vouched_key:
  assumes "vouched verifies s (keyFunction env mgm ctx) t"
  shows "tok_Valid t \<and> tok_Raw t = s \<and> tok_Header t ''kid'' \<noteq> VNil \<and>
    (\<exists>k. PublicKey mgm (Sprintf ''%s'' [tok_Header t ''kid'']) = Some k \<and> verifies s k)"
proof -
  from assms obtain t0 k st st' where v: "tok_Valid t" "tok_Raw t = s" "tok_Header t0 = tok_Header t"
    "keyFunction env mgm ctx t0 st = Ret (Inr k, st')" "verifies s k"
    unfolding vouched_def by blast
  from keyFunction_key [OF v(4)] v show ?thesis by (simp del: Sprintf.simps)
qed

text \<open>A parser that takes the whole token for its key ID, for evaluating concrete cases.\<close>

definition kid_token :: "string \<Rightarrow> claims \<Rightarrow> jwt_token" where
  "kid_token s c = \<lparr>tok_Raw = s, tok_Header = (\<lambda>h. if h = ''kid'' then VString s else VNil), tok_Claims = c, tok_Valid = True\<rparr>"

definition kid_parse :: "claims \<Rightarrow> string \<Rightarrow> string keyfunc \<Rightarrow> log_state \<Rightarrow> ((goerror + jwt_token) \<times> log_state) go" where
  "kid_parse c s kf st =
     go_bind (kf (kid_token s c) st) (\<lambda>(r, st').
       case r of Inl e \<Rightarrow> Ret (Inl e, st')
       | Inr k \<Rightarrow> (if k = s then Ret (Inr (kid_token s c), st') else Ret (Inl (std_errors_New ''crypto/rsa: verification error''), st')))"

definition kid_jwt :: "(string \<Rightarrow> gval) \<Rightarrow> token_claims \<Rightarrow> string jwt_lib" where
  "kid_jwt m c = \<lparr>jwt_Parse = kid_parse (MapClaims m), jwt_ParseWithClaims = kid_parse (TokenClaims c)\<rparr>"

lemma kid_parse_vouched:
  "kid_parse c s kf st = Ret (Inr t, st') \<Longrightarrow> vouched (\<lambda>s k. k = s) s kf t \<and> tok_Claims t = c"
  unfolding kid_parse_def go_bind_sum_eq_Ret by (auto simp: vouched_def kid_token_def split: if_split_asm)

lemma kid_jwt_ok: "jwt_ok (kid_jwt m c) (\<lambda>s k. k = s)"
  unfolding jwt_ok_def kid_jwt_def by (auto dest: kid_parse_vouched)

subsection \<open>The properties\<close>

text \<open>What each way of parsing accepts is a token the parser vouched for.\<close>

definition under_own_key :: "(string \<Rightarrow> 'k \<Rightarrow> bool) \<Rightarrow> 'k tokenManager \<Rightarrow> string \<Rightarrow> jwt_token \<Rightarrow> bool" where
  "under_own_key verifies mgm s t \<longleftrightarrow> tok_Valid t \<and> tok_Raw t = s \<and> tok_Header t ''kid'' \<noteq> VNil \<and>
     (\<exists>k. PublicKey mgm (Sprintf ''%s'' [tok_Header t ''kid'']) = Some k \<and> verifies s k)"

lemma accepted_under_own_key:
  assumes "jwt_ok J verifies"
  shows "jwt_Parse J s (keyFunction env mgm ctx) st = Ret (Inr t, st') \<Longrightarrow> under_own_key verifies mgm s t"
    and "jwt_ParseWithClaims J s (keyFunction env mgm ctx) st = Ret (Inr t, st') \<Longrightarrow> under_own_key verifies mgm s t"
  unfolding under_own_key_def
  by (rule vouched_key [of verifies s env mgm ctx t], use assms in \<open>unfold jwt_ok_def, blast\<close>)+

lemma ParseToken_accepted:
  assumes "ParseToken J env mgm ctx s st = Ret (Inr tc, st2)"
  shows "\<exists>t. jwt_ParseWithClaims J s (keyFunction env mgm ctx) st = Ret (Inr t, st2) \<and> tok_Claims t = TokenClaims tc"
proof -
  from assms obtain t st1 where p: "jwt_ParseWithClaims J s (keyFunction env mgm ctx) st = Ret (Inr t, st1)"
    unfolding ParseToken_def go_bind_sum_eq_Ret by (auto simp: go_bind_eq_Ret)
  with assms show ?thesis
    by (cases "tok_Claims t"; cases "tok_Valid t") (simp_all add: ParseToken_def)
qed

lemma ParseTokenWithMapClaims_accepted:
  assumes "ParseTokenWithMapClaims J env mgm ctx s st = Ret (Inr m, st2)"
  shows "\<exists>t. jwt_Parse J s (keyFunction env mgm ctx) st = Ret (Inr t, st2) \<and> tok_Claims t = MapClaims m"
proof -
  from assms obtain t st1 where p: "jwt_Parse J s (keyFunction env mgm ctx) st = Ret (Inr t, st1)"
    unfolding ParseTokenWithMapClaims_def go_bind_sum_eq_Ret by (auto simp: go_bind_eq_Ret)
  with assms show ?thesis
    by (cases "tok_Claims t"; cases "tok_Valid t") (simp_all add: ParseTokenWithMapClaims_def)
qed

text \<open>C5: The token manager accepts a token only when its header names a key, the manager has a key under
  that very ID, and the token's signature verifies under it; that holds for all three ways of parsing: the claims that
  \<open>ParseToken\<close> and \<open>ParseTokenWithMapClaims\<close> return are those of such a token, parsed from the string they were given.
  What \<open>Parse\<close> refuses, it refuses with an unauthorized error.\<close>

theorem parse_only_known_keys:
  assumes "jwt_ok J verifies"
  shows "(manager_Parse J env mgm ctx s st = Ret (Inr t, st1) \<longrightarrow>
            tok_Valid t \<and> tok_Raw t = s \<and> tok_Header t ''kid'' \<noteq> VNil \<and>
            (\<exists>k. PublicKey mgm (Sprintf ''%s'' [tok_Header t ''kid'']) = Some k \<and> verifies s k)) \<and>
         (ParseToken J env mgm ctx s st = Ret (Inr tc, st2) \<longrightarrow>
            (\<exists>t k. jwt_ParseWithClaims J s (keyFunction env mgm ctx) st = Ret (Inr t, st2) \<and> tok_Claims t = TokenClaims tc \<and>
               tok_Valid t \<and> tok_Raw t = s \<and> tok_Header t ''kid'' \<noteq> VNil \<and>
               PublicKey mgm (Sprintf ''%s'' [tok_Header t ''kid'']) = Some k \<and> verifies s k)) \<and>
         (ParseTokenWithMapClaims J env mgm ctx s st = Ret (Inr m, st3) \<longrightarrow>
            (\<exists>t k. jwt_Parse J s (keyFunction env mgm ctx) st = Ret (Inr t, st3) \<and> tok_Claims t = MapClaims m \<and>
               tok_Valid t \<and> tok_Raw t = s \<and> tok_Header t ''kid'' \<noteq> VNil \<and>
               PublicKey mgm (Sprintf ''%s'' [tok_Header t ''kid'']) = Some k \<and> verifies s k)) \<and>
         (manager_Parse J env mgm ctx s st = Ret (Inl e, st4) \<longrightarrow> e \<in> range UnauthorizedError)"
proof (intro conjI impI)
  note accepted = accepted_under_own_key [OF assms, unfolded under_own_key_def]
  assume "manager_Parse J env mgm ctx s st = Ret (Inr t, st1)"
  then have "jwt_Parse J s (keyFunction env mgm ctx) st = Ret (Inr t, st1)"
    unfolding manager_Parse_def go_bind_sum_eq_Ret by (auto simp: go_bind_eq_Ret)
  from accepted(1) [OF this]
  show "tok_Valid t" "tok_Raw t = s" "tok_Header t ''kid'' \<noteq> VNil"
    "\<exists>k. PublicKey mgm (Sprintf ''%s'' [tok_Header t ''kid'']) = Some k \<and> verifies s k"
    by (simp_all only: simp_thms)
next
  note accepted = accepted_under_own_key [OF assms, unfolded under_own_key_def]
  assume "ParseToken J env mgm ctx s st = Ret (Inr tc, st2)"
  from ParseToken_accepted [OF this] obtain t
    where "jwt_ParseWithClaims J s (keyFunction env mgm ctx) st = Ret (Inr t, st2)" "tok_Claims t = TokenClaims tc" by blast
  with accepted(2) [OF this(1)]
  show "\<exists>t k. jwt_ParseWithClaims J s (keyFunction env mgm ctx) st = Ret (Inr t, st2) \<and> tok_Claims t = TokenClaims tc \<and>
     tok_Valid t \<and> tok_Raw t = s \<and> tok_Header t ''kid'' \<noteq> VNil \<and>
     PublicKey mgm (Sprintf ''%s'' [tok_Header t ''kid'']) = Some k \<and> verifies s k" by blast
next
  note accepted = accepted_under_own_key [OF assms, unfolded under_own_key_def]
  assume "ParseTokenWithMapClaims J env mgm ctx s st = Ret (Inr m, st3)"
  from ParseTokenWithMapClaims_accepted [OF this] obtain t
    where "jwt_Parse J s (keyFunction env mgm ctx) st = Ret (Inr t, st3)" "tok_Claims t = MapClaims m" by blast
  with accepted(1) [OF this(1)]
  show "\<exists>t k. jwt_Parse J s (keyFunction env mgm ctx) st = Ret (Inr t, st3) \<and> tok_Claims t = MapClaims m \<and>
     tok_Valid t \<and> tok_Raw t = s \<and> tok_Header t ''kid'' \<noteq> VNil \<and>
     PublicKey mgm (Sprintf ''%s'' [tok_Header t ''kid'']) = Some k \<and> verifies s k" by blast
next
  assume "manager_Parse J env mgm ctx s st = Ret (Inl e, st4)"
  then show "e \<in> range UnauthorizedError"
    unfolding manager_Parse_def go_bind_sum_eq_Ret by (auto simp: go_bind_eq_Ret NewUnauthorizedError_def)
qed

definition ex_config :: manager_config where
  "ex_config = \<lparr>cfg_AuthServiceURL = ''https://auth'', cfg_DevModePrivateKey = None\<rparr>"

definition ex_manager :: "string tokenManager" where
  "ex_manager = NewManagerWithPublicKey ''k1'' ''k1'' ex_config"

definition quiet :: log_state where
  "quiet = \<lparr>own = log_New\<lparr>lg_Level := PanicLevel\<rparr>, std = log_New, emitted = []\<rparr>"

definition ex_auth_env :: "(string tokenManager plain_context, string tokenManager) log_env" where
  "ex_auth_env = \<lparr>env_P = documented_errs, env_G = plain_goa, env_pid = 7, env_caller = None\<rparr>"

theorem parse_only_known_keys_witness:
  "manager_Parse (kid_jwt (\<lambda>c. VNil) undefined) ex_auth_env ex_manager background ''k1'' quiet =
     Ret (Inr (kid_token ''k1'' (MapClaims (\<lambda>c. VNil))), quiet) \<and>
   (\<exists>k. PublicKey ex_manager ''k1'' = Some k \<and> k = ''k1'')"
proof -
  have run: "manager_Parse (kid_jwt (\<lambda>c. VNil) undefined) ex_auth_env ex_manager background ''k1'' quiet =
     Ret (Inr (kid_token ''k1'' (MapClaims (\<lambda>c. VNil))), quiet)"
    by (simp add: manager_Parse_def kid_jwt_def kid_parse_def keyFunction_def kid_token_def ex_manager_def
        NewManagerWithPublicKey_def PublicKey_def print_arg_def extra_args_def)
  with parse_only_known_keys [OF kid_jwt_ok, where env = ex_auth_env and mgm = ex_manager and ctx = background
      and s = "''k1''" and st = quiet and m = undefined and tc = undefined]
  have "\<exists>k. PublicKey ex_manager (Sprintf ''%s'' [tok_Header (kid_token ''k1'' (MapClaims (\<lambda>c. VNil))) ''kid'']) = Some k \<and> k = ''k1''"
    by blast
  with run show ?thesis by (simp add: kid_token_def print_arg_def extra_args_def)
qed


text \<open>What \<open>NewManager\<close> makes of what was fetched.\<close>

definition loaded :: "manager_config \<Rightarrow> 'k public_key list \<Rightarrow> 'k tokenManager" where
  "loaded config keys = foldl (\<lambda>tm k. add_key tm (pk_KeyID k) (pk_Key k)) (empty_manager config) keys"

lemma loaded_simps [simp]:
  "tm_config (loaded config keys) = config"
  "PublicKeys (loaded config keys) = map pk_Key keys"
  "PublicKey (loaded config keys) i = map_option pk_Key (find (\<lambda>k. pk_KeyID k = i) (rev keys))"
  unfolding loaded_def
  by (simp_all add: tm_config_foldl manager_keys.all_foldl manager_keys.lookup_foldl split: option.splits)
    (simp add: empty_manager_def)

lemma loaded_consistent: "manager_keys.consistent_store (loaded config keys)"
  unfolding loaded_def by (rule manager_keys.foldl_consistent) (simp add: manager_keys.consistent_store_def)

lemma NewManager_cases:
  assumes "FetchKeys P do_request C
      (RemoveTrailingSlashFromURL (cfg_AuthServiceURL config) @ keysPath) options n = (fetched, b, n')"
  shows "NewManager P do_request C keysPath ParsePEM config options n =
    (case fetched of Inl err \<Rightarrow> (Inl (errs_New P ''unable to load public keys from auth service''), n')
     | Inr keys \<Rightarrow> (case cfg_DevModePrivateKey config of None \<Rightarrow> (Inr (loaded config keys), n')
         | Some pem \<Rightarrow> (case ParsePEM pem of Inl err \<Rightarrow> (Inl err, n')
             | Inr key \<Rightarrow> (Inr (add_key (loaded config keys) devModeKeyID key), n'))))"
proof -
  have "Sprintf ''%s%s'' [VString (RemoveTrailingSlashFromURL (cfg_AuthServiceURL config)), VString keysPath] =
      RemoveTrailingSlashFromURL (cfg_AuthServiceURL config) @ keysPath"
    by (simp add: print_arg_def extra_args_def)
  with assms show ?thesis unfolding NewManager_def Let_def loaded_def by simp
qed

text \<open>Every key a new manager finds was published by the authentication service, or is the development key.\<close>

lemma NewManager_trusts:
  assumes "NewManager P do_request C keysPath ParsePEM config options n = (Inr tm, n')" and "PublicKey tm i = Some k"
  shows "published do_request C (RemoveTrailingSlashFromURL (cfg_AuthServiceURL config) @ keysPath) options n i k \<or>
    i = ''test-key'' \<and> (\<exists>pem. cfg_DevModePrivateKey config = Some pem \<and> ParsePEM pem = Inr k)"
proof -
  obtain fetched b n1 where f: "FetchKeys P do_request C
      (RemoveTrailingSlashFromURL (cfg_AuthServiceURL config) @ keysPath) options n = (fetched, b, n1)"
    by (metis prod_cases3)
  note new = NewManager_cases [OF f, of ParsePEM]
  obtain keys where keys: "fetched = Inr keys" using assms(1) new by (cases fetched) simp_all
  have "published do_request C (RemoveTrailingSlashFromURL (cfg_AuthServiceURL config) @ keysPath) options n i k"
    if "find (\<lambda>k. pk_KeyID k = i) (rev keys) = Some key" "k = pk_Key key" for key
  proof -
    from that(1) have "key \<in> set keys" "pk_KeyID key = i" by (auto simp: find_Some_iff rev_nth)
    with FetchKeys_published [OF f [unfolded keys], of key] that(2) show ?thesis by simp
  qed
  with assms new keys show ?thesis
    by (auto simp: manager_keys.lookup_add devModeKeyID_def split: option.splits sum.splits if_splits)
qed

text \<open>C12: A new manager finds under each ID the last key the service listed with it, the development key
  taking precedence for its own ID, and hands out all the keys in the order they were listed; every key
  it can find is among those it hands out. If the keys cannot be fetched, or the development key does
  not parse, there is no manager.\<close>

theorem new_manager_spec:
  assumes "FetchKeys P do_request C
      (RemoveTrailingSlashFromURL (cfg_AuthServiceURL config) @ keysPath) options n = (fetched, b, n')"
  shows "(\<forall>keys. fetched = Inr keys \<and> cfg_DevModePrivateKey config = None \<longrightarrow>
      (\<exists>tm. NewManager P do_request C keysPath ParsePEM config options n = (Inr tm, n') \<and> tm_config tm = config \<and>
         PublicKeys tm = map pk_Key keys \<and>
         (\<forall>i. PublicKey tm i = map_option pk_Key (find (\<lambda>k. pk_KeyID k = i) (rev keys))) \<and>
         (\<forall>i k. PublicKey tm i = Some k \<longrightarrow> k \<in> set (PublicKeys tm)))) \<and>
    (\<forall>keys pem dev. fetched = Inr keys \<and> cfg_DevModePrivateKey config = Some pem \<and> ParsePEM pem = Inr dev \<longrightarrow>
      (\<exists>tm. NewManager P do_request C keysPath ParsePEM config options n = (Inr tm, n') \<and>
         PublicKeys tm = map pk_Key keys @ [dev] \<and> PublicKey tm ''test-key'' = Some dev \<and>
         (\<forall>i. i \<noteq> ''test-key'' \<longrightarrow> PublicKey tm i = map_option pk_Key (find (\<lambda>k. pk_KeyID k = i) (rev keys))) \<and>
         (\<forall>i k. PublicKey tm i = Some k \<longrightarrow> k \<in> set (PublicKeys tm)))) \<and>
    (\<forall>e. fetched = Inl e \<longrightarrow> NewManager P do_request C keysPath ParsePEM config options n =
       (Inl (errs_New P ''unable to load public keys from auth service''), n')) \<and>
    (\<forall>keys pem e. fetched = Inr keys \<and> cfg_DevModePrivateKey config = Some pem \<and> ParsePEM pem = Inl e \<longrightarrow>
       NewManager P do_request C keysPath ParsePEM config options n = (Inl e, n'))"
proof -
  note new = NewManager_cases [OF assms, of ParsePEM]
  note con = loaded_consistent [unfolded manager_keys.consistent_store_def]
  note con_dev = manager_keys.add_consistent [OF loaded_consistent, where i = devModeKeyID, unfolded manager_keys.consistent_store_def]
  show ?thesis
  proof (intro conjI allI impI)
    fix keys
    assume "fetched = Inr keys \<and> cfg_DevModePrivateKey config = None"
    with new con [of config keys]
    show "\<exists>tm. NewManager P do_request C keysPath ParsePEM config options n = (Inr tm, n') \<and> tm_config tm = config \<and>
         PublicKeys tm = map pk_Key keys \<and>
         (\<forall>i. PublicKey tm i = map_option pk_Key (find (\<lambda>k. pk_KeyID k = i) (rev keys))) \<and>
         (\<forall>i k. PublicKey tm i = Some k \<longrightarrow> k \<in> set (PublicKeys tm))"
      by (intro exI [of _ "loaded config keys"]) simp
  next
    fix keys pem dev
    assume "fetched = Inr keys \<and> cfg_DevModePrivateKey config = Some pem \<and> ParsePEM pem = Inr dev"
    with new con_dev [of config keys dev]
    show "\<exists>tm. NewManager P do_request C keysPath ParsePEM config options n = (Inr tm, n') \<and>
         PublicKeys tm = map pk_Key keys @ [dev] \<and> PublicKey tm ''test-key'' = Some dev \<and>
         (\<forall>i. i \<noteq> ''test-key'' \<longrightarrow> PublicKey tm i = map_option pk_Key (find (\<lambda>k. pk_KeyID k = i) (rev keys))) \<and>
         (\<forall>i k. PublicKey tm i = Some k \<longrightarrow> k \<in> set (PublicKeys tm))"
      by (intro exI [of _ "add_key (loaded config keys) devModeKeyID dev"])
        (simp add: manager_keys.lookup_add manager_keys.all_add devModeKeyID_def)
  qed (use new in simp_all)
qed

theorem new_manager_spec_witness:
  "\<exists>tm. fst (NewManager documented_errs
      (\<lambda>c m u w. (Inr \<lparr>res_Status = ''200 OK'', res_StatusCode = 200,
         res_Body = \<lparr>body_reads = [(''a,b'', Some io_EOF)], body_closes = 0, body_close_result = None\<rparr>\<rparr>, w))
      ex_codec ''/keys'' Inr \<lparr>cfg_AuthServiceURL = ''/'', cfg_DevModePrivateKey = Some ''pem''\<rparr> []
      \<lparr>default_client = \<lparr>client_Transport = None :: nat option\<rparr>, network = ()\<rparr>) = Inr tm \<and>
    PublicKeys tm = [''a'', ''b'', ''pem''] \<and> PublicKey tm ''b'' = Some ''b''"
proof -
  let ?b = "\<lparr>body_reads = [(''a,b'', Some io_EOF)], body_closes = 0, body_close_result = None\<rparr> :: body"
  let ?do = "\<lambda>(c :: nat http_client) (m :: string) (u :: string) w.
    (Inr \<lparr>res_Status = ''200 OK'', res_StatusCode = 200, res_Body = ?b\<rparr> :: goerror + http_response, w)"
  let ?n = "\<lparr>default_client = \<lparr>client_Transport = None\<rparr>, network = ()\<rparr> :: (nat, unit) net"
  let ?config = "\<lparr>cfg_AuthServiceURL = ''/'', cfg_DevModePrivateKey = Some ''pem''\<rparr>"
  have u: "url_Parse ''/keys'' = Inr (empty_url\<lparr>url_Path := ''/keys''\<rparr>)" by code_simp
  have body: "ReadBody ?b = (''a,b'', None, ?b\<lparr>body_reads := []\<rparr>)"
    by (simp add: ReadBody_def ReadAll_def)
  have keys: "unmarshalKeys ex_codec ''a,b'' = Inr [\<lparr>pk_KeyID = ''a'', pk_Key = ''a''\<rparr>, \<lparr>pk_KeyID = ''b'', pk_Key = ''b''\<rparr>]"
    by (simp add: unmarshalKeys_def ex_codec_def unmarshalKey_def)
  have "FetchKeys documented_errs ?do ex_codec (RemoveTrailingSlashFromURL (cfg_AuthServiceURL ?config) @ ''/keys'') [] ?n =
      (Inr [\<lparr>pk_KeyID = ''a'', pk_Key = ''a''\<rparr>, \<lparr>pk_KeyID = ''b'', pk_Key = ''b''\<rparr>],
       Some (snd (CloseResponse (?b\<lparr>body_reads := []\<rparr>))), ?n)"
    by (simp add: FetchKeys_def RemoveTrailingSlashFromURL_def HasSuffix_def u body keys apply_options_def StatusOK_def)
  from new_manager_spec [OF this, of Inr] show ?thesis by auto
qed

text \<open>Without a manager in the context there is an error, or the panic of the logger on a \<open>sub\<close> claim that is no string.\<close>

lemma no_manager:
  assumes "good_caller (env_caller env)" and "ctx_Value (env_G env) ctx contextTokenManagerKey = NoValue"
    and "ContextJWT (env_G env) ctx = Some t" and "tok_Claims t = MapClaims m"
  shows "if ErrorLevel \<le> lg_Level (own st) \<and> m ''sub'' \<noteq> VNil \<and> (\<forall>s. m ''sub'' \<noteq> VString s)
    then panics (LocateIdentity env U ctx st)
    else (\<exists>st'. LocateIdentity env U ctx st = Ret (Inl (errs_New (env_P env) ''missing token manager''), st') \<and> own st' = own st)"
proof (cases "m ''sub'' \<noteq> VNil \<and> (\<forall>s. m ''sub'' \<noteq> VString s)")
  case True
  then have sub: "as_string (m ''sub'') = None" by (cases "m ''sub''") auto
  obtain d where "extractCallerDetails (env_caller env) = Ret d" using extractCallerDetails_good [OF assms(1)] by blast
  with True sub assms(2-4) show ?thesis
    by (simp add: LocateIdentity_def ReadManagerFromContext_def log_Error_def opt_ctx_fields_def ctx_fields_def
        extractIdentityID_def map_claims_def)
next
  case False
  then have "readable_identity (env_G env) ctx" using assms(3,4) by (auto simp: readable_identity_def)
  with log_Error_entry [OF assms(1), of "Some ctx" "[''token'' \<mapsto> FVal VNil]" "''missing token manager''" "[]" st]
  obtain c where "log_Error env (Some ctx) [''token'' \<mapsto> FVal VNil] ''missing token manager'' [] st =
      Ret (if ErrorLevel \<le> lg_Level (own st) then emit c st else st)" by auto
  with False assms(2) show ?thesis
    by (auto simp: LocateIdentity_def ReadManagerFromContext_def emit_def)
qed

text \<open>C13: Through the manager a request carries, the identity of its token: with the manager injected by
  the middleware, \<open>LocateIdentity\<close> returns the UUID of \<open>sub\<close> and the user name exactly when both claims
  are strings and the first is a UUID; otherwise it returns an error and no identity. A token whose
  claims are a map never makes it panic then, whatever the claims are. Without a manager in the context
  there is an error, even for a perfect token and at every log level, and never an identity; it is then that a \<open>sub\<close> claim
  that is neither absent nor a string panics, inside the logger, wherever errors are logged.\<close>

theorem locate_identity_spec:
  assumes "goa_ok (env_G env)" and "ContextJWT (env_G env) ctx = Some t" and "tok_Claims t = MapClaims m"
    and "good_caller (env_caller env)"
  shows "(LocateIdentity env U (ContextWithTokenManager (env_G env) ctx (AManager tm)) st = Ret (Inr (u, name), st) \<longleftrightarrow>
            (\<exists>s. m ''sub'' = VString s \<and> uuid_FromString U s = Inr u) \<and> m ''preferred_username'' = VString name) \<and>
    (\<exists>r. LocateIdentity env U (ContextWithTokenManager (env_G env) ctx (AManager tm)) st = Ret (r, st)) \<and>
    (ctx_Value (env_G env) ctx contextTokenManagerKey = NoValue \<longrightarrow>
       (if ErrorLevel \<le> lg_Level (own st) \<and> m ''sub'' \<noteq> VNil \<and> (\<forall>s. m ''sub'' \<noteq> VString s)
        then panics (LocateIdentity env U ctx st)
        else (\<exists>st'. LocateIdentity env U ctx st = Ret (Inl (errs_New (env_P env) ''missing token manager''), st') \<and> own st' = own st)))"
proof (intro conjI impI)
  let ?ctx = "ContextWithTokenManager (env_G env) ctx (AManager tm)"
  have loc: "LocateIdentity env U ?ctx st = go_bind (Locate (env_P env) (env_G env) U ?ctx) (\<lambda>r. Ret (r, st))"
    using WithValue_ok(1) [OF assms(1)]
    by (simp add: LocateIdentity_def ReadManagerFromContext_def ContextWithTokenManager_def)
  have jwt: "ContextJWT (env_G env) ?ctx = Some t"
    using WithValue_ok(2) [OF assms(1)] assms(2) by (simp add: ContextWithTokenManager_def)
  show "LocateIdentity env U ?ctx st = Ret (Inr (u, name), st) \<longleftrightarrow>
      (\<exists>s. m ''sub'' = VString s \<and> uuid_FromString U s = Inr u) \<and> m ''preferred_username'' = VString name"
    "\<exists>r. LocateIdentity env U ?ctx st = Ret (r, st)"
    using assms(3) unfolding loc by (auto simp: Locate_def jwt map_claims_def split: option.splits sum.splits)
qed (rule no_manager [OF assms(4) _ assms(2,3)])

definition ex_user :: "string \<Rightarrow> gval" where
  "ex_user c = (if c = ''sub'' then VString ''42'' else if c = ''preferred_username'' then VString ''jdoe'' else VNil)"

definition ex_user_ctx :: "string tokenManager plain_context" where
  "ex_user_ctx = background\<lparr>pc_JWT := Some (kid_token ''k1'' (MapClaims ex_user))\<rparr>"

theorem locate_identity_spec_witness:
  "LocateIdentity ex_auth_env decimal_uuids (ContextWithTokenManager plain_goa ex_user_ctx (AManager ex_manager)) quiet =
     Ret (Inr (42, ''jdoe''), quiet)"
proof -
  have "goa_ok (env_G ex_auth_env)" using plain_goa_ok by (simp add: ex_auth_env_def)
  moreover have "ContextJWT (env_G ex_auth_env) ex_user_ctx = Some (kid_token ''k1'' (MapClaims ex_user))"
    by (simp add: ex_auth_env_def plain_goa_def ex_user_ctx_def)
  moreover have "tok_Claims (kid_token ''k1'' (MapClaims ex_user)) = MapClaims ex_user" by (simp add: kid_token_def)
  moreover have "uuid_FromString decimal_uuids ''42'' = Inr 42"
    by (simp add: decimal_uuids_def decimal_FromString_def decimal_String_def nat_digits.simps digits_val_def
        digit_val_def digit_char_def)
  moreover have "good_caller (env_caller ex_auth_env)" by (simp add: ex_auth_env_def good_caller_def)
  ultimately show ?thesis
    using locate_identity_spec [of ex_auth_env ex_user_ctx _ ex_user decimal_uuids ex_manager quiet 42 "''jdoe''"]
    by (simp add: ex_user_def ex_auth_env_def)
qed


text \<open>A request is a service account's exactly when its token's \<open>service_accountname\<close> claim is a
  string, and it is one of the named accounts exactly when that string is among the names; no name
  list matches a request without such a claim.\<close>

theorem service_account_spec:
  assumes "ContextJWT G ctx = Some t" and "tok_Claims t = MapClaims m"
  shows "IsServiceAccount G ctx = Ret (\<exists>s. m ''service_accountname'' = VString s) \<and>
    IsSpecificServiceAccount G ctx names = Ret (\<exists>s. m ''service_accountname'' = VString s \<and> s \<in> set names)"
proof -
  have loop: "account_loop a ns \<longleftrightarrow> a \<in> set ns" for a ns by (induction ns) auto
  show ?thesis
    using assms by (cases "m ''service_accountname''")
      (auto simp: IsServiceAccount_def IsSpecificServiceAccount_def ExtractServiceAccountName_def map_claims_def loop)
qed

theorem service_account_spec_witness:
  "IsSpecificServiceAccount plain_goa (background\<lparr>pc_JWT := Some (kid_token ''k1''
      (MapClaims (\<lambda>c. if c = ''service_accountname'' then VString ''fabric8-auth'' else VNil)))\<rparr> :: nat plain_context)
     [''fabric8-wit'', ''fabric8-auth''] = Ret True"
  using service_account_spec [of plain_goa "background\<lparr>pc_JWT := Some (kid_token ''k1''
      (MapClaims (\<lambda>c. if c = ''service_accountname'' then VString ''fabric8-auth'' else VNil)))\<rparr> :: nat plain_context"
      _ "\<lambda>c. if c = ''service_accountname'' then VString ''fabric8-auth'' else VNil" "[''fabric8-wit'', ''fabric8-auth'']"]
  by (simp add: plain_goa_def kid_token_def)

text \<open>\<open>CheckClaims\<close> accepts exactly the claims with a subject that is a UUID, a user name and an e-mail
  address; its errors come in the order subject, UUID, user name, e-mail.\<close>

theorem check_claims_spec:
  assumes "uuid_lib_ok U" and "\<And>s e. uuid_FromString U s = Inl e \<Longrightarrow> \<exists>m. Error e = Ret m"
  shows "(CheckClaims P U claims = Ret None \<longleftrightarrow>
       (\<exists>u. uuid_FromString U (sc_Subject (tc_StandardClaims claims)) = Inr u) \<and>
       tc_Username claims \<noteq> '''' \<and> tc_Email claims \<noteq> '''') \<and>
    \<not> panics (CheckClaims P U claims) \<and>
    (sc_Subject (tc_StandardClaims claims) = uuid_String U u \<and> tc_Username claims = '''' \<longrightarrow>
       CheckClaims P U claims = Ret (Some (errs_New P ''username claim not found in token'')))"
proof -
  have empty: "\<exists>e. uuid_FromString U '''' = Inl e" and rt: "uuid_FromString U (uuid_String U u) = Inr u"
    using assms(1) by (auto simp: uuid_lib_ok_def)
  then have "uuid_String U u \<noteq> ''''" by (metis sum.distinct(1))
  show ?thesis
  proof (cases "uuid_FromString U (sc_Subject (tc_StandardClaims claims))")
    case (Inl e)
    with assms(2) obtain msg where "Error e = Ret msg" by blast
    with Inl rt \<open>uuid_String U u \<noteq> ''''\<close> show ?thesis by (auto simp: CheckClaims_def)
  next
    case (Inr v)
    with empty have "sc_Subject (tc_StandardClaims claims) \<noteq> ''''" by auto
    with Inr rt show ?thesis by (simp add: CheckClaims_def)
  qed
qed

definition ex_claims :: token_claims where
  "ex_claims = \<lparr>tc_Name = ''J'', tc_Username = ''jdoe'', tc_GivenName = '''', tc_FamilyName = '''', tc_Email = ''j@d.org'',
     tc_EmailVerified = False, tc_Company = '''', tc_SessionState = '''', tc_Approved = True, tc_Permissions = None,
     tc_StandardClaims = \<lparr>sc_Subject = decimal_String 7, sc_Audience = '''', sc_Issuer = '''', sc_Id = '''',
       sc_ExpiresAt = 0, sc_IssuedAt = 0, sc_NotBefore = 0\<rparr>\<rparr>"

theorem check_claims_spec_witness:
  "CheckClaims documented_errs decimal_uuids ex_claims = Ret None"
proof -
  have "uuid_FromString decimal_uuids s = Inl e \<Longrightarrow> \<exists>m. Error e = Ret m" for s e
    by (auto simp: decimal_uuids_def decimal_FromString_def split: if_splits)
  with check_claims_spec [OF decimal_uuids_ok, of documented_errs ex_claims] show ?thesis
    by (simp add: ex_claims_def decimal_uuids_def)
qed

text \<open>The header that asks for a login: its URL is the authentication service's with exactly one slash
  before \<open>api/login\<close>, whether or not the configured URL ends with one; asking twice does not repeat it;
  and other headers stay.\<close>

theorem login_required_spec:
  assumes "cfg_AuthServiceURL (tm_config mgm) = base \<or> cfg_AuthServiceURL (tm_config mgm) = base @ ''/''"
    and "base \<noteq> ''''" and "\<not> HasSuffix base ''/''"
    and "CanonicalMIMEHeaderKey k \<notin> {''Www-Authenticate'', ''Access-Control-Expose-Headers''}"
  shows "header_values (AddLoginRequiredHeader mgm h) ''WWW-Authenticate'' =
       [''LOGIN url='' @ base @ ''/api/login, description='' @ [CHR 0x22] @ ''re-login is required'' @ [CHR 0x22]] \<and>
    header_values (AddLoginRequiredHeader mgm (AddLoginRequiredHeader mgm h)) ''WWW-Authenticate'' =
       header_values (AddLoginRequiredHeader mgm h) ''WWW-Authenticate'' \<and>
    header_values (AddLoginRequiredHeader mgm h) ''Access-Control-Expose-Headers'' =
       header_values h ''Access-Control-Expose-Headers'' @ [''WWW-Authenticate''] \<and>
    header_values (AddLoginRequiredHeader mgm h) k = header_values h k"
proof -
  have keys: "CanonicalMIMEHeaderKey ''WWW-Authenticate'' = ''Www-Authenticate''"
    "CanonicalMIMEHeaderKey ''Access-Control-Expose-Headers'' = ''Access-Control-Expose-Headers''"
    by code_simp+
  have url: "AddTrailingSlashToURL (cfg_AuthServiceURL (tm_config mgm)) = base @ ''/''"
    using assms(1-3) by (auto simp: AddTrailingSlashToURL_def)
  show ?thesis
    using assms(4) unfolding AddLoginRequiredHeader_def Let_def url hdr.vals_put hdr.vals_add keys
    by (simp add: print_arg_def extra_args_def)
qed

theorem login_required_spec_witness:
  "header_values (AddLoginRequiredHeader ex_manager Map.empty) ''WWW-Authenticate'' =
     [''LOGIN url=https://auth/api/login, description='' @ [CHR 0x22] @ ''re-login is required'' @ [CHR 0x22]]"
  using login_required_spec [of ex_manager "''https://auth''" "''X''" Map.empty]
  by (simp add: ex_manager_def NewManagerWithPublicKey_def ex_config_def HasSuffix_def canonical_eval)

end
