(* ===== verification/Goamiddleware.thy ===== *)
theory Goamiddleware
  imports Auth
begin

section \<open>The token middleware: \<open>goamiddleware/jwt_token_context.go\<close>\<close>

text \<open>
  \<open>TokenContext\<close> wraps a goa handler: a bearer token in the header the security scheme names is parsed
  by the token manager and put into the context of the next handler; a request without one passes. The
  error class it makes its errors with is goa's, a parameter. The handler's request is the one of the
  connection, its response header that of the response writer.
\<close>

datatype location = LocHeader | LocQuery | LocUnset

record jwt_security =
  sch_In :: location
  sch_Name :: string

text \<open>
  How \<open>%q\<close> prints a location (a string type in goa: "header", "query", or empty where a scheme does not set it), and the message of the refusal.
\<close>

definition location_q :: "location \<Rightarrow> string" where
  "location_q l = [CHR 0x22] @ (case l of LocHeader \<Rightarrow> ''header'' | LocQuery \<Rightarrow> ''query'' | LocUnset \<Rightarrow> '''') @ [CHR 0x22]"

definition unsupported :: "location \<Rightarrow> string" where
  "unsupported l = ''security scheme with location (in) '' @ location_q l @ '' not supported''"

definition login_required :: "'k tokenManager \<Rightarrow> goa_response \<Rightarrow> goa_response" where
  "login_required mgm resp = resp\<lparr>rp_Header := AddLoginRequiredHeader mgm (rp_Header resp)\<rparr>"

definition middleware_handler :: "'k jwt_lib \<Rightarrow> ('c, 'k tokenManager) log_env \<Rightarrow> (string \<Rightarrow> string) \<Rightarrow> 'k tokenManager
    \<Rightarrow> jwt_security \<Rightarrow> 'c handler \<Rightarrow> (string \<Rightarrow> goerror) \<Rightarrow> 'c handler" where
  "middleware_handler J env uni tokenManager scheme nextHandler errUnauthorized ctx req resp st =
     (if sch_In scheme \<noteq> LocHeader then
        go_bind (log_Error env (Some ctx) Map.empty (unsupported (sch_In scheme)) [] st) (\<lambda>st1.
          Ret (Some (std_errors_New (unsupported (sch_In scheme))), resp, st1))
      else (let val = header_Get (req_Header req) (sch_Name scheme) in
        if val \<noteq> '''' \<and> HasPrefix (ToLower uni val) ''bearer '' then
          go_bind (log_Debug env (Some ctx) Map.empty
            (''found header '' @ [CHR 0x27] @ ''Authorization: Bearer JWT-token...'' @ [CHR 0x27]) [] st) (\<lambda>st1.
          let parts = Split val (CHR '' '') in
          if length parts < 2 then Panic ''index out of range''
          else (let incomingToken = parts ! 1 in
            go_bind (log_Debug env (Some ctx) Map.empty ''extracted the incoming token %v '' [VString incomingToken] st1) (\<lambda>st2.
            go_bind (manager_Parse J env tokenManager ctx incomingToken st2) (\<lambda>(r, st3).
              case r of
                Inl err \<Rightarrow>
                  go_bind (log_Error env (Some ctx) [''error'' \<mapsto> FVal (VForeign ''error'' (text_of err) (text_of err))]
                    ''failed to handle JSON Web Token in TokenContext middleware'' [] st3) (\<lambda>st4.
                    Ret (Some (errUnauthorized ''token is invalid''), login_required tokenManager resp, st4))
              | Inr token \<Rightarrow> nextHandler (WithJWT (env_G env) ctx token) req resp st3))))
        else nextHandler ctx req resp st))"

text \<open>\<open>goa.NewErrorClass("token_validation_failed", 401)\<close> is the parameter \<open>NewErrorClass\<close> applied.\<close>

definition TokenContext :: "'k jwt_lib \<Rightarrow> ('c, 'k tokenManager) log_env \<Rightarrow> (string \<Rightarrow> string)
    \<Rightarrow> (string \<Rightarrow> int \<Rightarrow> string \<Rightarrow> goerror) \<Rightarrow> 'k tokenManager \<Rightarrow> jwt_security \<Rightarrow> 'c handler \<Rightarrow> 'c handler" where
  "TokenContext J env uni NewErrorClass tokenManager scheme nextHandler =
     middleware_handler J env uni tokenManager scheme nextHandler (NewErrorClass ''token_validation_failed'' 401)"


subsection \<open>Lemmas\<close>

text \<open>
  \<open>jwt-go\<close> does not panic where the key function does not, and its errors print where the key
  function's do. Go's Unicode tables map no other character to a space.
\<close>

definition printable :: "goerror \<Rightarrow> bool" where
  "printable e \<longleftrightarrow> \<not> panics (Error e)"

definition jwt_total :: "'k jwt_lib \<Rightarrow> bool" where
  "jwt_total J \<longleftrightarrow>
     (\<forall>s kf st. (\<forall>t st. \<exists>r st'. kf t st = Ret (r, st') \<and> (\<forall>e. r = Inl e \<longrightarrow> printable e)) \<longrightarrow>
        (\<exists>r st'. jwt_Parse J s kf st = Ret (r, st') \<and> (\<forall>e. r = Inl e \<longrightarrow> printable e)))"

definition uni_ok :: "(string \<Rightarrow> string) \<Rightarrow> bool" where
  "uni_ok uni \<longleftrightarrow> (\<forall>s. CHR '' '' \<in> set (uni s) \<longrightarrow> CHR '' '' \<in> set s)"

lemma lower_byte_space: "CHR '' '' = lower_byte c \<Longrightarrow> c = CHR '' ''"
proof -
  assume "CHR '' '' = lower_byte c"
  then have "(of_char (lower_byte c) :: nat) = of_char (CHR '' '')" by (rule arg_cong [OF sym])
  then have "(of_char c :: nat) = of_char (CHR '' '')"
    by (simp add: of_char_lower_byte split: if_splits)
  then show ?thesis by (simp only: of_char_eq_iff)
qed

lemma bearer_has_space:
  assumes "uni_ok uni" and "HasPrefix (ToLower uni val) ''bearer ''"
  shows "CHR '' '' \<in> set val"
proof -
  from assms(2) have "CHR '' '' \<in> set (ToLower uni val)" by (auto simp: HasPrefix_iff)
  then show ?thesis
    using assms(1) by (auto simp: ToLower_def uni_ok_def dest: lower_byte_space split: if_splits)
qed


lemma errs_New_printable: "pkg_errors_ok P \<Longrightarrow> printable (errs_New P m)"
  using New_foreign [of P m] by (auto simp: printable_def)

lemma keyFunction_total:
  assumes "good_caller (env_caller env)" and "readable_identity (env_G env) ctx" and "pkg_errors_ok (env_P env)"
  shows "\<exists>r st'. keyFunction env mgm ctx token st = Ret (r, st') \<and> (\<forall>e. r = Inl e \<longrightarrow> printable e)"
proof -
  obtain st1 where 1: "log_Error env (Some ctx) Map.empty no_kid [] st = Ret st1"
    using log_Error_total [OF assms(1,2)] by blast
  obtain st2 where 2: "log_Error env (Some ctx) [''kid'' \<mapsto> FVal (tok_Header token ''kid'')]
      ''There is no public key with such ID'' [] st = Ret st2"
    using log_Error_total [OF assms(1,2)] by blast
  show ?thesis
    using 1 2 errs_New_printable [OF assms(3)]
    by (cases "tok_Header token ''kid'' = VNil"; cases "PublicKey mgm (Sprintf ''%s'' [tok_Header token ''kid''])")
      (simp_all add: keyFunction_def Let_def del: Sprintf.simps)
qed

lemma manager_Parse_total:
  assumes "good_caller (env_caller env)" and "readable_identity (env_G env) ctx" and "pkg_errors_ok (env_P env)"
    and "jwt_total J"
  shows "\<exists>r st'. manager_Parse J env mgm ctx s st = Ret (r, st')"
proof -
  obtain r st1 where r: "jwt_Parse J s (keyFunction env mgm ctx) st = Ret (r, st1)" "\<forall>e. r = Inl e \<longrightarrow> printable e"
    using assms(4) keyFunction_total [OF assms(1-3), of mgm] unfolding jwt_total_def by blast
  show ?thesis
  proof (cases r)
    case (Inl e)
    with r(2) obtain msg where "Error e = Ret msg" by (auto simp: printable_def not_panics_iff)
    moreover obtain st2 where "log_Error env (Some ctx) [''err'' \<mapsto> FVal (VForeign ''error'' (text_of e) (text_of e))]
        ''unable to parse token'' [] st1 = Ret st2"
      using log_Error_total [OF assms(1,2)] by blast
    ultimately show ?thesis using r(1) Inl by (simp add: manager_Parse_def)
  next
    case (Inr t)
    with r(1) show ?thesis by (simp add: manager_Parse_def)
  qed
qed

text \<open>What happens to a request with a bearer token.\<close>

lemma bearer_decided:
  assumes "jwt_ok J verifies" and "jwt_total J" and "pkg_errors_ok (env_P env)" and "goa_ok (env_G env)" and "uni_ok uni"
    and "good_caller (env_caller env)" and "readable_identity (env_G env) ctx"
    and h: "sch_In scheme = LocHeader"
    and bearer: "header_Get (req_Header req) (sch_Name scheme) \<noteq> ''''"
      "HasPrefix (ToLower uni (header_Get (req_Header req) (sch_Name scheme))) ''bearer ''"
  shows "\<exists>r st2 st3. manager_Parse J env mgm ctx (Split (header_Get (req_Header req) (sch_Name scheme)) (CHR '' '') ! 1) st2 = Ret (r, st3) \<and>
    (case r of
       Inl e \<Rightarrow> \<exists>st'. TokenContext J env uni mk mgm scheme nh ctx req resp st =
         Ret (Some (mk ''token_validation_failed'' 401 ''token is invalid''), login_required mgm resp, st')
     | Inr t \<Rightarrow> TokenContext J env uni mk mgm scheme nh ctx req resp st = nh (WithJWT (env_G env) ctx t) req resp st3 \<and>
         tok_Valid t \<and> tok_Raw t = Split (header_Get (req_Header req) (sch_Name scheme)) (CHR '' '') ! 1 \<and>
         (\<exists>k. PublicKey mgm (Sprintf ''%s'' [tok_Header t ''kid'']) = Some k \<and> verifies (tok_Raw t) k))"
    (is "\<exists>r st2 st3. manager_Parse J env mgm ctx (Split ?val (CHR '' '') ! 1) st2 = Ret (r, st3) \<and>
      (case r of Inl e \<Rightarrow> \<exists>st'. ?out = _ st' | Inr t \<Rightarrow> _ t st3)")
proof -
  let ?s = "Split ?val (CHR '' '') ! 1"
  have "0 < count_list ?val (CHR '' '')"
    using bearer_has_space [OF assms(5)] bearer by (metis count_list_0_iff neq0_conv)
  then have len: "\<not> length (Split ?val (CHR '' '')) < 2" by (simp add: length_Split)
  obtain st1 where 1: "log_Debug env (Some ctx) Map.empty
      (''found header '' @ [CHR 0x27] @ ''Authorization: Bearer JWT-token...'' @ [CHR 0x27]) [] st = Ret st1"
    using log_Debug_total [OF assms(6,7)] by blast
  obtain st2 where 2: "log_Debug env (Some ctx) Map.empty ''extracted the incoming token %v '' [VString ?s] st1 = Ret st2"
    using log_Debug_total [OF assms(6,7)] by blast
  obtain r st3 where 3: "manager_Parse J env mgm ctx ?s st2 = Ret (r, st3)"
    using manager_Parse_total [OF assms(6,7,3,2)] by blast
  have out: "?out = (case r of
      Inl err \<Rightarrow> go_bind (log_Error env (Some ctx) [''error'' \<mapsto> FVal (VForeign ''error'' (text_of err) (text_of err))]
          ''failed to handle JSON Web Token in TokenContext middleware'' [] st3)
          (\<lambda>st4. Ret (Some (mk ''token_validation_failed'' 401 ''token is invalid''), login_required mgm resp, st4))
    | Inr token \<Rightarrow> nh (WithJWT (env_G env) ctx token) req resp st3)"
    using h bearer len 1 2 3 unfolding TokenContext_def middleware_handler_def Let_def by simp
  show ?thesis
  proof (rule exI [of _ r], rule exI [of _ st2], rule exI [of _ st3], intro conjI, rule 3, cases r)
    case (Inl e)
    then show "case r of Inl e \<Rightarrow> \<exists>st'. ?out = Ret (Some (mk ''token_validation_failed'' 401 ''token is invalid''), login_required mgm resp, st')
     | Inr t \<Rightarrow> ?out = nh (WithJWT (env_G env) ctx t) req resp st3 \<and> tok_Valid t \<and> tok_Raw t = ?s \<and>
         (\<exists>k. PublicKey mgm (Sprintf ''%s'' [tok_Header t ''kid'']) = Some k \<and> verifies (tok_Raw t) k)"
      using out log_Error_total [OF assms(6,7), of "[''error'' \<mapsto> FVal (VForeign ''error'' (text_of e) (text_of e))]"
        "''failed to handle JSON Web Token in TokenContext middleware''" "[]" st3] by auto
  next
    case (Inr t)
    with 3 have "jwt_Parse J ?s (keyFunction env mgm ctx) st2 = Ret (Inr t, st3)"
      unfolding manager_Parse_def go_bind_sum_eq_Ret by (auto simp: go_bind_eq_Ret)
    with assms(1) have "vouched verifies ?s (keyFunction env mgm ctx) t" unfolding jwt_ok_def by blast
    from vouched_key [OF this] obtain k where "tok_Valid t" "tok_Raw t = ?s"
      "PublicKey mgm (Sprintf ''%s'' [tok_Header t ''kid'']) = Some k" "verifies ?s k" by blast
    with out Inr show "case r of Inl e \<Rightarrow> \<exists>st'. ?out = Ret (Some (mk ''token_validation_failed'' 401 ''token is invalid''), login_required mgm resp, st')
     | Inr t \<Rightarrow> ?out = nh (WithJWT (env_G env) ctx t) req resp st3 \<and> tok_Valid t \<and> tok_Raw t = ?s \<and>
         (\<exists>k. PublicKey mgm (Sprintf ''%s'' [tok_Header t ''kid'']) = Some k \<and> verifies (tok_Raw t) k)" by simp
  qed
qed

lemma bearer_decides:
  assumes "jwt_ok J verifies" and "jwt_total J" and "pkg_errors_ok (env_P env)" and "goa_ok (env_G env)" and "uni_ok uni"
    and "good_caller (env_caller env)" and "readable_identity (env_G env) ctx" and "sch_In scheme = LocHeader"
    and "header_Get (req_Header req) (sch_Name scheme) \<noteq> ''''"
    and "HasPrefix (ToLower uni (header_Get (req_Header req) (sch_Name scheme))) ''bearer ''"
  shows "(\<exists>t k st'. TokenContext J env uni mk mgm scheme nh ctx req resp st = nh (WithJWT (env_G env) ctx t) req resp st' \<and>
             ContextJWT (env_G env) (WithJWT (env_G env) ctx t) = Some t \<and>
             tok_Valid t \<and> tok_Raw t = Split (header_Get (req_Header req) (sch_Name scheme)) (CHR '' '') ! 1 \<and>
             PublicKey mgm (Sprintf ''%s'' [tok_Header t ''kid'']) = Some k \<and> verifies (tok_Raw t) k) \<or>
          (\<exists>st'. TokenContext J env uni mk mgm scheme nh ctx req resp st =
             Ret (Some (mk ''token_validation_failed'' 401 ''token is invalid''), login_required mgm resp, st'))"
  using bearer_decided [OF assms, of mgm mk nh resp st] WithJWT_ok(1) [OF assms(4), of ctx]
  by (elim exE conjE) (auto split: sum.split_asm)

text \<open>C6: The middleware decides about a request once and for all: without a bearer token the next handler
  gets the request as it is; with one it runs only if the manager verified that very token, with a key the manager has, and
  then finds the token in its context; otherwise it does not run, the response asks for a login and the
  error is the scheme's unauthorized error. It never panics itself, whatever the header contains. A
  scheme for another location than the header is refused before the header is read.\<close>

theorem token_context_spec:
  assumes "jwt_ok J verifies" and "jwt_total J" and "pkg_errors_ok (env_P env)" and "goa_ok (env_G env)" and "uni_ok uni"
    and "good_caller (env_caller env)" and "readable_identity (env_G env) ctx"
  shows "let val = header_Get (req_Header req) (sch_Name scheme);
             bearer = (val \<noteq> '''' \<and> HasPrefix (ToLower uni val) ''bearer '');
             out = TokenContext J env uni mk mgm scheme nh ctx req resp st
    in (sch_In scheme = LocHeader \<and> \<not> bearer \<longrightarrow> out = nh ctx req resp st) \<and>
       (sch_In scheme = LocHeader \<and> bearer \<longrightarrow>
          (\<exists>t k st'. out = nh (WithJWT (env_G env) ctx t) req resp st' \<and> ContextJWT (env_G env) (WithJWT (env_G env) ctx t) = Some t \<and>
             tok_Valid t \<and> tok_Raw t = Split val (CHR '' '') ! 1 \<and>
             PublicKey mgm (Sprintf ''%s'' [tok_Header t ''kid'']) = Some k \<and> verifies (tok_Raw t) k) \<or>
          (\<exists>st'. out = Ret (Some (mk ''token_validation_failed'' 401 ''token is invalid''), login_required mgm resp, st'))) \<and>
       (sch_In scheme \<noteq> LocHeader \<longrightarrow> (\<exists>e st'. out = Ret (Some e, resp, st')))"
proof -
  let ?val = "header_Get (req_Header req) (sch_Name scheme)"
  let ?out = "TokenContext J env uni mk mgm scheme nh ctx req resp st"
  have nb: "?out = nh ctx req resp st"
    if "sch_In scheme = LocHeader" "\<not> (?val \<noteq> '''' \<and> HasPrefix (ToLower uni ?val) ''bearer '')"
    using that by (auto simp: TokenContext_def middleware_handler_def)
  have loc: "\<exists>e st'. ?out = Ret (Some e, resp, st')" if "sch_In scheme \<noteq> LocHeader"
    using that log_Error_total [OF assms(6,7), of Map.empty "unsupported (sch_In scheme)" "[]" st]
    by (auto simp: TokenContext_def middleware_handler_def)
  have b: "sch_In scheme = LocHeader \<Longrightarrow> ?val \<noteq> '''' \<and> HasPrefix (ToLower uni ?val) ''bearer '' \<Longrightarrow>
      (\<exists>t k st'. ?out = nh (WithJWT (env_G env) ctx t) req resp st' \<and> ContextJWT (env_G env) (WithJWT (env_G env) ctx t) = Some t \<and>
             tok_Valid t \<and> tok_Raw t = Split ?val (CHR '' '') ! 1 \<and>
             PublicKey mgm (Sprintf ''%s'' [tok_Header t ''kid'']) = Some k \<and> verifies (tok_Raw t) k) \<or>
          (\<exists>st'. ?out = Ret (Some (mk ''token_validation_failed'' 401 ''token is invalid''), login_required mgm resp, st'))"
    using bearer_decides [OF assms(1-7)] by blast
  show ?thesis unfolding Let_def using nb loc b by blast
qed


lemma kid_jwt_total: "jwt_total (kid_jwt m c)"
  unfolding jwt_total_def
proof (intro allI impI)
  fix s :: string and kf :: "string keyfunc" and st
  assume kf: "\<forall>t st. \<exists>r st'. kf t st = Ret (r, st') \<and> (\<forall>e. r = Inl e \<longrightarrow> printable e)"
  then obtain r st' where "kf (kid_token s (MapClaims m)) st = Ret (r, st')" "\<forall>e. r = Inl e \<longrightarrow> printable e"
    by blast
  then show "\<exists>r st'. jwt_Parse (kid_jwt m c) s kf st = Ret (r, st') \<and> (\<forall>e. r = Inl e \<longrightarrow> printable e)"
    by (cases r) (auto simp: kid_jwt_def kid_parse_def printable_def std_errors_New_def)
qed

text \<open>A request with the bearer token \<open>k1\<close> and the scheme that asks for it.\<close>

definition ex_request :: request_data where
  "ex_request = \<lparr>req_Method = ''GET'', req_Host = ''localhost'', req_URL = None,
     req_Header = header_Set Map.empty ''Authorization'' ''Bearer k1'', req_RemoteAddr = '''', req_ContentLength = 0,
     req_Params = Map.empty, req_Payload = Map_Payload None\<rparr>"

definition ex_scheme :: jwt_security where
  "ex_scheme = \<lparr>sch_In = LocHeader, sch_Name = ''Authorization''\<rparr>"

definition empty_response :: goa_response where
  "empty_response = \<lparr>rp_Status = 0, rp_Length = 0, rp_ErrorCode = '''', rp_Header = Map.empty\<rparr>"

definition with_header :: "string \<Rightarrow> string \<Rightarrow> goa_response \<Rightarrow> goa_response" where
  "with_header k v resp = resp\<lparr>rp_Header := header_Set (rp_Header resp) k v\<rparr>"

definition ex_next :: "string tokenManager plain_context handler" where
  "ex_next c r resp st = Ret (None, with_header ''X'' (tok_Raw (the (pc_JWT c))) resp, st)"

lemma ex_request_bearer: "header_Get (req_Header ex_request) (sch_Name ex_scheme) = ''Bearer k1''"
  "HasPrefix (ToLower (\<lambda>s. s) ''Bearer k1'') ''bearer ''" "Split ''Bearer k1'' (CHR '' '') ! 1 = ''k1''"
  subgoal by (simp add: ex_request_def ex_scheme_def Get_Set)
  subgoal by code_simp
  subgoal by simp
  done

lemma ex_accepts:
  "TokenContext (kid_jwt m ex_claims) ex_auth_env (\<lambda>s. s) mk ex_manager ex_scheme nh c ex_request resp quiet =
     nh (WithJWT plain_goa c (kid_token ''k1'' (MapClaims m))) ex_request resp quiet"
proof -
  have debug: "log_Debug ex_auth_env (Some c) kvs f a quiet = Ret quiet" for kvs f a
    by (simp add: log_Debug_def log_at_def quiet_def less_eq_level_def)
  have len: "\<not> length (Split ''Bearer k1'' (CHR '' '')) < 2" by simp
  have parse: "manager_Parse (kid_jwt m ex_claims) ex_auth_env ex_manager c ''k1'' quiet =
     Ret (Inr (kid_token ''k1'' (MapClaims m)), quiet)"
    by (simp add: manager_Parse_def kid_jwt_def kid_parse_def keyFunction_def kid_token_def ex_manager_def
        NewManagerWithPublicKey_def PublicKey_def print_arg_def extra_args_def)
  show ?thesis
    unfolding TokenContext_def middleware_handler_def ex_request_bearer(1) Let_def debug go_bind.simps ex_request_bearer(3)
      parse prod.case sum.case
    using ex_request_bearer(2) len by (simp add: ex_scheme_def ex_auth_env_def)
qed

lemma ex_env_ok: "pkg_errors_ok (env_P ex_auth_env)" "goa_ok (env_G ex_auth_env)" "good_caller (env_caller ex_auth_env)"
  "env_G ex_auth_env = plain_goa" "readable_identity (env_G ex_auth_env) background" "uni_ok (\<lambda>s. s)"
  using documented_errs_ok plain_goa_ok
  by (simp_all add: ex_auth_env_def good_caller_def readable_identity_def plain_goa_def background_def uni_ok_def)

theorem token_context_spec_witness:
  "TokenContext (kid_jwt (\<lambda>c. VNil) ex_claims) ex_auth_env (\<lambda>s. s) (\<lambda>c s m. std_errors_New m) ex_manager
      ex_scheme ex_next background ex_request empty_response quiet = Ret (None, with_header ''X'' ''k1'' empty_response, quiet) \<and>
   (\<exists>t :: jwt_token. tok_Valid t \<and> tok_Raw t = ''k1'' \<and> PublicKey ex_manager (Sprintf ''%s'' [tok_Header t ''kid'']) = Some (tok_Raw t))"
proof -
  let ?out = "TokenContext (kid_jwt (\<lambda>c. VNil) ex_claims) ex_auth_env (\<lambda>s. s) (\<lambda>c s m. std_errors_New m) ex_manager
      ex_scheme ex_next background ex_request empty_response quiet"
  have out: "?out = Ret (None, with_header ''X'' ''k1'' empty_response, quiet)"
    by (simp add: ex_accepts ex_next_def plain_goa_def kid_token_def)
  have "sch_In ex_scheme = LocHeader" by (simp add: ex_scheme_def)
  with token_context_spec [OF kid_jwt_ok [of "\<lambda>c. VNil" ex_claims] kid_jwt_total ex_env_ok(1,2,6,3,5), where req = ex_request and
        scheme = ex_scheme and mk = "\<lambda>c s m. std_errors_New m" and mgm = ex_manager and nh = ex_next and resp = empty_response and st = quiet]
  have "\<exists>(t :: jwt_token) k. tok_Valid t \<and> tok_Raw t = ''k1'' \<and> PublicKey ex_manager (Sprintf ''%s'' [tok_Header t ''kid'']) = Some k \<and> k = tok_Raw t"
    using ex_request_bearer(2) out unfolding Let_def ex_request_bearer(1,3) by fastforce
  with out show ?thesis by blast
qed

end
