(* ===== verification/Auth_Service.thy ===== *)
theory Auth_Service
  imports Auth
begin

section \<open>Calls to the authentication service: \<open>auth/service.go\<close>, \<open>ServiceAccountToken\<close>\<close>

text \<open>
  The generated client of the authentication service is not in the repository: its functions are the
  fields of the parameter \<open>A\<close>. What the code sets on a client before it calls it (host, scheme, the
  HTTP client it uses, the signer of its requests) is the record \<open>auth_client\<close>. A call sends a request
  over the network \<open>'w\<close>; the response's body is returned as the deferred calls leave it.
\<close>

record 'rt auth_client =
  ac_Host :: string
  ac_Scheme :: string
  ac_HTTPClient :: "'rt http_client"
  ac_JWTSigner :: "forwardSigner option"

record token_exchange =
  te_ClientID :: string
  te_ClientSecret :: "string option"
  te_GrantType :: string

record ('c, 'rt, 'w) authclient =
  ScopesResourcePath :: "string \<Rightarrow> string"
  ScopesResource :: "'rt auth_client \<Rightarrow> 'c \<Rightarrow> string \<Rightarrow> 'w \<Rightarrow> (goerror + http_response) \<times> 'w"
  DecodeResourceScopes :: "http_response \<Rightarrow> string list"
  ExchangeTokenPath :: string
  ExchangeToken :: "'rt auth_client \<Rightarrow> 'c \<Rightarrow> string \<Rightarrow> token_exchange \<Rightarrow> string \<Rightarrow> 'w \<Rightarrow> (goerror + http_response) \<times> 'w"
  DecodeJSONAPIErrors :: "http_response \<Rightarrow> goerror + string list"
  DecodeOauthToken :: "http_response \<Rightarrow> goerror + string option"

subsection \<open>\<open>RequireScope\<close>\<close>

record serviceImpl =
  authURL :: url

definition NewAuthService :: "string \<Rightarrow> goerror + serviceImpl" where
  "NewAuthService u = (case url_Parse u of Inl err \<Rightarrow> Inl err | Inr v \<Rightarrow> Inr \<lparr>authURL = v\<rparr>)"

definition createClient :: "('c, 'm) goa_lib \<Rightarrow> 'rt http_client \<Rightarrow> serviceImpl \<Rightarrow> 'c \<Rightarrow> 'rt auth_client" where
  "createClient G defaultClient a ctx =
     \<lparr>ac_Host = url_Host (authURL a), ac_Scheme = url_Scheme (authURL a), ac_HTTPClient = defaultClient,
      ac_JWTSigner = NewForwardSigner G ctx\<rparr>"

fun scope_loop :: "string \<Rightarrow> string list \<Rightarrow> bool" where
  "scope_loop requiredScope [] = False"
| "scope_loop requiredScope (scopeID # rest) = (if requiredScope = scopeID then True else scope_loop requiredScope rest)"

definition RequireScope :: "('c, 'm) goa_lib \<Rightarrow> ('c, 'rt, 'w) authclient \<Rightarrow> serviceImpl \<Rightarrow> 'c \<Rightarrow> string \<Rightarrow> string
    \<Rightarrow> ('rt, 'w) net \<Rightarrow> goerror option \<times> body option \<times> ('rt, 'w) net" where
  "RequireScope G A a ctx resourceID requiredScope n =
     (case ScopesResource A (createClient G (default_client n) a ctx) (ForwardContextRequestID G ctx)
            (ScopesResourcePath A resourceID) (network n) of
        (Inl err, w) \<Rightarrow> (Some err, None, n\<lparr>network := w\<rparr>)
      | (Inr resp, w) \<Rightarrow>
          if res_StatusCode resp \<noteq> StatusOK
          then (Some (NewInternalErrorFromString (Sprintf (''get space'' @ [CHR 0x27] @ ''s scope failed with error '' @
                  [CHR 0x27] @ ''%s'' @ [CHR 0x27]) [VString (res_Status resp)])),
                Some (res_Body resp), n\<lparr>network := w\<rparr>)
          else (let closed = Some (snd (body_Close (res_Body resp))) in
            if scope_loop requiredScope (DecodeResourceScopes A resp) then (None, closed, n\<lparr>network := w\<rparr>)
            else (Some (NewForbiddenError (Sprintf (''missing required scope '' @ [CHR 0x27] @ ''%s'' @ [CHR 0x27] @ '' on '' @
                    [CHR 0x27] @ ''%s'' @ [CHR 0x27] @ '' resource'') [VString requiredScope, VString resourceID])),
                  closed, n\<lparr>network := w\<rparr>)))"

subsection \<open>\<open>ServiceAccountToken\<close>\<close>

text \<open>
  \<open>%q\<close> of a string is \<open>strconv.Quote\<close>; \<open>uni\<close> stands for its treatment of strings that are not all ASCII.
  \<open>fmt.Errorf\<close> makes an error with a text and no cause.
\<close>

definition lower_hex :: string where
  "lower_hex = ''0123456789abcdef''"

definition quote_char :: "char \<Rightarrow> string" where
  "quote_char c =
     (let n = (of_char c :: nat) in
      if c = CHR 0x22 then [CHR 0x5C, CHR 0x22]
      else if c = CHR 0x5C then [CHR 0x5C, CHR 0x5C]
      else if n = 7 then [CHR 0x5C, CHR ''a''] else if n = 8 then [CHR 0x5C, CHR ''b'']
      else if n = 12 then [CHR 0x5C, CHR ''f''] else if n = 10 then [CHR 0x5C, CHR ''n'']
      else if n = 13 then [CHR 0x5C, CHR ''r''] else if n = 9 then [CHR 0x5C, CHR ''t'']
      else if n = 11 then [CHR 0x5C, CHR ''v'']
      else if n < 32 \<or> n = 127 then [CHR 0x5C, CHR ''x'', lower_hex ! (n div 16), lower_hex ! (n mod 16)]
      else [c])"

definition Quote :: "(string \<Rightarrow> string) \<Rightarrow> string \<Rightarrow> string" where
  "Quote uni s = (if is_ascii s then [CHR 0x22] @ concat (map quote_char s) @ [CHR 0x22] else uni s)"

definition token_failure :: "('c, 'rt, 'w) authclient \<Rightarrow> http_response \<Rightarrow> goerror" where
  "token_failure A res =
     (case DecodeJSONAPIErrors A res of
        Inr (detail # ds) \<Rightarrow> FromStatusCode (res_StatusCode res) detail []
      | _ \<Rightarrow> FromStatusCode (res_StatusCode res) ''unknown error'' [])"

definition ServiceAccountToken :: "('c, 'm) log_env \<Rightarrow> ('c, 'rt, 'w) authclient \<Rightarrow> (string \<Rightarrow> string) \<Rightarrow> 'c \<Rightarrow> string
    \<Rightarrow> string \<Rightarrow> string \<Rightarrow> 'rt http_client_option list \<Rightarrow> ('rt, 'w) net \<Rightarrow> log_state
    \<Rightarrow> ((goerror + string) \<times> body option \<times> ('rt, 'w) net \<times> log_state) go" where
  "ServiceAccountToken env A uni ctx serviceURL clientID clientSecret options n st =
     (let P = env_P env in
      case url_Parse serviceURL of
        Inl err \<Rightarrow> Ret (Inl err, None, n, st)
      | Inr u \<Rightarrow>
          (let httpClient = apply_options options (default_client n);
               n1 = n\<lparr>default_client := httpClient\<rparr>;
               client = \<lparr>ac_Host = url_Host u, ac_Scheme = url_Scheme u, ac_HTTPClient = httpClient, ac_JWTSigner = None\<rparr>;
               payload = \<lparr>te_ClientID = clientID, te_ClientSecret = Some clientSecret, te_GrantType = ''client_credentials''\<rparr>
           in case ExchangeToken A client (ForwardContextRequestID (env_G env) ctx) (ExchangeTokenPath A) payload
                     ''application/x-www-form-urlencoded'' (network n1) of
                (Inl err, w) \<Rightarrow>
                  Ret (Inl (the (errs_Wrapf P (Some err) ''error while doing the request'')), None, n1\<lparr>network := w\<rparr>, st)
              | (Inr res, w) \<Rightarrow>
                  (let closed = Some (snd (CloseResponse (res_Body res))); n2 = n1\<lparr>network := w\<rparr> in
                   if 400 \<le> res_StatusCode res then
                     (let errDetails = token_failure A res in
                      go_bind (log_Error env (Some ctx)
                        [''response_status'' \<mapsto> fstr (res_Status res), ''response_body'' \<mapsto> FVal (VForeign ''io.ReadCloser'' '''' ''''),
                         ''url'' \<mapsto> fstr serviceURL, ''detail'' \<mapsto> FVal (VForeign ''error'' (text_of errDetails) (text_of errDetails))]
                        ''failed to obtain token from auth server'' [] st) (\<lambda>st1.
                      Ret (Inl (the (errs_Wrapf P (Some errDetails)
                             (''failed to obtain token from auth server '' @ Quote uni serviceURL))), closed, n2, st1)))
                   else (case DecodeOauthToken A res of
                           Inl err \<Rightarrow>
                             Ret (Inl (the (errs_Wrapf P (Some err) (''error from server '' @ Quote uni serviceURL))), closed, n2, st)
                         | Inr None \<Rightarrow>
                             Ret (Inl (std_errors_New (''received empty token from server '' @ Quote uni serviceURL)), closed, n2, st)
                         | Inr (Some token) \<Rightarrow>
                             Ret (if token = '''' then Inl (std_errors_New (''received empty token from server '' @ Quote uni serviceURL))
                                  else Inr token, closed, n2, st)))))"

subsection \<open>The properties\<close>

text \<open>C14: \<open>RequireScope\<close> grants exactly when the service answers 200 and lists the scope. When no answer comes
  it returns the error of the request; for a 200 without the scope a forbidden error whose text names the missing scope
  and the resource, in that order; and for every other status an internal error with the status line. The request is for
  the scopes of that resource, signed with the caller's own token. The body is closed
  once after a 200, and left open after any other status; the default client is not changed.\<close>

theorem require_scope_spec:
  assumes "ScopesResource A (createClient G (default_client n) a ctx) (ForwardContextRequestID G ctx)
             (ScopesResourcePath A resourceID) (network n) = (answer, w)"
    and "RequireScope G A a ctx resourceID scope n = (err, final, n')"
  shows "(err = None \<longleftrightarrow> (\<exists>resp. answer = Inr resp \<and> res_StatusCode resp = 200 \<and> scope \<in> set (DecodeResourceScopes A resp))) \<and>
    (case answer of
       Inl e \<Rightarrow> err = Some e \<and> final = None
     | Inr resp \<Rightarrow>
         (res_StatusCode resp = 200 \<and> scope \<notin> set (DecodeResourceScopes A resp) \<longrightarrow>
            (\<exists>e. err = Some (ForbiddenError e) \<and> message e = ''missing required scope '' @ [CHR 0x27] @ scope @ [CHR 0x27] @
               '' on '' @ [CHR 0x27] @ resourceID @ [CHR 0x27] @ '' resource'')) \<and>
         (res_StatusCode resp \<noteq> 200 \<longrightarrow>
            (\<exists>e. err = Some (InternalError (Some e)) \<and> Error e = Ret (''get space'' @ [CHR 0x27] @ ''s scope failed with error '' @
               [CHR 0x27] @ res_Status resp @ [CHR 0x27]))) \<and>
         (\<exists>b. final = Some b \<and>
            body_closes b = body_closes (res_Body resp) + (if res_StatusCode resp = 200 then 1 else 0))) \<and>
    n' = n\<lparr>network := w\<rparr> \<and>
    (\<forall>t. ContextJWT G ctx = Some t \<longrightarrow>
       ac_JWTSigner (createClient G (default_client n) a ctx) = Some \<lparr>fs_token = tok_Raw t\<rparr>)"
proof -
  have loop: "scope_loop s ids \<longleftrightarrow> s \<in> set ids" for s ids by (induction ids) auto
  have signer: "ContextJWT G ctx = Some t \<Longrightarrow>
       ac_JWTSigner (createClient G (default_client n) a ctx) = Some \<lparr>fs_token = tok_Raw t\<rparr>" for t
    by (simp add: createClient_def NewForwardSigner_def)
  have texts: "Sprintf (''get space'' @ [CHR 0x27] @ ''s scope failed with error '' @ [CHR 0x27] @ ''%s'' @ [CHR 0x27]) [VString x] =
       ''get space'' @ [CHR 0x27] @ ''s scope failed with error '' @ [CHR 0x27] @ x @ [CHR 0x27]"
    "Sprintf (''missing required scope '' @ [CHR 0x27] @ ''%s'' @ [CHR 0x27] @ '' on '' @ [CHR 0x27] @ ''%s'' @ [CHR 0x27] @ '' resource'')
       [VString x, VString y] = ''missing required scope '' @ [CHR 0x27] @ x @ [CHR 0x27] @ '' on '' @ [CHR 0x27] @ y @ [CHR 0x27] @ '' resource''"
    for x y by (simp_all add: print_arg_def extra_args_def)
  show ?thesis
  proof (cases answer)
    case (Inl e)
    with assms signer show ?thesis by (auto simp: RequireScope_def)
  next
    case (Inr resp)
    with assms have run: "(err, final, n') = (if res_StatusCode resp \<noteq> 200
        then (Some (InternalError (Some (std_errors_New (''get space'' @ [CHR 0x27] @ ''s scope failed with error '' @
               [CHR 0x27] @ res_Status resp @ [CHR 0x27])))), Some (res_Body resp), n\<lparr>network := w\<rparr>)
        else (if scope \<in> set (DecodeResourceScopes A resp) then None
              else Some (ForbiddenError \<lparr>message = ''missing required scope '' @ [CHR 0x27] @ scope @ [CHR 0x27] @
               '' on '' @ [CHR 0x27] @ resourceID @ [CHR 0x27] @ '' resource''\<rparr>), Some (snd (body_Close (res_Body resp))), n\<lparr>network := w\<rparr>))"
      unfolding RequireScope_def texts
      by (auto simp: loop StatusOK_def NewForbiddenError_def NewInternalErrorFromString_def Let_def split: if_split_asm)
    show ?thesis
      using Inr run signer by (auto simp: body_Close_def std_errors_New_def split: if_split_asm)
  qed
qed

definition ex_authclient :: "int \<Rightarrow> (nat plain_context, nat, unit) authclient" where
  "ex_authclient status =
     \<lparr>ScopesResourcePath = (\<lambda>r. ''/api/resource/'' @ r @ ''/scopes''),
      ScopesResource = (\<lambda>c ctx p w. (Inr \<lparr>res_Status = ''S'', res_StatusCode = status,
        res_Body = \<lparr>body_reads = [], body_closes = 0, body_close_result = None\<rparr>\<rparr>, w)),
      DecodeResourceScopes = (\<lambda>r. [''view'', ''contribute'']), ExchangeTokenPath = ''/api/token'',
      ExchangeToken = (\<lambda>c ctx p t ct w. (Inr \<lparr>res_Status = ''S'', res_StatusCode = status,
        res_Body = \<lparr>body_reads = [], body_closes = 0, body_close_result = None\<rparr>\<rparr>, w)),
      DecodeJSONAPIErrors = (\<lambda>r. Inr [''no such account'']), DecodeOauthToken = (\<lambda>r. Inr (Some ''tok''))\<rparr>"

theorem require_scope_spec_witness:
  "fst (RequireScope plain_goa (ex_authclient 200) \<lparr>authURL = empty_url\<rparr> background ''space'' ''view''
      \<lparr>default_client = \<lparr>client_Transport = None\<rparr>, network = ()\<rparr>) = None"
proof -
  let ?n = "\<lparr>default_client = \<lparr>client_Transport = None\<rparr>, network = ()\<rparr> :: (nat, unit) net"
  let ?resp = "\<lparr>res_Status = ''S'', res_StatusCode = 200,
        res_Body = \<lparr>body_reads = [], body_closes = 0, body_close_result = None\<rparr>\<rparr> :: http_response"
  let ?a = "\<lparr>authURL = empty_url\<rparr>"
  have "ScopesResource (ex_authclient 200) (createClient plain_goa (default_client ?n) ?a background)
      (ForwardContextRequestID plain_goa background) (ScopesResourcePath (ex_authclient 200) ''space'') (network ?n) = (Inr ?resp, ())"
    by (simp add: ex_authclient_def)
  moreover obtain err final n' where
    "RequireScope plain_goa (ex_authclient 200) ?a background ''space'' ''view'' ?n = (err, final, n')"
    by (metis prod_cases3)
  ultimately show ?thesis
    using require_scope_spec [of "ex_authclient 200" plain_goa ?n ?a background "''space''" "Inr ?resp" "()" "''view''" err final n']
    by (simp add: ex_authclient_def)
qed

text \<open>The request for a token, and what an answer of 400 or above becomes.\<close>

definition token_answer :: "('c, 'm) log_env \<Rightarrow> ('c, 'rt, 'w) authclient \<Rightarrow> 'c \<Rightarrow> string \<Rightarrow> string \<Rightarrow> 'rt http_client \<Rightarrow> 'w \<Rightarrow> url
    \<Rightarrow> (goerror + http_response) \<times> 'w" where
  "token_answer env A ctx clientID secret httpClient w u =
     ExchangeToken A \<lparr>ac_Host = url_Host u, ac_Scheme = url_Scheme u, ac_HTTPClient = httpClient, ac_JWTSigner = None\<rparr>
       (ForwardContextRequestID (env_G env) ctx) (ExchangeTokenPath A)
       \<lparr>te_ClientID = clientID, te_ClientSecret = Some secret, te_GrantType = ''client_credentials''\<rparr>
       ''application/x-www-form-urlencoded'' w"

lemma token_failure_kind:
  assumes "pkg_errors_ok P" and "errs_Wrapf P (Some (token_failure A res)) msg = Some e"
  shows "errs_Cause P (Some e) = Some (token_failure A res)"
    and "fst (IsBadParameterError P (Some e)) = (res_StatusCode res = 400)"
    and "fst (IsUnauthorizedError P (Some e)) = (res_StatusCode res = 401)"
    and "fst (IsForbiddenError P (Some e)) = (res_StatusCode res = 403)"
    and "fst (IsNotFoundError P (Some e)) = (res_StatusCode res = 404)"
    and "fst (IsVersionConflictError P (Some e)) = (res_StatusCode res = 409)"
    and "fst (IsInternalError P (Some e)) = (res_StatusCode res \<notin> {400, 401, 403, 404, 409})"
    and "\<not> fst (IsDataConflictError P (Some e))" and "\<not> fst (IsConversionError P (Some e))"
proof -
  have "\<exists>m. token_failure A res = FromStatusCode (res_StatusCode res) m []"
    by (auto simp: token_failure_def split: sum.split list.split)
  then obtain m where m: "token_failure A res = FromStatusCode (res_StatusCode res) m []" ..
  then have "\<not> has_Cause (token_failure A res)" using FromStatusCode_no_Cause by metis
  then show cause: "errs_Cause P (Some e) = Some (token_failure A res)"
    using Wrapf_Some [OF assms(1), of "token_failure A res" msg] assms(2) cause_self [OF assms(1)] by auto
  show "fst (IsBadParameterError P (Some e)) = (res_StatusCode res = 400)"
    "fst (IsUnauthorizedError P (Some e)) = (res_StatusCode res = 401)"
    "fst (IsForbiddenError P (Some e)) = (res_StatusCode res = 403)"
    "fst (IsNotFoundError P (Some e)) = (res_StatusCode res = 404)"
    "fst (IsVersionConflictError P (Some e)) = (res_StatusCode res = 409)"
    "fst (IsInternalError P (Some e)) = (res_StatusCode res \<notin> {400, 401, 403, 404, 409})"
    unfolding kind_true_iff kind_true_range [OF cause] m FromStatusCode_range by (rule refl)+
  show "\<not> fst (IsDataConflictError P (Some e))" "\<not> fst (IsConversionError P (Some e))"
    unfolding kind_true_iff kind_true_range [OF cause] m by (rule FromStatusCode_range)+
qed

text \<open>C15: \<open>ServiceAccountToken\<close> returns a token only when the service answered below 400 with one that is not empty:
  a URL that does not parse and a request that fails are errors too, the latter with the request's error as its cause.
  For an answer of 400 or above the error is, through its wrapping, of the kind of its status and of no
  other, and its cause has the service's own text, provided that text has no percent sign (it is used
  as a format). Once the URL has parsed the options stay installed in the process-wide default client, whatever the answer, and
  the body is not closed.\<close>

theorem service_account_token_spec:
  assumes "pkg_errors_ok (env_P env)"
    and "ServiceAccountToken env A uni ctx serviceURL clientID secret options n st = Ret (r, final, n', st')"
  shows "case url_Parse serviceURL of
      Inl e \<Rightarrow> r = Inl e \<and> final = None \<and> n' = n
    | Inr u \<Rightarrow>
       (let httpClient = apply_options options (default_client n);
            (answer, w) = token_answer env A ctx clientID secret httpClient (network n) u in
        n' = \<lparr>default_client = httpClient, network = w\<rparr> \<and>
        (case answer of
           Inl e \<Rightarrow> final = None \<and> (\<exists>e'. r = Inl e' \<and> errs_Cause (env_P env) (Some e') = errs_Cause (env_P env) (Some e))
         | Inr res \<Rightarrow>
            (\<exists>b. final = Some b \<and> body_closes b = body_closes (res_Body res)) \<and>
            (\<forall>t. r = Inr t \<longleftrightarrow> res_StatusCode res < 400 \<and> DecodeOauthToken A res = Inr (Some t) \<and> t \<noteq> '''') \<and>
            (400 \<le> res_StatusCode res \<longrightarrow>
              (\<exists>e. r = Inl e \<and> errs_Cause (env_P env) (Some e) = Some (token_failure A res) \<and>
                 fst (IsBadParameterError (env_P env) (Some e)) = (res_StatusCode res = 400) \<and>
                 fst (IsUnauthorizedError (env_P env) (Some e)) = (res_StatusCode res = 401) \<and>
                 fst (IsForbiddenError (env_P env) (Some e)) = (res_StatusCode res = 403) \<and>
                 fst (IsNotFoundError (env_P env) (Some e)) = (res_StatusCode res = 404) \<and>
                 fst (IsVersionConflictError (env_P env) (Some e)) = (res_StatusCode res = 409) \<and>
                 fst (IsInternalError (env_P env) (Some e)) = (res_StatusCode res \<notin> {400, 401, 403, 404, 409}) \<and>
                 \<not> fst (IsDataConflictError (env_P env) (Some e)) \<and> \<not> fst (IsConversionError (env_P env) (Some e)) \<and>
                 (\<forall>d ds. DecodeJSONAPIErrors A res = Inr (d # ds) \<and> CHR ''%'' \<notin> set d \<longrightarrow> Error (token_failure A res) = Ret d)))))"
proof (cases "url_Parse serviceURL")
  case (Inl e)
  with assms(2) show ?thesis by (simp add: ServiceAccountToken_def)
next
  case u: (Inr u)
  let ?P = "env_P env" and ?client = "apply_options options (default_client n)"
  obtain answer w where answer: "token_answer env A ctx clientID secret ?client (network n) u = (answer, w)" by fastforce
  have n1: "n\<lparr>default_client := c, network := w\<rparr> = \<lparr>default_client = c, network = w\<rparr>" for c by simp
  note run = assms(2) [unfolded ServiceAccountToken_def u Let_def sum.case]
  show ?thesis
  proof (cases answer)
    case (Inl e)
    obtain e' where "errs_Wrapf ?P (Some e) ''error while doing the request'' = Some e'"
      "errs_Cause ?P (Some e') = errs_Cause ?P (Some e)" using Wrapf_Some [OF assms(1)] by blast
    with run answer Inl u show ?thesis by (auto simp: token_answer_def)
  next
    case (Inr res)
    have close: "body_closes (snd (CloseResponse (res_Body res))) = body_closes (res_Body res)" by (rule CloseResponse_closes)
    show ?thesis
    proof (cases "400 \<le> res_StatusCode res")
      case True
      obtain e where e: "errs_Wrapf ?P (Some (token_failure A res)) (''failed to obtain token from auth server '' @ Quote uni serviceURL) = Some e"
        using Wrapf_Some [OF assms(1)] by blast
      have plain: "Error (token_failure A res) = Ret d"
        if "DecodeJSONAPIErrors A res = Inr (d # ds)" "CHR ''%'' \<notin> set d" for d ds
        using that by (simp add: token_failure_def Error_FromStatusCode Sprintf_no_directive)
      from run answer Inr True e have "r = Inl e" "final = Some (snd (CloseResponse (res_Body res)))"
        "n' = \<lparr>default_client = ?client, network = w\<rparr>" by (auto simp: token_answer_def go_bind_eq_Ret)
      then show ?thesis
        using True close plain token_failure_kind [OF assms(1) e]
        unfolding u Inr answer Let_def sum.case prod.case by simp
    next
      case False
      with run answer Inr close u show ?thesis
        by (auto simp: token_answer_def split: sum.split_asm option.split_asm if_split_asm)
    qed
  qed
qed

theorem service_account_token_spec_witness:
  "\<exists>final n' st'. ServiceAccountToken (ex_env None) (ex_authclient 200) (\<lambda>s. s) background ''http://auth'' ''id'' ''secret''
      [WithRoundTripper (Some 3)] \<lparr>default_client = \<lparr>client_Transport = None\<rparr>, network = ()\<rparr> quiet =
     Ret (Inr ''tok'', final, n', st') \<and> client_Transport (default_client n') = Some 3"
proof -
  let ?n = "\<lparr>default_client = \<lparr>client_Transport = None\<rparr>, network = ()\<rparr> :: (nat, unit) net"
  have u: "url_Parse ''http://auth'' = Inr (empty_url\<lparr>url_Scheme := ''http'', url_Host := ''auth''\<rparr>)" by code_simp
  obtain final n' st' where run: "ServiceAccountToken (ex_env None) (ex_authclient 200) (\<lambda>s. s) background ''http://auth'' ''id'' ''secret''
      [WithRoundTripper (Some 3)] ?n quiet = Ret (Inr ''tok'', final, n', st')"
    by (simp add: ServiceAccountToken_def u ex_authclient_def)
  have "pkg_errors_ok (env_P (ex_env None))" using documented_errs_ok by (simp add: ex_env_def)
  from service_account_token_spec [OF this run] run u show ?thesis
    by (simp add: ex_authclient_def token_answer_def apply_options_def WithRoundTripper_def)
qed

end
