(* ===== verification/Proxy.thy ===== *)
theory Proxy
  imports Log
begin

section \<open>The HTTP proxy: \<open>httpsupport/proxy.go\<close>\<close>

text \<open>
  \<open>route\<close> sends a request on to another server with the standard library's reverse proxy, which is the
  parameter \<open>serve\<close>: it is handed the director that rewrites the request, the transport and the writer the
  response goes to, works on the state \<open>'w\<close> of the connections and may panic. The two parts the source
  adds are modelled in full: the director, and the writer that unzips what the server sends. \<open>gzip\<close> is
  the parameter \<open>gunzip\<close> of type \<open>gzip_lib\<close>.
\<close>

subsection \<open>The director\<close>

definition singleJoiningSlash :: "string \<Rightarrow> string \<Rightarrow> string" where
  "singleJoiningSlash a b =
     (let aslash = HasSuffix a ''/''; bslash = HasPrefix b ''/'' in
      if aslash \<and> bslash then a @ drop 1 b
      else if \<not> aslash \<and> \<not> bslash then a @ ''/'' @ b
      else a @ b)"

type_synonym director = "request_data \<Rightarrow> log_state \<Rightarrow> (request_data \<times> log_state) go"

definition directed_url :: "url \<Rightarrow> string option \<Rightarrow> url \<Rightarrow> url" where
  "directed_url target targetPath u =
     u\<lparr>url_Scheme := (if url_Scheme target = '''' then ''http'' else url_Scheme target),
       url_Host := url_Host target,
       url_Path := (case targetPath of Some p \<Rightarrow> p | None \<Rightarrow> singleJoiningSlash (url_Path target) (url_Path u)),
       url_RawQuery := (if url_RawQuery target = '''' \<or> url_RawQuery u = '''' then url_RawQuery target @ url_RawQuery u
                        else url_RawQuery target @ ''&'' @ url_RawQuery u)\<rparr>"

definition directed_header :: "string \<Rightarrow> header \<Rightarrow> header" where
  "directed_header requestID h =
     (let h1 = (if h ''User-Agent'' = None then header_Set h ''User-Agent'' '''' else h)
      in if requestID \<noteq> '''' then header_Set h1 ''X-Request-ID'' requestID else h1)"

definition newDirector :: "('c, 'm) log_env \<Rightarrow> 'c \<Rightarrow> request_data \<Rightarrow> url \<Rightarrow> string option \<Rightarrow> director" where
  "newDirector env ctx originalRequestData target targetPath req st =
     (case req_URL req of
        None \<Rightarrow> Panic ''nil pointer dereference''
      | Some u \<Rightarrow>
          (let originalReq = empty_url\<lparr>url_Scheme := forwarded_scheme (req_URL req) (req_Header req),
                 url_Host := req_Host originalRequestData, url_Path := url_Path u, url_RawQuery := url_RawQuery u\<rparr>;
               u' = directed_url target targetPath u;
               req' = req\<lparr>req_URL := Some u', req_Header := directed_header (ExtractRequestID (env_G env) (Some ctx)) (req_Header req)\<rparr>
           in go_bind (log_Info env (Some ctx)
                [''original_req_url'' \<mapsto> fstr (url_String originalReq), ''target_req_url'' \<mapsto> fstr (url_String u'),
                 ''target'' \<mapsto> FVal (VForeign ''*url.URL'' (url_String target) (url_String target)),
                 ''target_string'' \<mapsto> fstr (url_String target)]
                ''Routing %s to %s'' [VString (url_String originalReq), VString (url_String u')] st) (\<lambda>st'.
              Ret (req', st'))))"

subsection \<open>The unzipping writer\<close>

record gzip_lib =
  gzip_NewReader :: "string \<Rightarrow> goerror option"
  gzip_ReadAll :: "string \<Rightarrow> goerror + string"
  gzip_Close :: "string \<Rightarrow> goerror option"

text \<open>The writer underneath takes bytes and answers with an error or nil; its header is a variable of the connection.\<close>

type_synonym 'w raw_Write = "string \<Rightarrow> 'w \<Rightarrow> goerror option \<times> 'w"

definition gunzip_Write :: "('c, 'm) log_env \<Rightarrow> gzip_lib \<Rightarrow> 'w raw_Write \<Rightarrow> 'c \<Rightarrow> url \<Rightarrow> string \<Rightarrow> 'w \<Rightarrow> log_state
    \<Rightarrow> ((nat \<times> goerror option) \<times> 'w \<times> log_state) go" where
  "gunzip_Write env Z raw ctx targetURL b w st =
     (case gzip_NewReader Z b of
        Some err \<Rightarrow> Ret ((0, Some err), w, st)
      | None \<Rightarrow>
          (let (result, w') = (case gzip_ReadAll Z b of
                   Inl err \<Rightarrow> ((0, Some err), w)
                 | Inr data \<Rightarrow> (let (err, w') = raw data w in ((length b, err), w')))
           in case gzip_Close Z b of
                None \<Rightarrow> Ret (result, w', st)
              | Some err \<Rightarrow>
                  go_bind (log_Error env (Some ctx)
                    [''err'' \<mapsto> FVal (VForeign ''error'' (text_of err) (text_of err)), ''target_url'' \<mapsto> fstr (url_String targetURL)]
                    ''unable to close gzip writer while serving request in proxy'' [] st) (\<lambda>st'.
                  Ret (result, w', st'))))"

text \<open>
  \<open>WriteHeader\<close> ranges over the header in the order \<open>ks\<close> while it changes it.
\<close>

fun first_values :: "string list \<Rightarrow> header \<Rightarrow> header" where
  "first_values [] h = h"
| "first_values (key # ks) h =
     first_values ks (case h key of Some (v # vs) \<Rightarrow> header_Set h key v | _ \<Rightarrow> h)"

definition gunzip_WriteHeader :: "(header \<Rightarrow> string list) \<Rightarrow> header \<Rightarrow> header" where
  "gunzip_WriteHeader order h = (let h1 = header_Del h ''Content-Length'' in first_values (order h1) h1)"

subsection \<open>Routing\<close>

datatype writer = Plain_Writer | Gunzip_Writer url

type_synonym 'rt reverse_proxy = "director \<times> 'rt option"
type_synonym 'rt proxy_option = "'rt reverse_proxy \<Rightarrow> 'rt reverse_proxy"

definition WithProxyTransport :: "'rt option \<Rightarrow> 'rt proxy_option" where
  "WithProxyTransport r proxy = (fst proxy, r)"

text \<open>\<open>serve\<close> answers whether it panicked, with the value it panicked with, and the new state.\<close>

type_synonym ('rt, 'w) ServeHTTP =
  "'rt reverse_proxy \<Rightarrow> writer \<Rightarrow> request_data \<Rightarrow> 'w \<Rightarrow> log_state \<Rightarrow> string option \<times> 'w \<times> log_state"

definition route :: "bool \<Rightarrow> ('c, 'm) log_env \<Rightarrow> ('rt, 'w) ServeHTTP \<Rightarrow> 'c \<Rightarrow> string \<Rightarrow> string option
    \<Rightarrow> 'rt proxy_option list \<Rightarrow> 'w \<Rightarrow> log_state \<Rightarrow> (goerror option \<times> 'w \<times> log_state) go" where
  "route inOurTests env serve ctx targetHost targetPath options w st =
     (let P = env_P env; G = env_G env in
      if \<not> ContextHasResponse G ctx then Ret (Some (errs_New P ''unable to get response from context''), w, st)
      else (case ContextRequest G ctx of
        None \<Rightarrow> Ret (Some (errs_New P ''unable to get request from context''), w, st)
      | Some req \<Rightarrow>
          (case url_Parse targetHost of
             Inl err \<Rightarrow>
               go_bind (log_Error env (Some ctx)
                 [''err'' \<mapsto> FVal (VForeign ''error'' (text_of err) (text_of err)), ''target_host'' \<mapsto> fstr targetHost]
                 ''unable to parse target host'' [] st) (\<lambda>st1. Ret (Some err, w, st1))
           | Inr targetURL \<Rightarrow>
               (let proxy = foldl (\<lambda>p opt. opt p) (newDirector env ctx req targetURL targetPath, None) options;
                    (panicked, w1, st1) =
                      (if Contains (header_Get (req_Header req) ''Accept-Encoding'') ''gzip''
                       then (case req_URL req of
                               None \<Rightarrow> (Some ''nil pointer dereference'', w, st)
                             | Some u \<Rightarrow> serve proxy (Gunzip_Writer u) req w st)
                       else serve proxy Plain_Writer req w st)
                in case panicked of
                     None \<Rightarrow> Ret (None, w1, st1)
                   | Some r \<Rightarrow>
                       if inOurTests then Panic r
                       else go_bind (log_Error env (Some ctx) [''Recovered'' \<mapsto> fstr r] ''Recovered from ReverseProxy panic'' [] st1)
                              (\<lambda>st2. Ret (None, w1, st2))))))"

definition RouteHTTPToPath :: "bool \<Rightarrow> ('c, 'm) log_env \<Rightarrow> ('rt, 'w) ServeHTTP \<Rightarrow> 'c \<Rightarrow> string \<Rightarrow> string
    \<Rightarrow> 'w \<Rightarrow> log_state \<Rightarrow> (goerror option \<times> 'w \<times> log_state) go" where
  "RouteHTTPToPath inOurTests env serve ctx targetHost targetPath =
     route inOurTests env serve ctx targetHost (Some targetPath) []"

definition RouteHTTP :: "bool \<Rightarrow> ('c, 'm) log_env \<Rightarrow> ('rt, 'w) ServeHTTP \<Rightarrow> 'c \<Rightarrow> string
    \<Rightarrow> 'rt proxy_option list \<Rightarrow> 'w \<Rightarrow> log_state \<Rightarrow> (goerror option \<times> 'w \<times> log_state) go" where
  "RouteHTTP inOurTests env serve ctx target options = route inOurTests env serve ctx target None options"


subsection \<open>Lemmas\<close>

lemma singleJoiningSlash_one_slash:
  assumes "\<not> HasSuffix a ''/''" and "\<not> HasPrefix b ''/''"
  shows "singleJoiningSlash a b = a @ ''/'' @ b" "singleJoiningSlash (a @ ''/'') b = a @ ''/'' @ b"
    "singleJoiningSlash a (''/'' @ b) = a @ ''/'' @ b" "singleJoiningSlash (a @ ''/'') (''/'' @ b) = a @ ''/'' @ b"
  using assms by (auto simp: singleJoiningSlash_def HasPrefix_single Let_def)

lemma canonical_keys:
  "CanonicalMIMEHeaderKey ''User-Agent'' = ''User-Agent''" "CanonicalMIMEHeaderKey ''X-Request-ID'' = ''X-Request-Id''"
  "CanonicalMIMEHeaderKey ''Content-Length'' = ''Content-Length''"
  by code_simp+

lemma directed_header_values:
  "header_values (directed_header i h) k =
     (if i \<noteq> '''' \<and> CanonicalMIMEHeaderKey k = ''X-Request-Id'' then [i]
      else if CanonicalMIMEHeaderKey k = ''User-Agent'' \<and> h ''User-Agent'' = None then ['''']
      else header_values h k)"
  by (simp add: directed_header_def Let_def hdr.vals_put canonical_keys)

lemma first_values_canonical:
  assumes "distinct ks" and "\<forall>k \<in> set ks. canonical k"
  shows "first_values ks h k = (if k \<in> set ks then map_option (take 1) (h k) else h k)"
  using assms
proof (induction ks arbitrary: h)
  case Nil
  then show ?case by simp
next
  case (Cons x ks)
  let ?h = "case h x of Some (v # vs) \<Rightarrow> header_Set h x v | _ \<Rightarrow> h"
  have "?h = h(x := map_option (take 1) (h x))"
    using Cons.prems(2) by (auto simp: header_Set_def canonical_def fun_eq_iff split: option.split list.split)
  with Cons show ?case by (simp add: fun_upd_def)
qed

text \<open>
  What the standard library says of \<open>gzip\<close>: what was compressed reads back, and its reader closes without an error; a stream
  that is cut short fails, in \<open>NewReader\<close> or in \<open>ReadAll\<close>. Nothing is said of \<open>Close\<close> after that: it may return the error
  the decompressor stopped with.
\<close>

definition gzip_ok :: "gzip_lib \<Rightarrow> (string \<Rightarrow> string) \<Rightarrow> bool" where
  "gzip_ok Z gz \<longleftrightarrow>
     (\<forall>d. gzip_NewReader Z (gz d) = None \<and> gzip_ReadAll Z (gz d) = Inr d \<and> gzip_Close Z (gz d) = None) \<and>
     (\<forall>d p s. gz d = p @ s \<and> s \<noteq> [] \<longrightarrow> gzip_NewReader Z p \<noteq> None \<or> (\<exists>e. gzip_ReadAll Z p = Inl e))"

text \<open>A compression with a unary length in front of the data, for evaluating concrete cases.\<close>

definition unary_gz :: "string \<Rightarrow> string" where
  "unary_gz d = replicate (length d) (CHR 0x01) @ CHR 0x00 # d"

definition unary_ReadAll :: "string \<Rightarrow> goerror + string" where
  "unary_ReadAll s =
     (let n = length (takeWhile (\<lambda>c. c = CHR 0x01) s) in
      if length s = 2 * n + 1 then Inr (drop (n + 1) s) else Inl (std_errors_New ''unexpected EOF''))"

definition unary_gzip :: gzip_lib where
  "unary_gzip = \<lparr>gzip_NewReader = (\<lambda>s. None), gzip_ReadAll = unary_ReadAll,
     gzip_Close = (\<lambda>s. case unary_ReadAll s of Inl e \<Rightarrow> Some e | Inr d \<Rightarrow> None)\<rparr>"

lemma takeWhile_unary: "takeWhile (\<lambda>c. c = CHR 0x01) (replicate n (CHR 0x01) @ CHR 0x00 # d) = replicate n (CHR 0x01)"
  by (induction n) simp_all

lemma unary_gzip_ok: "gzip_ok unary_gzip unary_gz"
proof -
  have ones: "\<exists>e. unary_ReadAll (replicate m (CHR 0x01)) = Inl e" for m
    by (simp add: unary_ReadAll_def takeWhile_replicate)
  have "\<exists>e. unary_ReadAll p = Inl e" if g: "unary_gz d = p @ s" and s: "s \<noteq> []" for d p s
  proof -
    let ?ones = "replicate (length d) (CHR 0x01)"
    from g consider us where "p @ us = ?ones" | us where "p = ?ones @ us" "us @ s = CHR 0x00 # d"
      by (auto simp: unary_gz_def append_eq_append_conv2)
    then show ?thesis
    proof cases
      case 1
      then have "p = replicate (length p) (CHR 0x01)" by (metis append_eq_conv_conj length_replicate take_replicate min_def)
      with ones show ?thesis by metis
    next
      case 2
      show ?thesis
      proof (cases us)
        case Nil
        with 2 ones show ?thesis by simp
      next
        case (Cons c us')
        with 2 have p: "p = ?ones @ CHR 0x00 # us'" and "us' @ s = d" by simp_all
        with s have "length us' < length d" by auto
        with p show ?thesis by (simp add: unary_ReadAll_def takeWhile_unary)
      qed
    qed
  qed
  then show ?thesis
    by (auto simp: gzip_ok_def unary_gzip_def unary_ReadAll_def unary_gz_def takeWhile_unary)
qed


subsection \<open>The properties\<close>

text \<open>C33: The request the proxy sends on: the target's scheme (\<open>http\<close> when it has none) and host; the given
  path, or the target's base path and the request's path joined by exactly one slash whichever of them
  brought one; both queries, joined by an ampersand only when both are there. The header gets the
  request ID of the context when there is one, an empty \<open>User-Agent\<close> when it had none, and keeps
  everything else.\<close>

theorem director_spec:
  assumes "good_caller (env_caller env)" and "readable_identity (env_G env) ctx" and "req_URL req = Some u"
    and "\<not> HasSuffix base ''/''" and "\<not> HasPrefix rel ''/''"
    and "url_Path target \<in> {base, base @ ''/''}" and "url_Path u \<in> {rel, ''/'' @ rel}"
  shows "\<exists>req' u' st'. newDirector env ctx orig target targetPath req st = Ret (req', st') \<and> req_URL req' = Some u' \<and>
    url_Scheme u' = (if url_Scheme target = '''' then ''http'' else url_Scheme target) \<and> url_Host u' = url_Host target \<and>
    url_Path u' = (case targetPath of Some p \<Rightarrow> p | None \<Rightarrow> base @ ''/'' @ rel) \<and>
    url_RawQuery u' = Join (filter (\<lambda>q. q \<noteq> '''') [url_RawQuery target, url_RawQuery u]) ''&'' \<and>
    (\<forall>k. header_values (req_Header req') k =
       (if ExtractRequestID (env_G env) (Some ctx) \<noteq> '''' \<and> CanonicalMIMEHeaderKey k = ''X-Request-Id''
        then [ExtractRequestID (env_G env) (Some ctx)]
        else if CanonicalMIMEHeaderKey k = ''User-Agent'' \<and> req_Header req ''User-Agent'' = None then ['''']
        else header_values (req_Header req) k)) \<and>
    own st' = own st \<and> req_Method req' = req_Method req \<and> req_Payload req' = req_Payload req"
proof -
  let ?u = "directed_url target targetPath u"
  have log: "\<exists>st'. log_Info env (Some ctx) kvs f a st = Ret st' \<and> own st' = own st" for kvs f a
    using log_Info_entry [OF assms(1,2), of kvs f a st] by (auto simp: emit_def)
  have path: "url_Path ?u = (case targetPath of Some p \<Rightarrow> p | None \<Rightarrow> base @ ''/'' @ rel)"
    using singleJoiningSlash_one_slash [OF assms(4,5)] assms(6,7)
    by (auto simp: directed_url_def split: option.split)
  have query: "url_RawQuery ?u = Join (filter (\<lambda>q. q \<noteq> '''') [url_RawQuery target, url_RawQuery u]) ''&''"
    by (simp add: directed_url_def)
  have scheme: "url_Scheme ?u = (if url_Scheme target = '''' then ''http'' else url_Scheme target)"
    and host: "url_Host ?u = url_Host target" by (simp_all add: directed_url_def)
  let ?req = "req\<lparr>req_URL := Some ?u, req_Header := directed_header (ExtractRequestID (env_G env) (Some ctx)) (req_Header req)\<rparr>"
  let ?orig = "empty_url\<lparr>url_Scheme := forwarded_scheme (Some u) (req_Header req),
    url_Host := req_Host orig, url_Path := url_Path u, url_RawQuery := url_RawQuery u\<rparr>"
  obtain st' where run: "newDirector env ctx orig target targetPath req st = Ret (?req, st')" and st': "own st' = own st"
  proof -
    obtain st' where l: "log_Info env (Some ctx)
        [''original_req_url'' \<mapsto> fstr (url_String ?orig), ''target_req_url'' \<mapsto> fstr (url_String ?u),
         ''target'' \<mapsto> FVal (VForeign ''*url.URL'' (url_String target) (url_String target)),
         ''target_string'' \<mapsto> fstr (url_String target)]
        ''Routing %s to %s'' [VString (url_String ?orig), VString (url_String ?u)] st = Ret st'" and o: "own st' = own st"
      using log by blast
    have "newDirector env ctx orig target targetPath req st = Ret (?req, st')"
      unfolding newDirector_def Let_def assms(3) option.case l [unfolded assms(3)] go_bind.simps by (rule refl)
    with o show ?thesis by (rule that [rotated])
  qed
  show ?thesis
    by (rule exI [of _ ?req], rule exI [of _ ?u], rule exI [of _ st'], intro conjI allI)
      (rule run path query scheme host st' | simp add: directed_header_values)+
qed

theorem director_spec_witness:
  "\<exists>req' u' st'. newDirector (ex_env None) background undefined
      (empty_url\<lparr>url_Host := ''auth'', url_Path := ''/base/'', url_RawQuery := ''k=v''\<rparr>) None
      (undefined\<lparr>req_URL := Some (empty_url\<lparr>url_Path := ''/dir'', url_RawQuery := ''id=1''\<rparr>), req_Header := Map.empty\<rparr>)
      (ex_logger InfoLevel) = Ret (req', st') \<and> req_URL req' = Some u' \<and>
    url_Path u' = ''/base/dir'' \<and> url_RawQuery u' = ''k=v&id=1'' \<and> url_Scheme u' = ''http''"
proof -
  let ?u = "empty_url\<lparr>url_Path := ''/dir'', url_RawQuery := ''id=1''\<rparr>"
  have "good_caller (env_caller (ex_env None))" "readable_identity (env_G (ex_env None)) background"
    "req_URL (undefined\<lparr>req_URL := Some ?u, req_Header := Map.empty\<rparr>) = Some ?u"
    "\<not> HasSuffix ''/base'' ''/''" "\<not> HasPrefix ''dir'' ''/''"
    by (simp_all add: ex_env_def good_caller_def background_readable HasSuffix_def HasPrefix_def)
  from director_spec [OF this, where target = "empty_url\<lparr>url_Host := ''auth'', url_Path := ''/base/'', url_RawQuery := ''k=v''\<rparr>"
      and targetPath = None and orig = undefined and st = "ex_logger InfoLevel"]
  show ?thesis by (auto simp: empty_url_def)
qed

definition close_error_logged :: "('c, 'm) log_env \<Rightarrow> 'c \<Rightarrow> url \<Rightarrow> goerror \<Rightarrow> log_state \<Rightarrow> log_state \<Rightarrow> bool" where
  "close_error_logged env ctx u err st st' \<longleftrightarrow>
     (\<exists>c. st' = (if ErrorLevel \<le> lg_Level (own st) then emit c st else st) \<and>
       entry_ok ErrorLevel True (env_G env) (Some ctx)
         [''err'' \<mapsto> FVal (VForeign ''error'' (text_of err) (text_of err)), ''target_url'' \<mapsto> fstr (url_String u)]
         ''unable to close gzip writer while serving request in proxy'' [] c)"

lemma gunzip_Write_fails:
  assumes "good_caller (env_caller env)" and "readable_identity (env_G env) ctx"
    and "gzip_NewReader Z b = None" and "gzip_ReadAll Z b = Inl e"
  shows "\<exists>st'. gunzip_Write env Z raw ctx u b w st = Ret ((0, Some e), w, st') \<and>
    (case gzip_Close Z b of Some err \<Rightarrow> close_error_logged env ctx u err st st' | None \<Rightarrow> st' = st)"
proof (cases "gzip_Close Z b")
  case None
  then show ?thesis using assms(3,4) by (simp add: gunzip_Write_def)
next
  case (Some err)
  let ?kvs = "[''err'' \<mapsto> FVal (VForeign ''error'' (text_of err) (text_of err)), ''target_url'' \<mapsto> fstr (url_String u)]"
  obtain c where "log_Error env (Some ctx) ?kvs ''unable to close gzip writer while serving request in proxy'' [] st =
      Ret (if ErrorLevel \<le> lg_Level (own st) then emit c st else st)"
    and "entry_ok ErrorLevel True (env_G env) (Some ctx) ?kvs ''unable to close gzip writer while serving request in proxy'' [] c"
    using log_Error_entry [OF assms(1), of "Some ctx" ?kvs _ "[]" st] assms(2) by blast
  then show ?thesis unfolding close_error_logged_def using Some assms(3,4) by (auto simp: gunzip_Write_def)
qed

text \<open>C34: The unzipping writer: its \<open>WriteHeader\<close> drops the content length and all but the first value of
  every header (so a second \<open>Set-Cookie\<close> is lost), in whatever order the header is ranged over. Its
  \<open>Write\<close> passes on the unzipped data and reports the compressed length, but unzips every call by
  itself: a compressed body that arrives in two pieces fails on the first and nothing reaches the client. An error of
  closing the reader, which comes with such a piece when the decompressor keeps its error, is logged and not returned.\<close>

theorem gunzip_writer_spec:
  assumes "\<And>h'. finite (dom h') \<Longrightarrow> ranges_over (order h') h'" and "finite (dom h)"
    and "\<forall>k. h k \<noteq> None \<longrightarrow> canonical k" and "gzip_ok Z gz"
    and "good_caller (env_caller env)" and "readable_identity (env_G env) ctx"
  shows "(\<forall>k. header_values (gunzip_WriteHeader order h) k =
            (if CanonicalMIMEHeaderKey k = ''Content-Length'' then [] else take 1 (header_values h k))) \<and>
    gunzip_Write env Z raw ctx u (gz d) w st =
      Ret ((length (gz d), fst (raw d w)), snd (raw d w), st) \<and>
    (\<forall>c1 c2. gz d = c1 @ c2 \<and> c2 \<noteq> '''' \<longrightarrow>
      (\<exists>e st'. gunzip_Write env Z raw ctx u c1 w st = Ret ((0, Some e), w, st') \<and>
        (if gzip_NewReader Z c1 \<noteq> None then st' = st
         else case gzip_Close Z c1 of Some err \<Rightarrow> close_error_logged env ctx u err st st' | None \<Rightarrow> st' = st)))"
proof (intro conjI allI impI)
  fix k
  let ?h = "header_Del h ''Content-Length''"
  have fin: "finite (dom ?h)" using assms(2) by (simp add: header_Del_def)
  have r: "distinct (order ?h)" "set (order ?h) = dom ?h" using assms(1) [OF fin] by (simp_all add: ranges_over_def)
  have can: "\<forall>k \<in> set (order ?h). canonical k"
    using assms(3) r(2) by (auto simp: header_Del_def canonical_def split: if_splits)
  have "first_values (order ?h) ?h k' = map_option (take 1) (?h k')" for k'
    using first_values_canonical [OF r(1) can, of ?h k'] r(2) by (auto simp: domIff)
  then show "header_values (gunzip_WriteHeader order h) k =
      (if CanonicalMIMEHeaderKey k = ''Content-Length'' then [] else take 1 (header_values h k))"
    by (simp add: gunzip_WriteHeader_def header_values_def Let_def header_Del_def canonical_keys split: option.split)
next
  show "gunzip_Write env Z raw ctx u (gz d) w st = Ret ((length (gz d), fst (raw d w)), snd (raw d w), st)"
    using assms(4) by (simp add: gzip_ok_def gunzip_Write_def split: prod.split)
next
  fix c1 c2
  assume c: "gz d = c1 @ c2 \<and> c2 \<noteq> ''''"
  with assms(4) have bad: "gzip_NewReader Z c1 \<noteq> None \<or> (\<exists>e. gzip_ReadAll Z c1 = Inl e)"
    unfolding gzip_ok_def by blast
  show "\<exists>e st'. gunzip_Write env Z raw ctx u c1 w st = Ret ((0, Some e), w, st') \<and>
        (if gzip_NewReader Z c1 \<noteq> None then st' = st
         else case gzip_Close Z c1 of Some err \<Rightarrow> close_error_logged env ctx u err st st' | None \<Rightarrow> st' = st)"
  proof (cases "gzip_NewReader Z c1")
    case None
    with bad obtain e where "gzip_ReadAll Z c1 = Inl e" by blast
    with gunzip_Write_fails [OF assms(5,6) None this, of raw u w st] None show ?thesis by auto
  next
    case (Some e)
    then show ?thesis by (simp add: gunzip_Write_def)
  qed
qed

theorem gunzip_writer_spec_witness:
  "header_values (gunzip_WriteHeader (\<lambda>h. sorted_list_of_set (dom h)) [''Set-Cookie'' \<mapsto> [''a=1'', ''b=2'']]) ''Set-Cookie'' = [''a=1''] \<and>
   (\<exists>e st'. gunzip_Write (ex_env None) unary_gzip (\<lambda>b w. (None, w @ b)) background empty_url [CHR 0x01, CHR 0x00] [] (ex_logger InfoLevel)
      = Ret ((0, Some e), [], st') \<and> (\<exists>c. emitted st' = [c]))"
proof -
  have ord: "\<And>h' :: header. finite (dom h') \<Longrightarrow> ranges_over (sorted_list_of_set (dom h')) h'"
    by (simp add: ranges_over_def)
  have can: "\<forall>k. [''Set-Cookie'' \<mapsto> [''a=1'', ''b=2'']] k \<noteq> None \<longrightarrow> canonical k"
  proof -
    have "canonical ''Set-Cookie''" unfolding canonical_def by code_simp
    then show ?thesis by simp
  qed
  have fin: "finite (dom [''Set-Cookie'' \<mapsto> [''a=1'', ''b=2'']])" by (subst dom_fun_upd) simp
  have key: "CanonicalMIMEHeaderKey ''Set-Cookie'' = ''Set-Cookie''" by code_simp
  have gz: "unary_gz ''x'' = [CHR 0x01, CHR 0x00] @ ''x''" by (simp add: unary_gz_def)
  have env: "good_caller (env_caller (ex_env None))" "readable_identity (env_G (ex_env None)) background"
    by (simp_all add: ex_env_def good_caller_def background_readable)
  have cl: "gzip_NewReader unary_gzip [CHR 0x01, CHR 0x00] = None" "\<exists>err. gzip_Close unary_gzip [CHR 0x01, CHR 0x00] = Some err"
    by (simp_all add: unary_gzip_def unary_ReadAll_def)
  note spec = gunzip_writer_spec [OF ord fin can unary_gzip_ok env, of "\<lambda>b w. (None, w @ b)" empty_url "''x''" "[]"
        "ex_logger InfoLevel"]
  have "header_values (gunzip_WriteHeader (\<lambda>h. sorted_list_of_set (dom h)) [''Set-Cookie'' \<mapsto> [''a=1'', ''b=2'']]) ''Set-Cookie'' =
      take 1 (header_values [''Set-Cookie'' \<mapsto> [''a=1'', ''b=2'']] ''Set-Cookie'')"
    using spec [THEN conjunct1, rule_format, of "''Set-Cookie''"] by (simp only: key) simp
  then show ?thesis
    using spec [THEN conjunct2, THEN conjunct2, rule_format, of "[CHR 0x01, CHR 0x00]" "''x''"] gz cl
    by (auto simp: close_error_logged_def ex_logger_def emit_def less_eq_level_def header_values_def [of "[''Set-Cookie'' \<mapsto> [''a=1'', ''b=2'']]"] key)
qed

end
