(* ===== verification/Metrics.thy ===== *)
theory Metrics
  imports Log "HOL-Library.Word" Complex_Main
begin

section \<open>Metrics: \<open>metric/metric.go\<close> and \<open>metric/recorder.go\<close>\<close>

text \<open>
  The Prometheus client is the parameter \<open>prom_lib\<close>: it makes collectors of type \<open>'v\<close>, keeps them in a
  registry of type \<open>'p\<close>, which also holds what was counted and observed. The variables of the package
  and the registry are the record \<open>metrics\<close>, threaded through every operation. A \<open>float64\<close> is given as
  the exact rational it is the nearest \<open>float64\<close> of. Go's \<open>int\<close> is the 64-bit one.
\<close>

subsection \<open>Collectors and buckets\<close>

type_synonym buckets = "rat list"

record bucketsConfig =
  bc_reqDuration :: buckets
  bc_reqSize :: buckets
  bc_resSize :: buckets

type_synonym bucket_option = "bucketsConfig \<Rightarrow> bucketsConfig"

definition WithRequestDurationBucket :: "buckets \<Rightarrow> bucket_option" where
  "WithRequestDurationBucket bucket c = c\<lparr>bc_reqDuration := bucket\<rparr>"

definition WithRequestSizeBucket :: "buckets \<Rightarrow> bucket_option" where
  "WithRequestSizeBucket bucket c = c\<lparr>bc_reqSize := bucket\<rparr>"

definition WithResponseSizeBucket :: "buckets \<Rightarrow> bucket_option" where
  "WithResponseSizeBucket bucket c = c\<lparr>bc_resSize := bucket\<rparr>"

record metric_opts =
  mo_Namespace :: string
  mo_Subsystem :: string
  mo_Name :: string
  mo_Help :: string

datatype 'v collector = CounterVec 'v | HistogramVec 'v | OtherCollector

datatype 'v registered = Registered | AlreadyRegistered "'v collector" | RegisterError goerror

record ('v, 'p) prom_lib =
  prom_NewCounterVec :: "metric_opts \<Rightarrow> string list \<Rightarrow> 'v"
  prom_NewHistogramVec :: "metric_opts \<Rightarrow> buckets \<Rightarrow> string list \<Rightarrow> 'v"
  prom_Register :: "'v collector \<Rightarrow> 'p \<Rightarrow> 'v registered \<times> 'p"
  prom_Inc :: "'v \<Rightarrow> string list \<Rightarrow> 'p \<Rightarrow> 'p go"
  prom_Observe :: "'v \<Rightarrow> string list \<Rightarrow> rat \<Rightarrow> 'p \<Rightarrow> 'p go"
  prom_BuildFQName :: "string \<Rightarrow> string \<Rightarrow> string \<Rightarrow> string"
  prom_ExponentialBuckets :: "rat \<Rightarrow> rat \<Rightarrow> nat \<Rightarrow> buckets"

record ('v, 'p) metrics =
  subsystem :: string
  reqCnt :: "'v option"
  reqDuration :: "'v option"
  reqSize :: "'v option"
  resSize :: "'v option"
  registry :: 'p

definition namespace :: string where
  "namespace = ''''"

definition reqLabels :: "string list" where
  "reqLabels = [''method'', ''entity'', ''code'']"

subsection \<open>Registration\<close>

definition Register :: "('c, 'm) log_env \<Rightarrow> ('v, 'p) prom_lib \<Rightarrow> 'v collector \<Rightarrow> string \<Rightarrow> ('v, 'p) metrics
    \<Rightarrow> log_state \<Rightarrow> ('v collector \<times> ('v, 'p) metrics \<times> log_state) go" where
  "Register env L c name w st =
     (let fq = prom_BuildFQName L namespace (subsystem w) name;
          (r, p) = prom_Register L c (registry w);
          w' = w\<lparr>registry := p\<rparr>;
          registered = (\<lambda>st. go_bind (log_Debug env None [''metric_name'' \<mapsto> fstr fq] ''metric registered successfully'' [] st)
                         (\<lambda>st. Ret (c, w', st)))
      in case r of
           Registered \<Rightarrow> registered st
         | AlreadyRegistered existing \<Rightarrow> Ret (existing, w', st)
         | RegisterError err \<Rightarrow>
             go_bind (log_Panic env None [''metric_name'' \<mapsto> fstr fq, ''err'' \<mapsto> FVal (VForeign ''error'' (text_of err) (text_of err))]
               ''failed to register the prometheus metric'' [] st) registered)"

text \<open>The type assertions on what \<open>Register\<close> returns.\<close>

primrec as_counter :: "'v collector \<Rightarrow> 'v go" where
  "as_counter (CounterVec v) = Ret v"
| "as_counter (HistogramVec v) = Panic ''interface conversion''"
| "as_counter OtherCollector = Panic ''interface conversion''"

primrec as_histogram :: "'v collector \<Rightarrow> 'v go" where
  "as_histogram (HistogramVec v) = Ret v"
| "as_histogram (CounterVec v) = Panic ''interface conversion''"
| "as_histogram OtherCollector = Panic ''interface conversion''"

definition default_buckets :: "('v, 'p) prom_lib \<Rightarrow> bucketsConfig" where
  "default_buckets L =
     \<lparr>bc_reqDuration = prom_ExponentialBuckets L (1 / 20) 2 8,
      bc_reqSize = [1000, 5000, 10000, 20000, 30000, 40000, 50000],
      bc_resSize = [1000, 5000, 10000, 20000, 30000, 40000, 50000]\<rparr>"

definition metric_named :: "string \<Rightarrow> string \<Rightarrow> string \<Rightarrow> metric_opts" where
  "metric_named service name help =
     \<lparr>mo_Namespace = namespace, mo_Subsystem = service, mo_Name = name, mo_Help = help\<rparr>"

definition registerMetrics :: "('c, 'm) log_env \<Rightarrow> ('v, 'p) prom_lib \<Rightarrow> string \<Rightarrow> bucket_option list
    \<Rightarrow> ('v, 'p) metrics \<Rightarrow> log_state \<Rightarrow> (('v, 'p) metrics \<times> log_state) go" where
  "registerMetrics env L service opts w st =
     (let w0 = w\<lparr>subsystem := service\<rparr>;
          buckets = foldl (\<lambda>b opt. opt b) (default_buckets L) opts
      in go_bind (Register env L (CounterVec (prom_NewCounterVec L
             (metric_named service ''requests_total'' ''Counter of requests received into the system.'') reqLabels))
           ''requests_total'' w0 st) (\<lambda>(c, w1, st1).
         go_bind (as_counter c) (\<lambda>v. let w1 = w1\<lparr>reqCnt := Some v\<rparr> in
         go_bind (Register env L (HistogramVec (prom_NewHistogramVec L
             (metric_named service ''request_duration_seconds'' ''Bucketed histogram of processing time (s) of requests.'')
             (bc_reqDuration buckets) reqLabels))
           ''request_duration_seconds'' w1 st1) (\<lambda>(c, w2, st2).
         go_bind (as_histogram c) (\<lambda>v. let w2 = w2\<lparr>reqDuration := Some v\<rparr> in
         go_bind (Register env L (HistogramVec (prom_NewHistogramVec L
             (metric_named service ''request_size_bytes'' ''Bucketed histogram of the HTTP request sizes in bytes.'')
             (bc_reqSize buckets) reqLabels))
           ''request_size_bytes'' w2 st2) (\<lambda>(c, w3, st3).
         go_bind (as_histogram c) (\<lambda>v. let w3 = w3\<lparr>reqSize := Some v\<rparr> in
         go_bind (Register env L (HistogramVec (prom_NewHistogramVec L
             (metric_named service ''response_size_bytes'' ''Bucketed histogram of the HTTP response sizes in bytes.'')
             (bc_resSize buckets) reqLabels))
           ''response_size_bytes'' w3 st3) (\<lambda>(c, w4, st4).
         go_bind (as_histogram c) (\<lambda>v. let w4 = w4\<lparr>resSize := Some v\<rparr> in
         go_bind (log_Info env None Map.empty ''metrics registered successfully'' [] st4) (\<lambda>st5.
         Ret (w4, st5)))))))))))"

subsection \<open>Reports\<close>

text \<open>A metric that was never registered is a nil pointer.\<close>

definition vec_of :: "'v option \<Rightarrow> 'v go" where
  "vec_of m = (case m of None \<Rightarrow> Panic ''nil pointer dereference'' | Some v \<Rightarrow> Ret v)"

definition with_registry :: "('p \<Rightarrow> 'p go) \<Rightarrow> ('v, 'p) metrics \<Rightarrow> ('v, 'p) metrics go" where
  "with_registry f w = go_bind (f (registry w)) (\<lambda>p. Ret (w\<lparr>registry := p\<rparr>))"

definition reportRequestsTotal :: "('v, 'p) prom_lib \<Rightarrow> string \<Rightarrow> string \<Rightarrow> string \<Rightarrow> ('v, 'p) metrics \<Rightarrow> ('v, 'p) metrics go" where
  "reportRequestsTotal L method ent code w =
     (if method \<noteq> '''' \<and> ent \<noteq> '''' \<and> code \<noteq> ''''
      then go_bind (vec_of (reqCnt w)) (\<lambda>v. with_registry (prom_Inc L v [method, ent, code]) w)
      else Ret w)"

text \<open>
  Points in time count nanoseconds from Go's zero time; a duration saturates at the bounds of a signed
  64-bit integer.
\<close>

definition time_Since :: "int \<Rightarrow> int \<Rightarrow> int" where
  "time_Since now startTime = max (- (2 ^ 63)) (min (2 ^ 63 - 1) (now - startTime))"

definition Seconds :: "int \<Rightarrow> rat" where
  "Seconds d = of_int d / 1000000000"

definition reportRequestDuration :: "('v, 'p) prom_lib \<Rightarrow> string \<Rightarrow> string \<Rightarrow> string \<Rightarrow> int \<Rightarrow> int
    \<Rightarrow> ('v, 'p) metrics \<Rightarrow> ('v, 'p) metrics go" where
  "reportRequestDuration L method ent code now startTime w =
     (if method \<noteq> '''' \<and> ent \<noteq> '''' \<and> code \<noteq> '''' \<and> startTime \<noteq> 0
      then go_bind (vec_of (reqDuration w)) (\<lambda>v.
        with_registry (prom_Observe L v [method, ent, code] (Seconds (time_Since now startTime))) w)
      else Ret w)"

definition reportResponseSize :: "('v, 'p) prom_lib \<Rightarrow> string \<Rightarrow> string \<Rightarrow> string \<Rightarrow> int
    \<Rightarrow> ('v, 'p) metrics \<Rightarrow> ('v, 'p) metrics go" where
  "reportResponseSize L method ent code sz w =
     (if method \<noteq> '''' \<and> ent \<noteq> '''' \<and> code \<noteq> '''' \<and> 0 < sz
      then go_bind (vec_of (resSize w)) (\<lambda>v. with_registry (prom_Observe L v [method, ent, code] (of_int sz)) w)
      else Ret w)"

definition reportRequestSize :: "('v, 'p) prom_lib \<Rightarrow> string \<Rightarrow> string \<Rightarrow> string \<Rightarrow> 64 word
    \<Rightarrow> ('v, 'p) metrics \<Rightarrow> ('v, 'p) metrics go" where
  "reportRequestSize L method ent code sz w =
     (if method \<noteq> '''' \<and> ent \<noteq> '''' \<and> code \<noteq> '''' \<and> 0 <s sz
      then go_bind (vec_of (reqSize w)) (\<lambda>v.
        with_registry (prom_Observe L v [method, ent, code] (of_int (sint sz))) w)
      else Ret w)"

subsection \<open>Labels and sizes\<close>

text \<open>\<open>uni\<close> is the Unicode path of \<open>strings.ToLower\<close>.\<close>

definition methodVal :: "(string \<Rightarrow> string) \<Rightarrow> string \<Rightarrow> string" where
  "methodVal uni method = ToLower uni method"

definition entityVal :: "(string \<Rightarrow> string) \<Rightarrow> string \<Rightarrow> string" where
  "entityVal uni ctrl =
     (if HasSuffix ctrl ''Controller'' then ToLower uni (TrimSuffix ctrl ''Controller'') else '''')"

definition codeVal :: "int \<Rightarrow> string" where
  "codeVal status = (let code = go_div (status - go_mod status 100) 100 in itoa code @ ''xx'')"

definition labelsVal :: "('c, 'm) log_env \<Rightarrow> (string \<Rightarrow> string) \<Rightarrow> 'c \<Rightarrow> goa_response \<Rightarrow> log_state
    \<Rightarrow> ((string \<times> string \<times> string) \<times> log_state) go" where
  "labelsVal env uni ctx resp st =
     (case ContextRequest (env_G env) ctx of
        None \<Rightarrow> Panic ''nil pointer dereference''
      | Some r \<Rightarrow>
          (let method = methodVal uni (req_Method r);
               ctrl = ContextController (env_G env) ctx;
               ent = entityVal uni ctrl
           in if \<not> ContextHasResponse (env_G env) ctx then Panic ''nil pointer dereference''
              else (let status = rp_Status resp; code = codeVal status in
                go_bind (log_Debug env (Some ctx) Map.empty ''method=%s, ctrl=%s, entity=%s, status=%d, code=%s''
                    [VString method, VString ctrl, VString ent, VInt status, VString code] st) (\<lambda>st'.
                Ret ((method, ent, code), st')))))"

text \<open>The handler's request has a field more than the code elsewhere reads.\<close>

record http_request = request_data +
  req_Proto :: string

definition len :: "string \<Rightarrow> 64 word" where
  "len s = of_nat (length s)"

fun values_size :: "string list \<Rightarrow> 64 word \<Rightarrow> 64 word" where
  "values_size [] hs = hs"
| "values_size (v # vs) hs = values_size vs (hs + len v)"

text \<open>The two nested loops over the header, which is ranged over in the order \<open>ks\<close>.\<close>

fun header_size :: "string list \<Rightarrow> header \<Rightarrow> 64 word \<Rightarrow> 64 word" where
  "header_size [] h hs = hs"
| "header_size (name # ks) h hs =
     header_size ks h (values_size (case h name of None \<Rightarrow> [] | Some vs \<Rightarrow> vs) (hs + len name))"

definition computeApproximateRequestSize :: "('c, 'm) log_env \<Rightarrow> string list \<Rightarrow> http_request \<Rightarrow> log_state
    \<Rightarrow> (64 word \<times> log_state) go" where
  "computeApproximateRequestSize env ks r st =
     (let s0 = (case req_URL r of None \<Rightarrow> 0 | Some u \<Rightarrow> len (url_String u));
          hs = header_size ks (req_Header r) 0;
          s = s0 + len (req_Method r) + len (req_Proto r) + len (req_Host r) + hs;
          sz = (if req_ContentLength r \<noteq> - 1 then s + word_of_int (req_ContentLength r) else s)
      in go_bind (log_Debug env None [''header_size'' \<mapsto> FVal (VInt (sint hs)),
             ''body_size'' \<mapsto> FVal (VInt (req_ContentLength r)), ''req_size'' \<mapsto> FVal (VInt (sint sz))]
             ''compute request size'' [] st) (\<lambda>st'.
         Ret (sz, st')))"

subsection \<open>The middleware\<close>

definition recordReqsTotal :: "('v, 'p) prom_lib \<Rightarrow> string \<Rightarrow> string \<Rightarrow> string \<Rightarrow> ('v, 'p) metrics \<Rightarrow> ('v, 'p) metrics go" where
  "recordReqsTotal L method ent code w = reportRequestsTotal L method ent code w"

definition recordReqSize :: "('c, 'm) log_env \<Rightarrow> ('v, 'p) prom_lib \<Rightarrow> string list \<Rightarrow> string \<Rightarrow> string \<Rightarrow> string
    \<Rightarrow> http_request \<Rightarrow> ('v, 'p) metrics \<Rightarrow> log_state \<Rightarrow> (('v, 'p) metrics \<times> log_state) go" where
  "recordReqSize env L ks method ent code req w st =
     go_bind (computeApproximateRequestSize env ks req st) (\<lambda>(sz, st').
     go_bind (reportRequestSize L method ent code sz w) (\<lambda>w'. Ret (w', st')))"

definition recordResSize :: "('v, 'p) prom_lib \<Rightarrow> string \<Rightarrow> string \<Rightarrow> string \<Rightarrow> goa_response
    \<Rightarrow> ('v, 'p) metrics \<Rightarrow> ('v, 'p) metrics go" where
  "recordResSize L method ent code res w = reportResponseSize L method ent code (rp_Length res) w"

definition recordReqDuration :: "('v, 'p) prom_lib \<Rightarrow> string \<Rightarrow> string \<Rightarrow> string \<Rightarrow> int \<Rightarrow> int
    \<Rightarrow> ('v, 'p) metrics \<Rightarrow> ('v, 'p) metrics go" where
  "recordReqDuration L method ent code now startTime w = reportRequestDuration L method ent code now startTime w"

text \<open>
  The next handler works on the metrics too, since the metrics endpoint and other middlewares share them.
  \<open>clock\<close> holds the two readings of the time; the header may be ranged over in the order \<open>order\<close> gives.
\<close>

type_synonym ('c, 'v, 'p) metered_handler =
  "'c \<Rightarrow> http_request \<Rightarrow> goa_response \<Rightarrow> ('v, 'p) metrics \<Rightarrow> log_state
    \<Rightarrow> (goerror option \<times> goa_response \<times> ('v, 'p) metrics \<times> log_state) go"

definition recorder_handler :: "('c, 'm) log_env \<Rightarrow> ('v, 'p) prom_lib \<Rightarrow> (string \<Rightarrow> string) \<Rightarrow> (header \<Rightarrow> string list)
    \<Rightarrow> int \<times> int \<Rightarrow> ('c, 'v, 'p) metered_handler \<Rightarrow> ('c, 'v, 'p) metered_handler" where
  "recorder_handler env L uni order clock h ctx req resp w st =
     (let (startTime, now) = clock in
      go_bind (h ctx req resp w st) (\<lambda>(err, resp1, w1, st1).
      go_bind (labelsVal env uni ctx resp1 st1) (\<lambda>((method, ent, code), st2).
      go_bind (recordReqsTotal L method ent code w1) (\<lambda>w2.
      go_bind (recordReqSize env L (order (req_Header req)) method ent code req w2 st2) (\<lambda>(w3, st3).
      go_bind (recordResSize L method ent code resp1 w3) (\<lambda>w4.
      go_bind (recordReqDuration L method ent code now startTime w4) (\<lambda>w5.
      Ret (err, resp1, w5, st3))))))))"

definition Recorder :: "('c, 'm) log_env \<Rightarrow> ('v, 'p) prom_lib \<Rightarrow> (string \<Rightarrow> string) \<Rightarrow> (header \<Rightarrow> string list)
    \<Rightarrow> string \<Rightarrow> bucket_option list \<Rightarrow> ('v, 'p) metrics \<Rightarrow> log_state
    \<Rightarrow> ((int \<times> int \<Rightarrow> ('c, 'v, 'p) metered_handler \<Rightarrow> ('c, 'v, 'p) metered_handler) \<times> ('v, 'p) metrics \<times> log_state) go" where
  "Recorder env L uni order service options w st =
     go_bind (registerMetrics env L service options w st) (\<lambda>(w', st'). Ret (recorder_handler env L uni order, w', st'))"


subsection \<open>The size of a request\<close>

text \<open>The number of bytes the code means to count, as an integer without bound.\<close>

definition header_bytes :: "header \<Rightarrow> nat" where
  "header_bytes h = (\<Sum>k\<in>dom h. length k + sum_list (map length (the (h k))))"

definition exact_request_size :: "http_request \<Rightarrow> int" where
  "exact_request_size r =
     int ((case req_URL r of None \<Rightarrow> 0 | Some u \<Rightarrow> length (url_String u)) + length (req_Method r) + length (req_Proto r) +
       length (req_Host r) + header_bytes (req_Header r)) +
     (if req_ContentLength r \<noteq> - 1 then req_ContentLength r else 0)"

lemma values_size_sum: "values_size vs hs = hs + of_nat (sum_list (map length vs))"
  by (induction vs arbitrary: hs) (simp_all add: len_def)

lemma header_size_sum:
  "set ks \<subseteq> dom h \<Longrightarrow>
   header_size ks h hs = hs + of_nat (sum_list (map (\<lambda>k. length k + sum_list (map length (the (h k)))) ks))"
  by (induction ks arbitrary: hs) (auto simp: values_size_sum len_def)

lemma header_size_bytes: "ranges_over ks h \<Longrightarrow> header_size ks h 0 = of_nat (header_bytes h)"
  by (simp add: ranges_over_def header_size_sum header_bytes_def sum_list_distinct_conv_sum_set)

lemma log_Debug_own:
  assumes "good_caller (env_caller env)" and "\<forall>c. ctx = Some c \<longrightarrow> readable_identity (env_G env) c"
  shows "\<exists>st'. log_Debug env ctx kvs f a st = Ret st' \<and> own st' = own st \<and> std st' = std st"
  using log_at_entry [OF assms, of DebugLevel kvs f a st] by (auto simp: log_Debug_def emit_def)

lemma computeApproximateRequestSize_word:
  assumes "good_caller (env_caller env)" and "ranges_over ks (req_Header r)"
  shows "\<exists>st'. computeApproximateRequestSize env ks r st = Ret (word_of_int (exact_request_size r), st') \<and>
    own st' = own st \<and> std st' = std st"
proof -
  let ?k = "\<lambda>hs sz. [''header_size'' \<mapsto> FVal (VInt hs), ''body_size'' \<mapsto> FVal (VInt (req_ContentLength r)),
    ''req_size'' \<mapsto> FVal (VInt sz)]"
  obtain st' where "log_Debug env None (?k (sint (of_nat (header_bytes (req_Header r)) :: 64 word))
      (sint (word_of_int (exact_request_size r) :: 64 word))) ''compute request size'' [] st = Ret st'"
    "own st' = own st" "std st' = std st"
    using log_Debug_own [OF assms(1), of None] by fastforce
  moreover have "(let s = (case req_URL r of None \<Rightarrow> 0 | Some u \<Rightarrow> len (url_String u)) + len (req_Method r) + len (req_Proto r) +
      len (req_Host r) + of_nat (header_bytes (req_Header r))
    in if req_ContentLength r \<noteq> - 1 then s + word_of_int (req_ContentLength r) else s) =
      (word_of_int (exact_request_size r) :: 64 word)"
    by (simp add: exact_request_size_def len_def Let_def split: option.split)
  ultimately show ?thesis
    by (simp add: computeApproximateRequestSize_def header_size_bytes [OF assms(2)] Let_def)
qed

lemma sint_word_of_int_64:
  "sint (word_of_int x :: 64 word) = (x + 2 ^ 63) mod 2 ^ 64 - 2 ^ 63"
  by (simp add: sint_uint signed_take_bit_eq_take_bit_shift take_bit_eq_mod uint_word_of_int mod_simps)

text \<open>C22: The size of a request: the length of its URL, method, protocol, host and header, and its content
  length when that is known, in 64-bit arithmetic and whatever order the header is ranged over. Where
  the true size exceeds the signed range the sum wraps to a negative number, which is never reported:
  what is observed is always the true size.\<close>

theorem request_size_spec:
  assumes "good_caller (env_caller env)" and "ranges_over ks (req_Header r)"
    and "0 \<le> exact_request_size r" and "exact_request_size r < 2 ^ 64"
  shows "\<exists>sz st'. computeApproximateRequestSize env ks r st = Ret (sz, st') \<and> own st' = own st \<and>
    (if exact_request_size r < 2 ^ 63 then sint sz = exact_request_size r
     else sint sz = exact_request_size r - 2 ^ 64 \<and> sint sz < 0) \<and>
    (0 <s sz \<longleftrightarrow> 0 < exact_request_size r \<and> exact_request_size r < 2 ^ 63) \<and>
    (\<not> (0 < exact_request_size r \<and> exact_request_size r < 2 ^ 63) \<longrightarrow> reportRequestSize L m e c sz w = Ret w)"
proof -
  let ?x = "exact_request_size r"
  let ?sz = "word_of_int ?x :: 64 word"
  obtain st' where run: "computeApproximateRequestSize env ks r st = Ret (?sz, st')" "own st' = own st"
    using computeApproximateRequestSize_word [OF assms(1,2)] by blast
  have val: "if ?x < 2 ^ 63 then sint ?sz = ?x else sint ?sz = ?x - 2 ^ 64 \<and> sint ?sz < 0"
  proof (cases "?x < 2 ^ 63")
    case True
    with assms(3) show ?thesis by (simp add: sint_word_of_int_64)
  next
    case False
    have "(?x + 2 ^ 63) mod 2 ^ 64 = (?x + 2 ^ 63 - 2 ^ 64) mod 2 ^ 64" by (simp only: minus_mod_self2)
    also have "\<dots> = ?x + 2 ^ 63 - 2 ^ 64" by (rule mod_pos_pos_trivial) (use False assms(4) in simp_all)
    finally show ?thesis using False assms(4) by (simp add: sint_word_of_int_64)
  qed
  then have sign: "0 <s ?sz \<longleftrightarrow> 0 < ?x \<and> ?x < 2 ^ 63"
    by (simp add: word_sless_alt split: if_splits)
  then show ?thesis
    using run val by (intro exI [of _ ?sz] exI [of _ st'] conjI) (auto simp: reportRequestSize_def)
qed

theorem request_size_spec_witness:
  "(case computeApproximateRequestSize (ex_env None) [''A''] \<lparr>req_Method = ''GET'', req_Host = ''h'', req_URL = None,
      req_Header = [''A'' \<mapsto> [''12'', ''3'']], req_RemoteAddr = '''', req_ContentLength = - 1, req_Params = Map.empty,
      req_Payload = Other_Payload None, req_Proto = ''HTTP/1.1''\<rparr> (ex_logger InfoLevel) of
      Ret (sz, st) \<Rightarrow> sint sz | Panic m \<Rightarrow> 0) = 16"
proof -
  let ?r = "\<lparr>req_Method = ''GET'', req_Host = ''h'', req_URL = None, req_Header = [''A'' \<mapsto> [''12'', ''3'']],
      req_RemoteAddr = '''', req_ContentLength = - 1, req_Params = Map.empty, req_Payload = Other_Payload None,
      req_Proto = ''HTTP/1.1''\<rparr> :: http_request"
  have x: "exact_request_size ?r = 16" by (simp add: exact_request_size_def header_bytes_def)
  have "good_caller (env_caller (ex_env None))" "ranges_over [''A''] (req_Header ?r)"
    by (simp_all add: ex_env_def good_caller_def ranges_over_def)
  from request_size_spec [OF this, unfolded x, where st = "ex_logger InfoLevel"] show ?thesis by auto
qed

subsection \<open>One request through the middleware\<close>

text \<open>
  What the client library documents of a vector of metrics with three labels: \<open>cnt\<close> and \<open>smp\<close> read the
  counters and the observed values out of the registry.
\<close>

definition prom_ok :: "('v, 'p) prom_lib \<Rightarrow> ('p \<Rightarrow> 'v \<times> string list \<Rightarrow> nat) \<Rightarrow> ('p \<Rightarrow> 'v \<times> string list \<Rightarrow> rat list) \<Rightarrow> bool" where
  "prom_ok L cnt smp \<longleftrightarrow>
     (\<forall>v ls p. length ls = 3 \<longrightarrow> (\<exists>p'. prom_Inc L v ls p = Ret p' \<and>
        cnt p' = (cnt p)((v, ls) := Suc (cnt p (v, ls))) \<and> smp p' = smp p)) \<and>
     (\<forall>v ls x p. length ls = 3 \<longrightarrow> (\<exists>p'. prom_Observe L v ls x p = Ret p' \<and>
        cnt p' = cnt p \<and> smp p' = (smp p)((v, ls) := smp p (v, ls) @ [x])))"

text \<open>A label is usable when it is not empty; the code label never is.\<close>

lemma codeVal_nonempty [simp]: "codeVal n \<noteq> ''''"
  by (simp add: codeVal_def Let_def)

lemma prom_IncE:
  assumes "prom_ok L cnt smp" and "length ls = 3"
  obtains p' where "prom_Inc L v ls p = Ret p'" "cnt p' = (cnt p)((v, ls) := Suc (cnt p (v, ls)))" "smp p' = smp p"
  using assms unfolding prom_ok_def by blast

lemma prom_ObserveE:
  assumes "prom_ok L cnt smp" and "length ls = 3"
  obtains p' where "prom_Observe L v ls x p = Ret p'" "cnt p' = cnt p" "smp p' = (smp p)((v, ls) := smp p (v, ls) @ [x])"
  using assms unfolding prom_ok_def by blast

text \<open>The effect of one optional observation.\<close>

definition observed :: "bool \<Rightarrow> 'v option \<Rightarrow> string list \<Rightarrow> rat \<Rightarrow> ('v \<times> string list \<Rightarrow> rat list) \<Rightarrow> 'v \<times> string list \<Rightarrow> rat list" where
  "observed b v ls x f = (if b then f((the v, ls) := f (the v, ls) @ [x]) else f)"

lemma observe_step:
  assumes "prom_ok L cnt smp" and "v \<noteq> None" and "length ls = 3"
  shows "\<exists>w'. (if b then go_bind (vec_of v) (\<lambda>v. with_registry (prom_Observe L v ls x) w) else Ret w) = Ret w' \<and>
    cnt (registry w') = cnt (registry w) \<and> smp (registry w') = observed b v ls x (smp (registry w)) \<and>
    w' = w\<lparr>registry := registry w'\<rparr>"
proof (cases b)
  case True
  from assms(2) obtain u where u: "v = Some u" by blast
  obtain p' where "prom_Observe L u ls x (registry w) = Ret p'" "cnt p' = cnt (registry w)"
    "smp p' = (smp (registry w))((u, ls) := smp (registry w) (u, ls) @ [x])"
    using prom_ObserveE [OF assms(1,3)] by blast
  with True u show ?thesis by (simp add: vec_of_def with_registry_def observed_def)
next
  case False
  then show ?thesis by (simp add: observed_def)
qed

lemma count_step:
  assumes "prom_ok L cnt smp" and "v \<noteq> None" and "length ls = 3"
  shows "\<exists>w'. (if b then go_bind (vec_of v) (\<lambda>v. with_registry (prom_Inc L v ls) w) else Ret w) = Ret w' \<and>
    cnt (registry w') = (if b then (cnt (registry w))((the v, ls) := Suc (cnt (registry w) (the v, ls))) else cnt (registry w)) \<and>
    smp (registry w') = smp (registry w) \<and> w' = w\<lparr>registry := registry w'\<rparr>"
proof (cases b)
  case True
  from assms(2) obtain u where u: "v = Some u" by blast
  obtain p' where "prom_Inc L u ls (registry w) = Ret p'" "smp p' = smp (registry w)"
    "cnt p' = (cnt (registry w))((u, ls) := Suc (cnt (registry w) (u, ls)))"
    using prom_IncE [OF assms(1,3)] by blast
  with True u show ?thesis by (simp add: vec_of_def with_registry_def)
next
  case False
  then show ?thesis by simp
qed

lemma labelsVal_ok:
  assumes "good_caller (env_caller env)" and "readable_identity (env_G env) ctx"
    and "ContextRequest (env_G env) ctx = Some r" and "ContextHasResponse (env_G env) ctx"
  shows "\<exists>st'. labelsVal env uni ctx resp st =
      Ret ((methodVal uni (req_Method r), entityVal uni (ContextController (env_G env) ctx), codeVal (rp_Status resp)), st') \<and>
    own st' = own st \<and> std st' = std st"
proof -
  have "\<forall>c. Some ctx = Some c \<longrightarrow> readable_identity (env_G env) c" using assms(2) by simp
  from log_Debug_own [OF assms(1) this] show ?thesis
    unfolding labelsVal_def assms(3) option.case Let_def using assms(4) by (auto simp: go_bind_eq_Ret)
qed

lemma recordReqSize_step:
  assumes "good_caller (env_caller env)" and "prom_ok L cnt smp" and "ranges_over ks (req_Header req)"
    and "0 \<le> exact_request_size req" and "exact_request_size req < 2 ^ 64" and "reqSize w \<noteq> None" and "c \<noteq> ''''"
  shows "\<exists>w' st'. recordReqSize env L ks m e c req w st = Ret (w', st') \<and> own st' = own st \<and> std st' = std st \<and>
    cnt (registry w') = cnt (registry w) \<and> w' = w\<lparr>registry := registry w'\<rparr> \<and>
    smp (registry w') = observed (m \<noteq> '''' \<and> e \<noteq> '''' \<and> 0 < exact_request_size req \<and> exact_request_size req < 2 ^ 63)
      (reqSize w) [m, e, c] (of_int (exact_request_size req)) (smp (registry w))"
proof -
  define x where "x = exact_request_size req"
  obtain sz st' where sz: "computeApproximateRequestSize env ks req st = Ret (sz, st')" "own st' = own st" "std st' = std st"
    and szv: "sz = word_of_int x"
    using computeApproximateRequestSize_word [OF assms(1,3)] unfolding x_def by blast
  have x: "0 <s sz \<longleftrightarrow> 0 < x \<and> x < 2 ^ 63" "0 < x \<and> x < 2 ^ 63 \<longrightarrow> sint sz = x"
    using assms(4,5) sint_word_of_int_64 [of x] unfolding szv x_def [symmetric]
    by (auto simp: word_sless_alt mod_pos_pos_trivial) (smt (verit) minus_mod_self2 mod_pos_pos_trivial)+
  have len3: "length [m, e, c] = 3" by simp
  obtain w' where "recordReqSize env L ks m e c req w st = Ret (w', st')" "cnt (registry w') = cnt (registry w)"
    "smp (registry w') = observed (m \<noteq> '''' \<and> e \<noteq> '''' \<and> 0 < x \<and> x < 2 ^ 63) (reqSize w) [m, e, c] (of_int (sint sz)) (smp (registry w))"
    "w' = w\<lparr>registry := registry w'\<rparr>"
    using observe_step [OF assms(2,6) len3, of "m \<noteq> '''' \<and> e \<noteq> '''' \<and> 0 <s sz" "of_int (sint sz)" w] assms(7) sz(1) x(1)
    by (auto simp: recordReqSize_def reportRequestSize_def)
  moreover have "observed (m \<noteq> '''' \<and> e \<noteq> '''' \<and> 0 < x \<and> x < 2 ^ 63) (reqSize w) [m, e, c] (of_int (sint sz)) f =
      observed (m \<noteq> '''' \<and> e \<noteq> '''' \<and> 0 < x \<and> x < 2 ^ 63) (reqSize w) [m, e, c] (of_int x) f" for f
    using x(2) by (auto simp: observed_def)
  ultimately show ?thesis using sz(2,3) unfolding x_def [symmetric] by (intro exI [of _ w'] exI [of _ st']) simp
qed

text \<open>The steps of the recorder change the registry and nothing else.\<close>

lemma registry_onlyD:
  assumes "w' = w\<lparr>registry := registry w'\<rparr>"
  shows "reqCnt w' = reqCnt w" and "reqDuration w' = reqDuration w" and "reqSize w' = reqSize w" and "resSize w' = resSize w"
  by (subst assms, simp)+

lemma registry_only_trans:
  "w' = w\<lparr>registry := registry w'\<rparr> \<Longrightarrow> w'' = w'\<lparr>registry := registry w''\<rparr> \<Longrightarrow> w'' = w\<lparr>registry := registry w''\<rparr>"
  by (cases w; cases w'; cases w'') simp

text \<open>C21: One request through the metrics middleware: the next handler runs exactly once, on the caller's
  own arguments, and its error, its response and the loggers come back unchanged, without a panic. The
  request is counted exactly once, under its lower-cased method, the name of its controller without the
  suffix and the class of its status; the three histograms get the true request size when it is
  positive, the response length when it is positive and the elapsed time; no other counter or sample
  changes. A request without a method, or of a controller whose name has no such suffix, leaves the
  registry as the handler left it.\<close>

theorem recorder_spec:
  assumes "good_caller (env_caller env)" and "readable_identity (env_G env) ctx"
    and "ContextRequest (env_G env) ctx = Some r" and "ContextHasResponse (env_G env) ctx"
    and "prom_ok L cnt smp" and "ranges_over (order (req_Header req)) (req_Header req)"
    and "0 \<le> exact_request_size req" and "exact_request_size req < 2 ^ 64"
    and "h ctx req resp w st = Ret (err, resp1, w1, st1)"
    and "reqCnt w1 \<noteq> None" and "reqDuration w1 \<noteq> None" and "reqSize w1 \<noteq> None" and "resSize w1 \<noteq> None"
  shows "\<exists>w2 st2. let m = methodVal uni (req_Method r); e = entityVal uni (ContextController (env_G env) ctx);
      ls = [m, e, codeVal (rp_Status resp1)]; usable = m \<noteq> '''' \<and> e \<noteq> '''' in
    recorder_handler env L uni order (startTime, now) h ctx req resp w st = Ret (err, resp1, w2, st2) \<and>
    own st2 = own st1 \<and> std st2 = std st1 \<and> w2 = w1\<lparr>registry := registry w2\<rparr> \<and>
    cnt (registry w2) = (if usable then (cnt (registry w1))((the (reqCnt w1), ls) := Suc (cnt (registry w1) (the (reqCnt w1), ls)))
                         else cnt (registry w1)) \<and>
    smp (registry w2) =
      observed (usable \<and> startTime \<noteq> 0) (reqDuration w1) ls (Seconds (time_Since now startTime))
        (observed (usable \<and> 0 < rp_Length resp1) (resSize w1) ls (of_int (rp_Length resp1))
          (observed (usable \<and> 0 < exact_request_size req \<and> exact_request_size req < 2 ^ 63) (reqSize w1) ls
            (of_int (exact_request_size req)) (smp (registry w1))))"
proof -
  define m where "m = methodVal uni (req_Method r)"
  define e where "e = entityVal uni (ContextController (env_G env) ctx)"
  define c where "c = codeVal (rp_Status resp1)"
  define x where "x = exact_request_size req"
  let ?ls = "[m, e, c]" and ?u = "m \<noteq> '''' \<and> e \<noteq> ''''"
  have len3: "length ?ls = 3" by simp
  have c: "c \<noteq> ''''" by (simp add: c_def)
  obtain st2 where lab: "labelsVal env uni ctx resp1 st1 = Ret ((m, e, c), st2)" "own st2 = own st1" "std st2 = std st1"
    using labelsVal_ok [OF assms(1-4)] unfolding m_def e_def c_def by blast
  obtain w2 where w2: "recordReqsTotal L m e c w1 = Ret w2" "smp (registry w2) = smp (registry w1)"
    "cnt (registry w2) = (if ?u then (cnt (registry w1))((the (reqCnt w1), ?ls) := Suc (cnt (registry w1) (the (reqCnt w1), ?ls)))
                          else cnt (registry w1))" and w2_eq: "w2 = w1\<lparr>registry := registry w2\<rparr>"
    using count_step [OF assms(5,10) len3, of ?u w1] c by (auto simp: recordReqsTotal_def reportRequestsTotal_def)
  have n2: "reqSize w2 \<noteq> None" using assms(12) registry_onlyD [OF w2_eq] by simp
  obtain w3 st3 where w3: "recordReqSize env L (order (req_Header req)) m e c req w2 st2 = Ret (w3, st3)"
    "own st3 = own st2" "std st3 = std st2" "cnt (registry w3) = cnt (registry w2)"
    "smp (registry w3) = observed (?u \<and> 0 < x \<and> x < 2 ^ 63) (reqSize w2) ?ls (of_int x) (smp (registry w2))"
    and w3_eq: "w3 = w2\<lparr>registry := registry w3\<rparr>"
    using recordReqSize_step [OF assms(1,5-8) n2 c, of m e st2] unfolding x_def by (auto simp only: conj_assoc)
  have n3: "resSize w3 \<noteq> None" using assms(13) registry_onlyD [OF w2_eq] registry_onlyD [OF w3_eq] by simp
  obtain w4 where w4: "recordResSize L m e c resp1 w3 = Ret w4" "cnt (registry w4) = cnt (registry w3)"
    "smp (registry w4) = observed (?u \<and> 0 < rp_Length resp1) (resSize w3) ?ls (of_int (rp_Length resp1)) (smp (registry w3))"
    and w4_eq: "w4 = w3\<lparr>registry := registry w4\<rparr>"
    using observe_step [OF assms(5) n3 len3, of "?u \<and> 0 < rp_Length resp1" "of_int (rp_Length resp1)" w3] c
    by (auto simp: recordResSize_def reportResponseSize_def)
  have n4: "reqDuration w4 \<noteq> None" using assms(11) registry_onlyD [OF w2_eq] registry_onlyD [OF w3_eq] registry_onlyD [OF w4_eq] by simp
  obtain w5 where w5: "recordReqDuration L m e c now startTime w4 = Ret w5" "cnt (registry w5) = cnt (registry w4)"
    "smp (registry w5) = observed (?u \<and> startTime \<noteq> 0) (reqDuration w4) ?ls (Seconds (time_Since now startTime)) (smp (registry w4))"
    and w5_eq: "w5 = w4\<lparr>registry := registry w5\<rparr>"
    using observe_step [OF assms(5) n4 len3, of "?u \<and> startTime \<noteq> 0" "Seconds (time_Since now startTime)" w4] c
    by (auto simp: recordReqDuration_def reportRequestDuration_def)
  have run: "recorder_handler env L uni order (startTime, now) h ctx req resp w st = Ret (err, resp1, w5, st3)"
    by (simp add: recorder_handler_def assms(9) lab(1) w2(1) w3(1) w4(1) w5(1))
  note same = registry_onlyD [OF w2_eq] registry_onlyD [OF w3_eq] registry_onlyD [OF w4_eq] registry_onlyD [OF w5_eq]
  note eq = registry_only_trans [OF registry_only_trans [OF registry_only_trans [OF w2_eq w3_eq] w4_eq] w5_eq]
  show ?thesis
    unfolding Let_def m_def [symmetric] e_def [symmetric] c_def [symmetric] x_def [symmetric]
    by (rule exI [of _ w5], rule exI [of _ st3], intro conjI)
      (use run lab eq w2 w3 w4 w5 same in simp_all)
qed

subsection \<open>Registering the metrics\<close>

text \<open>
  A collector is known by its full name: the parts that are not empty, joined by underscores. Prometheus documents which names
  of metrics and labels are valid. Registering a collector with a name or a label that is not valid is an error; registering
  one whose name is taken gives the collector that has it, if help text and labels agree, and is an error otherwise. What is
  known of a registered collector is its help text, its labels and the collector itself.
\<close>

definition fq_name :: "string \<Rightarrow> string \<Rightarrow> string \<Rightarrow> string" where
  "fq_name ns sub nm = (if nm = '''' then '''' else Join (filter (\<lambda>s. s \<noteq> '''') [ns, sub, nm]) ''_'')"

definition opts_name :: "metric_opts \<Rightarrow> string" where
  "opts_name d = fq_name (mo_Namespace d) (mo_Subsystem d) (mo_Name d)"

definition label_start :: string where
  "label_start = ''abcdefghijklmnopqrstuvwxyzABCDEFGHIJKLMNOPQRSTUVWXYZ_''"

definition valid_metric_name :: "string \<Rightarrow> bool" where
  "valid_metric_name s \<longleftrightarrow> s \<noteq> '''' \<and> hd s \<in> set (label_start @ '':'') \<and> list_all (\<lambda>c. c \<in> set (label_start @ '':0123456789'')) s"

definition valid_label :: "string \<Rightarrow> bool" where
  "valid_label s \<longleftrightarrow> s \<noteq> '''' \<and> hd s \<in> set label_start \<and> list_all (\<lambda>c. c \<in> set (label_start @ ''0123456789'')) s \<and>
     \<not> HasPrefix s ''__''"

type_synonym 'v known = "string \<times> string list \<times> 'v collector"

definition registers :: "('v, 'p) prom_lib \<Rightarrow> ('p \<Rightarrow> string \<rightharpoonup> 'v known) \<Rightarrow> metric_opts \<Rightarrow> string list \<Rightarrow> 'v collector \<Rightarrow> bool" where
  "registers L reg d ls c \<longleftrightarrow>
     (\<forall>p. if valid_metric_name (opts_name d) \<and> list_all valid_label ls \<and> distinct ls
        then (case reg p (opts_name d) of
                None \<Rightarrow> (\<exists>p'. prom_Register L c p = (Registered, p') \<and> reg p' = (reg p)(opts_name d \<mapsto> (mo_Help d, ls, c)))
              | Some (h, ls', c') \<Rightarrow>
                  if h = mo_Help d \<and> set ls' = set ls then prom_Register L c p = (AlreadyRegistered c', p)
                  else (\<exists>e. prom_Register L c p = (RegisterError e, p)))
        else (\<exists>e. prom_Register L c p = (RegisterError e, p)))"

definition prom_reg_ok :: "('v, 'p) prom_lib \<Rightarrow> ('p \<Rightarrow> string \<rightharpoonup> 'v known) \<Rightarrow> bool" where
  "prom_reg_ok L reg \<longleftrightarrow>
     (\<forall>d ls. mo_Help d \<noteq> '''' \<longrightarrow> registers L reg d ls (CounterVec (prom_NewCounterVec L d ls))) \<and>
     (\<forall>d bs ls. mo_Help d \<noteq> '''' \<longrightarrow> registers L reg d ls (HistogramVec (prom_NewHistogramVec L d bs ls))) \<and>
     (\<forall>ns sub nm. prom_BuildFQName L ns sub nm = fq_name ns sub nm)"

lemma prom_reg_okD:
  assumes "prom_reg_ok L reg" and "mo_Help d \<noteq> ''''"
  shows "registers L reg d ls (CounterVec (prom_NewCounterVec L d ls))"
    "registers L reg d ls (HistogramVec (prom_NewHistogramVec L d bs ls))"
  using assms by (simp_all add: prom_reg_ok_def)

lemma reqLabels_valid: "list_all valid_label reqLabels \<and> distinct reqLabels"
  by code_simp

lemma Register_fresh:
  assumes "good_caller (env_caller env)" and "registers L reg d reqLabels c" and "valid_metric_name (opts_name d)"
    and "reg (registry w) (opts_name d) = None"
  shows "\<exists>p st'. Register env L c n w st = Ret (c, w\<lparr>registry := p\<rparr>, st') \<and> own st' = own st \<and>
    reg p = (reg (registry w))(opts_name d \<mapsto> (mo_Help d, reqLabels, c))"
proof -
  obtain p where p: "prom_Register L c (registry w) = (Registered, p)"
    "reg p = (reg (registry w))(opts_name d \<mapsto> (mo_Help d, reqLabels, c))"
    using spec [OF assms(2) [unfolded registers_def], of "registry w"] assms(3,4) reqLabels_valid by auto
  let ?kv = "[''metric_name'' \<mapsto> fstr (prom_BuildFQName L namespace (subsystem w) n)]"
  obtain st' where "log_Debug env None ?kv ''metric registered successfully'' [] st = Ret st'" "own st' = own st"
    using log_Debug_own [OF assms(1), of None] by fastforce
  with p show ?thesis by (intro exI [of _ p] exI [of _ st']) (simp add: Register_def Let_def)
qed

lemma Register_existing:
  assumes "registers L reg d reqLabels c" and "valid_metric_name (opts_name d)"
    and "reg (registry w) (opts_name d) = Some (mo_Help d, reqLabels, c')"
  shows "Register env L c n w st = Ret (c', w, st)"
proof -
  have "prom_Register L c (registry w) = (AlreadyRegistered c', registry w)"
    using spec [OF assms(1) [unfolded registers_def], of "registry w"] assms(2,3) reqLabels_valid by simp
  then show ?thesis by (simp add: Register_def)
qed

text \<open>Where errors are logged, a registration that fails panics.\<close>

lemma Register_refused:
  assumes "registers L reg d reqLabels c" and "ErrorLevel \<le> lg_Level (own st)"
    and "\<not> valid_metric_name (opts_name d) \<or>
      (\<exists>h ls c'. reg (registry w) (opts_name d) = Some (h, ls, c') \<and> (h \<noteq> mo_Help d \<or> set ls \<noteq> set reqLabels))"
  shows "panics (Register env L c n w st)"
proof -
  obtain e where "prom_Register L c (registry w) = (RegisterError e, registry w)"
    using spec [OF assms(1) [unfolded registers_def], of "registry w"] assms(3) reqLabels_valid by (auto split: if_split_asm)
  then show ?thesis using assms(2) by (simp add: Register_def Let_def log_Panic_def opt_ctx_fields_def)
qed

lemma metric_named_name [simp]: "opts_name (metric_named service n help) = fq_name '''' service n"
  "mo_Help (metric_named service n help) = help"
  by (simp_all add: opts_name_def metric_named_def namespace_def)

definition request_metrics :: "string list" where
  "request_metrics = [''requests_total'', ''request_duration_seconds'', ''request_size_bytes'', ''response_size_bytes'']"

text \<open>The names are valid exactly for services with a name that could be one of a metric, or none.\<close>

lemma valid_service_names:
  assumes "n \<in> set request_metrics"
  shows "valid_metric_name (fq_name '''' service n) \<longleftrightarrow> service = '''' \<or> valid_metric_name service"
proof -
  have n: "valid_metric_name n" "n \<noteq> ''''" using assms by (auto simp: request_metrics_def valid_metric_name_def label_start_def)
  show ?thesis
  proof (cases "service = ''''")
    case False
    then have "fq_name '''' service n = service @ ''_'' @ n" using n(2) by (simp add: fq_name_def)
    with False n show ?thesis by (auto simp: valid_metric_name_def label_start_def)
  qed (use n in \<open>simp add: fq_name_def\<close>)
qed

lemma fq_name_inj: "a \<noteq> '''' \<Longrightarrow> b \<noteq> '''' \<Longrightarrow> fq_name ns sub a = fq_name ns sub b \<longleftrightarrow> a = b"
  by (auto simp: fq_name_def)

text \<open>The four collectors \<open>registerMetrics\<close> makes, under their names.\<close>

definition new_metrics :: "('v, 'p) prom_lib \<Rightarrow> string \<Rightarrow> bucket_option list \<Rightarrow> 'v \<times> 'v \<times> 'v \<times> 'v" where
  "new_metrics L service opts =
     (let buckets = foldl (\<lambda>b opt. opt b) (default_buckets L) opts in
      (prom_NewCounterVec L (metric_named service ''requests_total'' ''Counter of requests received into the system.'') reqLabels,
       prom_NewHistogramVec L (metric_named service ''request_duration_seconds'' ''Bucketed histogram of processing time (s) of requests.'')
         (bc_reqDuration buckets) reqLabels,
       prom_NewHistogramVec L (metric_named service ''request_size_bytes'' ''Bucketed histogram of the HTTP request sizes in bytes.'')
         (bc_reqSize buckets) reqLabels,
       prom_NewHistogramVec L (metric_named service ''response_size_bytes'' ''Bucketed histogram of the HTTP response sizes in bytes.'')
         (bc_resSize buckets) reqLabels))"

lemma log_Info_nil_ctx:
  assumes "good_caller (env_caller env)"
  shows "\<exists>st'. log_Info env None kvs f a st = Ret st' \<and> own st' = own st"
  using log_at_entry [OF assms, of None InfoLevel kvs f a st] by (auto simp: log_Info_def emit_def)

lemma registerMetrics_fresh:
  assumes "good_caller (env_caller env)" and "prom_reg_ok L reg" and "service = '''' \<or> valid_metric_name service"
    and fresh: "\<forall>n \<in> set request_metrics. reg (registry w) (fq_name '''' service n) = None"
    and new: "new_metrics L service opts = (a, b, c, d)"
  shows "\<exists>p st'. registerMetrics env L service opts w st =
      Ret (\<lparr>subsystem = service, reqCnt = Some a, reqDuration = Some b, reqSize = Some c, resSize = Some d, registry = p\<rparr>, st') \<and>
    own st' = own st \<and>
    reg p = (reg (registry w))(fq_name '''' service ''requests_total'' \<mapsto> (''Counter of requests received into the system.'', reqLabels, CounterVec a),
      fq_name '''' service ''request_duration_seconds'' \<mapsto> (''Bucketed histogram of processing time (s) of requests.'', reqLabels, HistogramVec b),
      fq_name '''' service ''request_size_bytes'' \<mapsto> (''Bucketed histogram of the HTTP request sizes in bytes.'', reqLabels, HistogramVec c),
      fq_name '''' service ''response_size_bytes'' \<mapsto> (''Bucketed histogram of the HTTP response sizes in bytes.'', reqLabels, HistogramVec d))"
proof -
  let ?k = "fq_name '''' service"
  let ?d1 = "metric_named service ''requests_total'' ''Counter of requests received into the system.''"
  let ?d2 = "metric_named service ''request_duration_seconds'' ''Bucketed histogram of processing time (s) of requests.''"
  let ?d3 = "metric_named service ''request_size_bytes'' ''Bucketed histogram of the HTTP request sizes in bytes.''"
  let ?d4 = "metric_named service ''response_size_bytes'' ''Bucketed histogram of the HTTP response sizes in bytes.''"
  note new' = new [unfolded new_metrics_def Let_def prod.inject]
  have helps: "mo_Help ?d1 \<noteq> ''''" "mo_Help ?d2 \<noteq> ''''" "mo_Help ?d3 \<noteq> ''''" "mo_Help ?d4 \<noteq> ''''" by simp_all
  have ra: "registers L reg ?d1 reqLabels (CounterVec a)"
    by (rule prom_reg_okD(1) [OF assms(2) helps(1), of reqLabels, unfolded new' [THEN conjunct1]])
  have rb: "registers L reg ?d2 reqLabels (HistogramVec b)"
    by (rule prom_reg_okD(2) [OF assms(2) helps(2), of reqLabels, where bs = "bc_reqDuration (foldl (\<lambda>b opt. opt b) (default_buckets L) opts)",
        unfolded new' [THEN conjunct2, THEN conjunct1]])
  have rc: "registers L reg ?d3 reqLabels (HistogramVec c)"
    by (rule prom_reg_okD(2) [OF assms(2) helps(3), of reqLabels, where bs = "bc_reqSize (foldl (\<lambda>b opt. opt b) (default_buckets L) opts)",
        unfolded new' [THEN conjunct2, THEN conjunct2, THEN conjunct1]])
  have rd: "registers L reg ?d4 reqLabels (HistogramVec d)"
    by (rule prom_reg_okD(2) [OF assms(2) helps(4), of reqLabels, where bs = "bc_resSize (foldl (\<lambda>b opt. opt b) (default_buckets L) opts)",
        unfolded new' [THEN conjunct2, THEN conjunct2, THEN conjunct2]])
  have names: "valid_metric_name (?k n)" "reg (registry w) (?k n) = None" if "n \<in> set request_metrics" for n
    using valid_service_names [OF that, of service] assms(3) bspec [OF fresh that] by simp_all
  have four: "''requests_total'' \<in> set request_metrics" "''request_duration_seconds'' \<in> set request_metrics"
    "''request_size_bytes'' \<in> set request_metrics" "''response_size_bytes'' \<in> set request_metrics"
    by (simp_all add: request_metrics_def)
  let ?w0 = "w\<lparr>subsystem := service\<rparr>"
  obtain p1 st1 where 1: "Register env L (CounterVec a) ''requests_total'' ?w0 st = Ret (CounterVec a, ?w0\<lparr>registry := p1\<rparr>, st1)"
    "own st1 = own st" "reg p1 = (reg (registry w))(?k ''requests_total'' \<mapsto> (''Counter of requests received into the system.'', reqLabels, CounterVec a))"
    using Register_fresh [OF assms(1) ra, of ?w0 "''requests_total''" st] names [OF four(1)]  by (fastforce simp: fq_name_inj)
  let ?w1 = "?w0\<lparr>registry := p1, reqCnt := Some a\<rparr>"
  obtain p2 st2 where 2: "Register env L (HistogramVec b) ''request_duration_seconds'' ?w1 st1 = Ret (HistogramVec b, ?w1\<lparr>registry := p2\<rparr>, st2)"
    "own st2 = own st" "reg p2 = (reg p1)(?k ''request_duration_seconds'' \<mapsto> (''Bucketed histogram of processing time (s) of requests.'', reqLabels, HistogramVec b))"
    using Register_fresh [OF assms(1) rb, of ?w1 "''request_duration_seconds''" st1] names [OF four(2)] 1 by (fastforce simp: fq_name_inj)
  let ?w2 = "?w1\<lparr>registry := p2, reqDuration := Some b\<rparr>"
  obtain p3 st3 where 3: "Register env L (HistogramVec c) ''request_size_bytes'' ?w2 st2 = Ret (HistogramVec c, ?w2\<lparr>registry := p3\<rparr>, st3)"
    "own st3 = own st" "reg p3 = (reg p2)(?k ''request_size_bytes'' \<mapsto> (''Bucketed histogram of the HTTP request sizes in bytes.'', reqLabels, HistogramVec c))"
    using Register_fresh [OF assms(1) rc, of ?w2 "''request_size_bytes''" st2] names [OF four(3)] 1 2 by (fastforce simp: fq_name_inj)
  let ?w3 = "?w2\<lparr>registry := p3, reqSize := Some c\<rparr>"
  obtain p4 st4 where 4: "Register env L (HistogramVec d) ''response_size_bytes'' ?w3 st3 = Ret (HistogramVec d, ?w3\<lparr>registry := p4\<rparr>, st4)"
    "own st4 = own st" "reg p4 = (reg p3)(?k ''response_size_bytes'' \<mapsto> (''Bucketed histogram of the HTTP response sizes in bytes.'', reqLabels, HistogramVec d))"
    using Register_fresh [OF assms(1) rd, of ?w3 "''response_size_bytes''" st3] names [OF four(4)] 1 2 3 by (fastforce simp: fq_name_inj)
  obtain st5 where 5: "log_Info env None Map.empty ''metrics registered successfully'' [] st4 = Ret st5" "own st5 = own st4"
    using log_Info_nil_ctx [OF assms(1)] by blast
  have "registerMetrics env L service opts w st = Ret (?w3\<lparr>registry := p4, resSize := Some d\<rparr>, st5)"
    unfolding registerMetrics_def Let_def new' [THEN conjunct1] new' [THEN conjunct2, THEN conjunct1]
      new' [THEN conjunct2, THEN conjunct2, THEN conjunct1] new' [THEN conjunct2, THEN conjunct2, THEN conjunct2]
      1(1) go_bind.simps prod.case as_counter.simps as_histogram.simps 2(1) 3(1) 4(1) 5(1) ..
  then show ?thesis
    using 1 2 3 4 5 by (intro exI [of _ p4] exI [of _ st5]) simp
qed

lemma registerMetrics_again:
  assumes "good_caller (env_caller env)" and "prom_reg_ok L reg" and "service = '''' \<or> valid_metric_name service"
    and "w = \<lparr>subsystem = service, reqCnt = Some a, reqDuration = Some b, reqSize = Some c, resSize = Some d, registry = p\<rparr>"
    and "reg p (fq_name '''' service ''requests_total'') =
      Some (''Counter of requests received into the system.'', reqLabels, CounterVec a)"
    and "reg p (fq_name '''' service ''request_duration_seconds'') =
      Some (''Bucketed histogram of processing time (s) of requests.'', reqLabels, HistogramVec b)"
    and "reg p (fq_name '''' service ''request_size_bytes'') =
      Some (''Bucketed histogram of the HTTP request sizes in bytes.'', reqLabels, HistogramVec c)"
    and "reg p (fq_name '''' service ''response_size_bytes'') =
      Some (''Bucketed histogram of the HTTP response sizes in bytes.'', reqLabels, HistogramVec d)"
  shows "\<exists>st'. registerMetrics env L service opts w st = Ret (w, st') \<and> own st' = own st"
proof -
  have names: "valid_metric_name (fq_name '''' service n)" if "n \<in> set request_metrics" for n
    using valid_service_names [OF that, of service] assms(3) by simp
  note again = Register_existing [OF prom_reg_okD(1) [OF assms(2)]] Register_existing [OF prom_reg_okD(2) [OF assms(2)]]
  obtain st' where "log_Info env None Map.empty ''metrics registered successfully'' [] st = Ret st'" "own st' = own st"
    using log_Info_nil_ctx [OF assms(1)] by blast
  then show ?thesis
    using assms(4-8) names by (simp add: registerMetrics_def Let_def again request_metrics_def)
qed

text \<open>A service with a name that is not valid, or whose counter has a namesake of another kind, gets no recorder.\<close>

lemma registerMetrics_refused:
  assumes "prom_reg_ok L reg" and "ErrorLevel \<le> lg_Level (own st)"
    and "\<not> (service = '''' \<or> valid_metric_name service) \<or>
      (\<exists>h ls c'. reg (registry w) (fq_name '''' service ''requests_total'') = Some (h, ls, c') \<and>
         (h \<noteq> ''Counter of requests received into the system.'' \<or> set ls \<noteq> set reqLabels))"
  shows "panics (registerMetrics env L service opts w st)"
proof -
  let ?d = "metric_named service ''requests_total'' ''Counter of requests received into the system.''"
  have "\<not> valid_metric_name (opts_name ?d) \<or> (\<exists>h ls c'. reg (registry (w\<lparr>subsystem := service\<rparr>)) (opts_name ?d) = Some (h, ls, c') \<and>
      (h \<noteq> mo_Help ?d \<or> set ls \<noteq> set reqLabels))"
    using assms(3) valid_service_names [of "''requests_total''" service] by (simp add: request_metrics_def)
  from Register_refused [OF prom_reg_okD(1) [OF assms(1)] assms(2) this, of env "''requests_total''"]
  show ?thesis
    by (cases "Register env L (CounterVec (prom_NewCounterVec L ?d reqLabels)) ''requests_total'' (w\<lparr>subsystem := service\<rparr>) st")
      (simp_all add: registerMetrics_def Let_def)
qed

text \<open>A registry as the map from names to collectors, with what was counted and observed.\<close>

type_synonym plain_vec = "metric_opts \<times> string list"

record plain_registry =
  pr_collectors :: "string \<rightharpoonup> plain_vec known"
  pr_counts :: "plain_vec \<times> string list \<Rightarrow> nat"
  pr_samples :: "plain_vec \<times> string list \<Rightarrow> rat list"

primrec collector_vec :: "plain_vec collector \<Rightarrow> plain_vec option" where
  "collector_vec (CounterVec v) = Some v"
| "collector_vec (HistogramVec v) = Some v"
| "collector_vec OtherCollector = None"

definition plain_Register :: "plain_vec collector \<Rightarrow> plain_registry \<Rightarrow> plain_vec registered \<times> plain_registry" where
  "plain_Register c p =
     (case collector_vec c of
        None \<Rightarrow> (RegisterError (std_errors_New ''no descriptor''), p)
      | Some (d, ls) \<Rightarrow>
          if valid_metric_name (opts_name d) \<and> list_all valid_label ls \<and> distinct ls
          then (case pr_collectors p (opts_name d) of
                  Some (h, ls', c') \<Rightarrow>
                    (if h = mo_Help d \<and> set ls' = set ls then AlreadyRegistered c'
                     else RegisterError (std_errors_New ''different label names or a different help string''), p)
                | None \<Rightarrow> (Registered, p\<lparr>pr_collectors := (pr_collectors p)(opts_name d \<mapsto> (mo_Help d, ls, c))\<rparr>))
          else (RegisterError (std_errors_New ''descriptor is invalid''), p))"

definition plain_prom :: "(plain_vec, plain_registry) prom_lib" where
  "plain_prom =
     \<lparr>prom_NewCounterVec = (\<lambda>d ls. (d, ls)), prom_NewHistogramVec = (\<lambda>d bs ls. (d, ls)), prom_Register = plain_Register,
      prom_Inc = (\<lambda>v ls p. Ret (p\<lparr>pr_counts := (pr_counts p)((v, ls) := Suc (pr_counts p (v, ls)))\<rparr>)),
      prom_Observe = (\<lambda>v ls x p. Ret (p\<lparr>pr_samples := (pr_samples p)((v, ls) := pr_samples p (v, ls) @ [x])\<rparr>)),
      prom_BuildFQName = fq_name, prom_ExponentialBuckets = (\<lambda>s f n. map (\<lambda>i. s * f ^ i) [0..<n])\<rparr>"

definition empty_registry :: plain_registry where
  "empty_registry = \<lparr>pr_collectors = Map.empty, pr_counts = (\<lambda>k. 0), pr_samples = (\<lambda>k. [])\<rparr>"

definition no_metrics :: "(plain_vec, plain_registry) metrics" where
  "no_metrics = \<lparr>subsystem = '''', reqCnt = None, reqDuration = None, reqSize = None, resSize = None, registry = empty_registry\<rparr>"

lemma plain_prom_ok: "prom_ok plain_prom pr_counts pr_samples" "prom_reg_ok plain_prom pr_collectors"
proof -
  show "prom_ok plain_prom pr_counts pr_samples" by (simp add: prom_ok_def plain_prom_def)
  show "prom_reg_ok plain_prom pr_collectors"
    unfolding prom_reg_ok_def registers_def plain_prom_def by (auto simp: plain_Register_def split: option.split)
qed

text \<open>C23: Registration: for a service whose name is valid as one of a metric (or empty), on a registry that has none of its
  four metrics, \<open>Recorder\<close> registers them under the service's name, with the buckets the options left, and keeps them in the package's
  variables; collectors under other names stay. Calling it again for the same service, whatever
  options it is given, changes neither the registry nor the variables, so what was counted is kept. For a name that
  is not valid, such as one with a hyphen, and when the name of the counter is taken by a metric with another help text or other
  labels, there is no recorder: it panics, provided that errors are logged.\<close>

theorem register_metrics_spec:
  assumes "good_caller (env_caller env)" and "prom_reg_ok L reg" and "new_metrics L service opts = (a, b, c, d)"
  shows "((service = '''' \<or> valid_metric_name service) \<and> (\<forall>n \<in> set request_metrics. reg (registry w) (fq_name '''' service n) = None) \<longrightarrow>
     (\<exists>w' st'. Recorder env L uni order service opts w st = Ret (recorder_handler env L uni order, w', st') \<and>
      own st' = own st \<and> subsystem w' = service \<and>
      reqCnt w' = Some a \<and> reqDuration w' = Some b \<and> reqSize w' = Some c \<and> resSize w' = Some d \<and>
      reg (registry w') = (reg (registry w))(fq_name '''' service ''requests_total'' \<mapsto> (''Counter of requests received into the system.'', reqLabels, CounterVec a),
      fq_name '''' service ''request_duration_seconds'' \<mapsto> (''Bucketed histogram of processing time (s) of requests.'', reqLabels, HistogramVec b),
      fq_name '''' service ''request_size_bytes'' \<mapsto> (''Bucketed histogram of the HTTP request sizes in bytes.'', reqLabels, HistogramVec c),
      fq_name '''' service ''response_size_bytes'' \<mapsto> (''Bucketed histogram of the HTTP response sizes in bytes.'', reqLabels, HistogramVec d)) \<and>
      (\<forall>opts2 st2. \<exists>st3. Recorder env L uni order service opts2 w' st2 = Ret (recorder_handler env L uni order, w', st3) \<and>
        own st3 = own st2))) \<and>
    (ErrorLevel \<le> lg_Level (own st) \<and> (\<not> (service = '''' \<or> valid_metric_name service) \<or>
       (\<exists>h ls c'. reg (registry w) (fq_name '''' service ''requests_total'') = Some (h, ls, c') \<and>
          (h \<noteq> ''Counter of requests received into the system.'' \<or> set ls \<noteq> set reqLabels))) \<longrightarrow>
     panics (Recorder env L uni order service opts w st))"
proof (intro conjI impI)
  assume ok: "(service = '''' \<or> valid_metric_name service) \<and> (\<forall>n \<in> set request_metrics. reg (registry w) (fq_name '''' service n) = None)"
  obtain p st' where run: "registerMetrics env L service opts w st =
      Ret (\<lparr>subsystem = service, reqCnt = Some a, reqDuration = Some b, reqSize = Some c, resSize = Some d, registry = p\<rparr>, st')"
    "own st' = own st" and reg: "reg p = (reg (registry w))(fq_name '''' service ''requests_total'' \<mapsto> (''Counter of requests received into the system.'', reqLabels, CounterVec a),
      fq_name '''' service ''request_duration_seconds'' \<mapsto> (''Bucketed histogram of processing time (s) of requests.'', reqLabels, HistogramVec b),
      fq_name '''' service ''request_size_bytes'' \<mapsto> (''Bucketed histogram of the HTTP request sizes in bytes.'', reqLabels, HistogramVec c),
      fq_name '''' service ''response_size_bytes'' \<mapsto> (''Bucketed histogram of the HTTP response sizes in bytes.'', reqLabels, HistogramVec d))"
    using registerMetrics_fresh [OF assms(1,2) conjunct1 [OF ok] conjunct2 [OF ok] assms(3)] by blast
  let ?w = "\<lparr>subsystem = service, reqCnt = Some a, reqDuration = Some b, reqSize = Some c, resSize = Some d, registry = p\<rparr>"
  have "\<exists>st3. registerMetrics env L service opts2 ?w st2 = Ret (?w, st3) \<and> own st3 = own st2" for opts2 st2
    by (rule registerMetrics_again [OF assms(1,2) conjunct1 [OF ok] refl]) (simp_all add: reg fq_name_inj)
  then have "\<forall>opts2 st2. \<exists>st3. Recorder env L uni order service opts2 ?w st2 = Ret (recorder_handler env L uni order, ?w, st3) \<and>
      own st3 = own st2"
    unfolding Recorder_def by (metis go_bind.simps(1) prod.case)
  then show "\<exists>w' st'. Recorder env L uni order service opts w st = Ret (recorder_handler env L uni order, w', st') \<and>
      own st' = own st \<and> subsystem w' = service \<and>
      reqCnt w' = Some a \<and> reqDuration w' = Some b \<and> reqSize w' = Some c \<and> resSize w' = Some d \<and>
      reg (registry w') = (reg (registry w))(fq_name '''' service ''requests_total'' \<mapsto> (''Counter of requests received into the system.'', reqLabels, CounterVec a),
      fq_name '''' service ''request_duration_seconds'' \<mapsto> (''Bucketed histogram of processing time (s) of requests.'', reqLabels, HistogramVec b),
      fq_name '''' service ''request_size_bytes'' \<mapsto> (''Bucketed histogram of the HTTP request sizes in bytes.'', reqLabels, HistogramVec c),
      fq_name '''' service ''response_size_bytes'' \<mapsto> (''Bucketed histogram of the HTTP response sizes in bytes.'', reqLabels, HistogramVec d)) \<and>
      (\<forall>opts2 st2. \<exists>st3. Recorder env L uni order service opts2 w' st2 = Ret (recorder_handler env L uni order, w', st3) \<and>
        own st3 = own st2)"
    using run reg by (intro exI [of _ ?w] exI [of _ st']) (simp add: Recorder_def)
next
  assume "ErrorLevel \<le> lg_Level (own st) \<and> (\<not> (service = '''' \<or> valid_metric_name service) \<or>
       (\<exists>h ls c'. reg (registry w) (fq_name '''' service ''requests_total'') = Some (h, ls, c') \<and>
          (h \<noteq> ''Counter of requests received into the system.'' \<or> set ls \<noteq> set reqLabels)))"
  with registerMetrics_refused [OF assms(2)] have "panics (registerMetrics env L service opts w st)" by blast
  then show "panics (Recorder env L uni order service opts w st)"
    unfolding Recorder_def by (cases "registerMetrics env L service opts w st") simp_all
qed

theorem register_metrics_spec_witness:
  "(\<exists>w' st'. Recorder (ex_env None) plain_prom (\<lambda>s. s) (\<lambda>h. []) ''auth'' [WithRequestSizeBucket [10, 20]] no_metrics (ex_logger InfoLevel) =
      Ret (recorder_handler (ex_env None) plain_prom (\<lambda>s. s) (\<lambda>h. []), w', st') \<and> subsystem w' = ''auth'' \<and> reqCnt w' \<noteq> None) \<and>
   panics (Recorder (ex_env None) plain_prom (\<lambda>s. s) (\<lambda>h. []) ''fabric8-auth'' [] no_metrics (ex_logger InfoLevel))"
proof
  have env: "good_caller (env_caller (ex_env None))" by (simp add: ex_env_def good_caller_def)
  obtain a b c d where n: "new_metrics plain_prom ''auth'' [WithRequestSizeBucket [10, 20]] = (a, b, c, d)"
    using prod_cases4 by blast
  have "valid_metric_name ''auth''" by code_simp
  moreover have "\<forall>n \<in> set request_metrics. pr_collectors (registry no_metrics) (fq_name '''' ''auth'' n) = None"
    by (simp add: no_metrics_def empty_registry_def)
  ultimately have "\<exists>w' st'. Recorder (ex_env None) plain_prom (\<lambda>s. s) (\<lambda>h. []) ''auth'' [WithRequestSizeBucket [10, 20]] no_metrics (ex_logger InfoLevel) =
      Ret (recorder_handler (ex_env None) plain_prom (\<lambda>s. s) (\<lambda>h. []), w', st') \<and> subsystem w' = ''auth'' \<and> reqCnt w' = Some a"
    using register_metrics_spec [OF env plain_prom_ok(2) n, THEN conjunct1] by blast
  then show "\<exists>w' st'. Recorder (ex_env None) plain_prom (\<lambda>s. s) (\<lambda>h. []) ''auth'' [WithRequestSizeBucket [10, 20]] no_metrics (ex_logger InfoLevel) =
      Ret (recorder_handler (ex_env None) plain_prom (\<lambda>s. s) (\<lambda>h. []), w', st') \<and> subsystem w' = ''auth'' \<and> reqCnt w' \<noteq> None"
    by (metis option.distinct(1))
  obtain a b c d where n: "new_metrics plain_prom ''fabric8-auth'' [] = (a, b, c, d)" using prod_cases4 by blast
  have "\<not> (''fabric8-auth'' = '''' \<or> valid_metric_name ''fabric8-auth'')" by code_simp
  moreover have "ErrorLevel \<le> lg_Level (own (ex_logger InfoLevel))" by (simp add: ex_logger_def less_eq_level_def)
  ultimately show "panics (Recorder (ex_env None) plain_prom (\<lambda>s. s) (\<lambda>h. []) ''fabric8-auth'' [] no_metrics (ex_logger InfoLevel))"
    using register_metrics_spec [OF env plain_prom_ok(2) n, THEN conjunct2] by blast
qed

text \<open>A request of a space controller, answered with 204.\<close>

definition metered_request :: http_request where
  "metered_request = \<lparr>req_Method = ''GET'', req_Host = ''h'', req_URL = Some empty_url, req_Header = Map.empty,
     req_RemoteAddr = '''', req_ContentLength = 20, req_Params = Map.empty, req_Payload = Other_Payload None,
     req_Proto = ''HTTP/1.1''\<rparr>"

definition metered_context :: "nat plain_context" where
  "metered_context = background\<lparr>pc_request := Some (request_data.truncate metered_request), pc_response := True,
     pc_controller := ''SpaceController''\<rparr>"

definition four_metrics :: "(plain_vec, plain_registry) metrics" where
  "four_metrics =
     \<lparr>subsystem = ''s'', reqCnt = Some (metric_named ''s'' ''c'' '''', reqLabels), reqDuration = Some (metric_named ''s'' ''d'' '''', reqLabels),
      reqSize = Some (metric_named ''s'' ''q'' '''', reqLabels), resSize = Some (metric_named ''s'' ''r'' '''', reqLabels), registry = empty_registry\<rparr>"

theorem recorder_spec_witness:
  "\<exists>w2 st2. recorder_handler (ex_env None) plain_prom (\<lambda>s. s) (\<lambda>h. []) (1, 5)
      (\<lambda>c r p w s. Ret (None, p\<lparr>rp_Status := 204\<rparr>, w, s)) metered_context metered_request
      \<lparr>rp_Status = 0, rp_Length = 0, rp_ErrorCode = '''', rp_Header = Map.empty\<rparr> four_metrics (ex_logger InfoLevel) =
      Ret (None, \<lparr>rp_Status = 204, rp_Length = 0, rp_ErrorCode = '''', rp_Header = Map.empty\<rparr>, w2, st2) \<and>
    pr_counts (registry w2) ((metric_named ''s'' ''c'' '''', reqLabels), [''get'', ''space'', ''2xx'']) = 1"
proof -
  let ?resp = "\<lparr>rp_Status = 0, rp_Length = 0, rp_ErrorCode = '''', rp_Header = Map.empty\<rparr>"
  let ?h = "\<lambda>c r p w s. Ret (None, p\<lparr>rp_Status := 204\<rparr>, w, s)"
  have v: "methodVal (\<lambda>s. s) ''GET'' = ''get''" "entityVal (\<lambda>s. s) ''SpaceController'' = ''space''" "codeVal 204 = ''2xx''"
    by code_simp+
  have "url_String empty_url = ''''" by code_simp
  then have x: "exact_request_size metered_request = 32"
    by (simp add: exact_request_size_def metered_request_def header_bytes_def)
  have env: "good_caller (env_caller (ex_env None))" "readable_identity (env_G (ex_env None)) metered_context"
    "ContextRequest (env_G (ex_env None)) metered_context = Some (request_data.truncate metered_request)"
    "ContextHasResponse (env_G (ex_env None)) metered_context" "ContextController (env_G (ex_env None)) metered_context = ''SpaceController''"
    by (simp_all add: ex_env_def good_caller_def plain_goa_def metered_context_def background_def readable_identity_def)
  have req: "ranges_over ((\<lambda>h. []) (req_Header metered_request)) (req_Header metered_request)"
    "req_Method (request_data.truncate metered_request) = ''GET''"
    by (simp_all add: metered_request_def ranges_over_def request_data.truncate_def)
  have h: "?h metered_context metered_request ?resp four_metrics (ex_logger InfoLevel) =
      Ret (None, ?resp\<lparr>rp_Status := 204\<rparr>, four_metrics, ex_logger InfoLevel)" by simp
  have m: "reqCnt four_metrics \<noteq> None" "reqDuration four_metrics \<noteq> None" "reqSize four_metrics \<noteq> None" "resSize four_metrics \<noteq> None"
    by (simp_all add: four_metrics_def)
  have bounds: "0 \<le> exact_request_size metered_request" "exact_request_size metered_request < 2 ^ 64"
    by (simp_all add: x)
  from recorder_spec [where h = ?h and order = "\<lambda>h. []" and ctx = metered_context and req = metered_request and resp = ?resp
      and w = four_metrics and st = "ex_logger InfoLevel" and uni = "\<lambda>s. s" and startTime = 1 and now = 5,
      OF env(1-4) plain_prom_ok(1) req(1) bounds h m]
  show ?thesis
    by (auto simp: Let_def req(2) env(5) v four_metrics_def empty_registry_def)
qed

end
