(* ===== verification/Sentry.thy ===== *)
theory Sentry
  imports Context "HOL-Library.Multiset"
begin

section \<open>Error reports: \<open>sentry/sentry.go\<close>\<close>

text \<open>
  A Sentry client owns a goroutine that executes, one after the other, the closures other goroutines
  send it over an unbuffered channel. The program is a state machine: the state holds the clients ever
  made (a pointer to one is its index) and the package's current client; the steps are the calls and
  what the scheduler does with blocked senders and with the loops. An unbuffered channel is the
  senders blocked on it and whether it was closed. The \<open>raven\<close> library is the parameter \<open>raven_lib\<close>,
  with a client of type \<open>'r\<close> and users of type \<open>'u\<close>.
\<close>

subsection \<open>Clients\<close>

type_synonym tags = "string \<rightharpoonup> string"

record ('u, 'r) raven_lib =
  raven_New :: "string \<Rightarrow> goerror + 'r"
  raven_SetRelease :: "string \<Rightarrow> 'r \<Rightarrow> 'r"
  raven_SetEnvironment :: "string \<Rightarrow> 'r \<Rightarrow> 'r"
  raven_SetUserContext :: "'u \<Rightarrow> 'r \<Rightarrow> 'r"
  raven_CaptureError :: "goerror option \<Rightarrow> tags \<Rightarrow> 'r \<Rightarrow> 'r"
  raven_ClearContext :: "'r \<Rightarrow> 'r"

text \<open>The closure \<open>CaptureError\<close> sends: the variables it has captured.\<close>

record 'u report_op =
  op_user :: "'u option"
  op_reqID :: string
  op_err :: "goerror option"

text \<open>Where a client's goroutine is: waiting in \<open>range\<close>, about to execute what it received, or ended.\<close>

datatype 'u loop_state = Waiting | Holding "'u report_op" | Ended

record ('c, 'u, 'r) client =
  cl_c :: 'r
  cl_closed :: bool
  cl_blocked :: "(nat \<times> 'u report_op) list"
  cl_userInfo :: "('c option \<Rightarrow> 'u option \<times> goerror option) option"
  cl_loop :: "'u loop_state"

type_synonym ('c, 'u, 'r) sentry_option = "('c, 'u, 'r) client \<Rightarrow> ('c, 'u, 'r) client"

definition WithUser :: "('c option \<Rightarrow> 'u option \<times> goerror option) \<Rightarrow> ('c, 'u, 'r) sentry_option" where
  "WithUser userInfo c = c\<lparr>cl_userInfo := Some userInfo\<rparr>"

definition WithRelease :: "('u, 'r) raven_lib \<Rightarrow> string \<Rightarrow> ('c, 'u, 'r) sentry_option" where
  "WithRelease L release c = c\<lparr>cl_c := raven_SetRelease L release (cl_c c)\<rparr>"

definition WithEnvironment :: "('u, 'r) raven_lib \<Rightarrow> string \<Rightarrow> ('c, 'u, 'r) sentry_option" where
  "WithEnvironment L env c = c\<lparr>cl_c := raven_SetEnvironment L env (cl_c c)\<rparr>"

record ('c, 'u, 'r) sentry_state =
  clients :: "('c, 'u, 'r) client list"
  sentryClient :: "nat option"

definition Sentry :: "('c, 'u, 'r) sentry_state \<Rightarrow> nat option" where
  "Sentry s = sentryClient s"

text \<open>\<open>getenv\<close> is the value of \<open>SENTRY_DSN\<close>; the loop is started last and waits.\<close>

definition InitializeSentryClient :: "('u, 'r) raven_lib \<Rightarrow> string \<Rightarrow> string option \<Rightarrow> ('c, 'u, 'r) sentry_option list
    \<Rightarrow> ('c, 'u, 'r) sentry_state \<Rightarrow> goerror option \<times> ('c, 'u, 'r) sentry_state" where
  "InitializeSentryClient L getenv sentryDSN options s =
     (let dsn = (case sentryDSN of Some d \<Rightarrow> d | None \<Rightarrow> getenv) in
      case raven_New L dsn of
        Inl err \<Rightarrow> (Some err, s)
      | Inr c \<Rightarrow>
          (let new = \<lparr>cl_c = c, cl_closed = False, cl_blocked = [], cl_userInfo = None, cl_loop = Waiting\<rparr>;
               client = foldl (\<lambda>cl opt. opt cl) new options
           in (None, s\<lparr>clients := clients s @ [client], sentryClient := Some (length (clients s))\<rparr>)))"

subsection \<open>Operations\<close>

definition update_client :: "nat \<Rightarrow> (('c, 'u, 'r) client \<Rightarrow> ('c, 'u, 'r) client) \<Rightarrow> ('c, 'u, 'r) sentry_state \<Rightarrow> ('c, 'u, 'r) sentry_state" where
  "update_client i f s = s\<lparr>clients := (clients s)[i := f (clients s ! i)]\<rparr>"

text \<open>What \<open>CaptureError\<close> does before it sends; the error of the user lookup is ignored.\<close>

definition captured :: "('c, 'm) goa_lib \<Rightarrow> ('c, 'u, 'r) client \<Rightarrow> 'c option \<Rightarrow> goerror option \<Rightarrow> 'u report_op" where
  "captured G c ctx err =
     \<lparr>op_user = (case cl_userInfo c of None \<Rightarrow> None | Some f \<Rightarrow> fst (f ctx)),
      op_reqID = ExtractRequestID G ctx, op_err = err\<rparr>"

text \<open>The call up to the point where thread \<open>t\<close> blocks on the channel; on a nil client it returns.\<close>

definition CaptureError :: "('c, 'm) goa_lib \<Rightarrow> nat \<Rightarrow> nat option \<Rightarrow> 'c option \<Rightarrow> goerror option
    \<Rightarrow> ('c, 'u, 'r) sentry_state \<Rightarrow> ('c, 'u, 'r) sentry_state" where
  "CaptureError G t c ctx err s =
     (case c of None \<Rightarrow> s
      | Some i \<Rightarrow> update_client i (\<lambda>cl. cl\<lparr>cl_blocked := cl_blocked cl @ [(t, captured G cl ctx err)]\<rparr>) s)"

definition additionalContext :: "'u report_op \<Rightarrow> tags" where
  "additionalContext op = (if op_reqID op \<noteq> '''' then [''req_ID'' \<mapsto> op_reqID op] else Map.empty)"

definition run_op :: "('u, 'r) raven_lib \<Rightarrow> 'u report_op \<Rightarrow> 'r \<Rightarrow> 'r" where
  "run_op L op r =
     (let r1 = (case op_user op of None \<Rightarrow> r | Some user \<Rightarrow> raven_SetUserContext L user r);
          r2 = raven_CaptureError L (op_err op) (additionalContext op) r1
      in raven_ClearContext L r2)"

text \<open>The loop: it receives from a blocked sender, which then returns, or ends on a closed channel.\<close>

definition receive :: "nat \<times> 'u report_op \<Rightarrow> ('c, 'u, 'r) client \<Rightarrow> ('c, 'u, 'r) client" where
  "receive m c = c\<lparr>cl_blocked := remove1 m (cl_blocked c), cl_loop := Holding (snd m)\<rparr>"

definition execute :: "('u, 'r) raven_lib \<Rightarrow> 'u report_op \<Rightarrow> ('c, 'u, 'r) client \<Rightarrow> ('c, 'u, 'r) client" where
  "execute L op c = c\<lparr>cl_c := run_op L op (cl_c c), cl_loop := Waiting\<rparr>"

subsection \<open>Steps\<close>

text \<open>
  The events name the thread \<open>t\<close> and the client \<open>i\<close>; a call also the arguments of \<open>CaptureError\<close>. A sender that is blocked when the channel is closed,
  or that sends on a closed channel, panics (\<open>Crash\<close>); closing twice panics too. The function
  \<open>InitializeSentryClient\<close> returns closes the channel of the client that is current when it is called.
\<close>

datatype ('c, 'u) event =
    Init
  | CallNil nat
  | Call nat nat "'c option" "goerror option" "'u report_op"
  | Accept nat nat "'u report_op"
  | Execute nat
  | End_Loop nat
  | Halt nat
  | Halt_Crash nat
  | Crash nat nat "'u report_op"

inductive sentry_step :: "('u, 'r) raven_lib \<Rightarrow> ('c, 'm) goa_lib \<Rightarrow> ('c, 'u, 'r) sentry_option set
    \<Rightarrow> ('c, 'u, 'r) sentry_state \<Rightarrow> ('c, 'u) event \<Rightarrow> ('c, 'u, 'r) sentry_state \<Rightarrow> bool"
  for L G Opts where
  init: "InitializeSentryClient L getenv dsn opts s = (None, s') \<Longrightarrow> set opts \<subseteq> Opts \<Longrightarrow> sentry_step L G Opts s Init s'"
| call_nil: "sentry_step L G Opts s (CallNil t) (CaptureError G t None ctx err s)"
| call: "i < length (clients s) \<Longrightarrow> op = captured G (clients s ! i) ctx err \<Longrightarrow>
    sentry_step L G Opts s (Call t i ctx err op) (CaptureError G t (Some i) ctx err s)"
| accept: "i < length (clients s) \<Longrightarrow> \<not> cl_closed (clients s ! i) \<Longrightarrow> cl_loop (clients s ! i) = Waiting \<Longrightarrow>
    (t, op) \<in> set (cl_blocked (clients s ! i)) \<Longrightarrow>
    sentry_step L G Opts s (Accept t i op) (update_client i (receive (t, op)) s)"
| execute: "i < length (clients s) \<Longrightarrow> cl_loop (clients s ! i) = Holding op \<Longrightarrow>
    sentry_step L G Opts s (Execute i) (update_client i (execute L op) s)"
| end_loop: "i < length (clients s) \<Longrightarrow> cl_closed (clients s ! i) \<Longrightarrow> cl_loop (clients s ! i) = Waiting \<Longrightarrow>
    sentry_step L G Opts s (End_Loop i) (update_client i (\<lambda>c. c\<lparr>cl_loop := Ended\<rparr>) s)"
| halt: "Sentry s = Some i \<Longrightarrow> \<not> cl_closed (clients s ! i) \<Longrightarrow>
    sentry_step L G Opts s (Halt t) (update_client i (\<lambda>c. c\<lparr>cl_closed := True\<rparr>) s)"
| halt_crash: "Sentry s = Some i \<Longrightarrow> cl_closed (clients s ! i) \<Longrightarrow> sentry_step L G Opts s (Halt_Crash t) s"
| crash: "i < length (clients s) \<Longrightarrow> cl_closed (clients s ! i) \<Longrightarrow> (t, op) \<in> set (cl_blocked (clients s ! i)) \<Longrightarrow>
    sentry_step L G Opts s (Crash t i op) (update_client i (\<lambda>c. c\<lparr>cl_blocked := remove1 (t, op) (cl_blocked c)\<rparr>) s)"

inductive_cases sentry_stepE: "sentry_step L G Opts s e s'"

inductive sentry_run :: "('u, 'r) raven_lib \<Rightarrow> ('c, 'm) goa_lib \<Rightarrow> ('c, 'u, 'r) sentry_option set
    \<Rightarrow> ('c, 'u, 'r) sentry_state \<Rightarrow> ('c, 'u) event list \<Rightarrow> ('c, 'u, 'r) sentry_state \<Rightarrow> bool"
  for L G Opts s where
  run_Nil: "sentry_run L G Opts s [] s"
| run_snoc: "sentry_run L G Opts s es s1 \<Longrightarrow> sentry_step L G Opts s1 e s2 \<Longrightarrow> sentry_run L G Opts s (es @ [e]) s2"

definition no_clients :: "('c, 'u, 'r) sentry_state" where
  "no_clients = \<lparr>clients = [], sentryClient = None\<rparr>"

subsection \<open>What a run has done\<close>

definition called :: "nat \<Rightarrow> ('c, 'u) event list \<Rightarrow> (nat \<times> 'u report_op) list" where
  "called i es = concat (map (\<lambda>e. case e of Call t j _ _ op \<Rightarrow> if j = i then [(t, op)] else [] | _ \<Rightarrow> []) es)"

definition accepted :: "nat \<Rightarrow> ('c, 'u) event list \<Rightarrow> (nat \<times> 'u report_op) list" where
  "accepted i es = concat (map (\<lambda>e. case e of Accept t j op \<Rightarrow> if j = i then [(t, op)] else [] | _ \<Rightarrow> []) es)"

definition crashed :: "nat \<Rightarrow> ('c, 'u) event list \<Rightarrow> (nat \<times> 'u report_op) list" where
  "crashed i es = concat (map (\<lambda>e. case e of Crash t j op \<Rightarrow> if j = i then [(t, op)] else [] | _ \<Rightarrow> []) es)"

lemma history_Nil [simp]: "called i [] = []" "accepted i [] = []" "crashed i [] = []"
  by (simp_all add: called_def accepted_def crashed_def)

lemma history_snoc [simp]:
  "called i (es @ [e]) = called i es @ (case e of Call t j _ _ op \<Rightarrow> if j = i then [(t, op)] else [] | _ \<Rightarrow> [])"
  "accepted i (es @ [e]) = accepted i es @ (case e of Accept t j op \<Rightarrow> if j = i then [(t, op)] else [] | _ \<Rightarrow> [])"
  "crashed i (es @ [e]) = crashed i es @ (case e of Crash t j op \<Rightarrow> if j = i then [(t, op)] else [] | _ \<Rightarrow> [])"
  by (simp_all add: called_def accepted_def crashed_def)

text \<open>What the library documents: \<open>sent\<close> reads the reports a client has taken on, each with the user of the
  context at that moment, the tags and the error; a nil error is not reported.\<close>

definition raven_ok :: "('u, 'r) raven_lib \<Rightarrow> ('r \<Rightarrow> 'u option) \<Rightarrow> ('r \<Rightarrow> ('u option \<times> tags \<times> goerror) list) \<Rightarrow> bool" where
  "raven_ok L usr sent \<longleftrightarrow>
     (\<forall>dsn r. raven_New L dsn = Inr r \<longrightarrow> usr r = None \<and> sent r = []) \<and>
     (\<forall>s r. usr (raven_SetRelease L s r) = usr r \<and> sent (raven_SetRelease L s r) = sent r) \<and>
     (\<forall>s r. usr (raven_SetEnvironment L s r) = usr r \<and> sent (raven_SetEnvironment L s r) = sent r) \<and>
     (\<forall>u r. usr (raven_SetUserContext L u r) = Some u \<and> sent (raven_SetUserContext L u r) = sent r) \<and>
     (\<forall>e t r. usr (raven_CaptureError L e t r) = usr r \<and>
        sent (raven_CaptureError L e t r) = sent r @ (case e of None \<Rightarrow> [] | Some x \<Rightarrow> [(usr r, t, x)])) \<and>
     (\<forall>r. usr (raven_ClearContext L r) = None \<and> sent (raven_ClearContext L r) = sent r)"

definition report_of :: "'u report_op \<Rightarrow> ('u option \<times> tags \<times> goerror) list" where
  "report_of op = (case op_err op of None \<Rightarrow> []
     | Some e \<Rightarrow> [(op_user op, (\<lambda>k. if k = ''req_ID'' \<and> op_reqID op \<noteq> '''' then Some (op_reqID op) else None), e)])"

lemma run_op_sent:
  assumes "raven_ok L usr sent" and "usr r = None"
  shows "usr (run_op L op r) = None" "sent (run_op L op r) = sent r @ report_of op"
  using assms by (auto simp: raven_ok_def run_op_def report_of_def additionalContext_def Let_def fun_eq_iff split: option.split)

definition standard_options :: "('u, 'r) raven_lib \<Rightarrow> ('c, 'u, 'r) sentry_option set" where
  "standard_options L = range WithUser \<union> range (WithRelease L) \<union> range (WithEnvironment L)"


subsection \<open>The invariant\<close>

definition pending :: "'u loop_state \<Rightarrow> ('u option \<times> tags \<times> goerror) list" where
  "pending l = (case l of Holding op \<Rightarrow> report_of op | _ \<Rightarrow> [])"

lemma pending_simps [simp]: "pending Waiting = []" "pending Ended = []" "pending (Holding op) = report_of op"
  by (simp_all add: pending_def)

definition client_inv :: "('r \<Rightarrow> 'u option) \<Rightarrow> ('r \<Rightarrow> ('u option \<times> tags \<times> goerror) list) \<Rightarrow> ('c, 'u) event list \<Rightarrow> nat
    \<Rightarrow> ('c, 'u, 'r) client \<Rightarrow> bool" where
  "client_inv usr sent es i c \<longleftrightarrow>
     usr (cl_c c) = None \<and>
     sent (cl_c c) @ pending (cl_loop c) = concat (map (report_of \<circ> snd) (accepted i es)) \<and>
     mset (called i es) = mset (accepted i es) + mset (cl_blocked c) + mset (crashed i es) \<and>
     (cl_loop c = Ended \<longrightarrow> cl_closed c) \<and> (crashed i es \<noteq> [] \<longrightarrow> cl_closed c) \<and>
     (cl_closed c \<longrightarrow> (\<exists>t. Halt t \<in> set es))"

definition sentry_inv :: "('r \<Rightarrow> 'u option) \<Rightarrow> ('r \<Rightarrow> ('u option \<times> tags \<times> goerror) list) \<Rightarrow> ('c, 'u) event list
    \<Rightarrow> ('c, 'u, 'r) sentry_state \<Rightarrow> bool" where
  "sentry_inv usr sent es s \<longleftrightarrow>
     (\<forall>i < length (clients s). client_inv usr sent es i (clients s ! i)) \<and>
     (\<forall>i \<ge> length (clients s). called i es = [] \<and> accepted i es = [] \<and> crashed i es = []) \<and>
     (\<forall>i. sentryClient s = Some i \<longrightarrow> i < length (clients s))"

lemmas client_history = client_inv_def called_def accepted_def crashed_def

text \<open>A step on one client keeps the invariant when that client's part holds again and the histories of
  all others stay.\<close>

lemma sentry_inv_update:
  assumes "sentry_inv usr sent es s" and "i < length (clients s)"
    and "client_inv usr sent es i (clients s ! i) \<Longrightarrow> client_inv usr sent (es @ [e]) i (f (clients s ! i))"
    and "\<And>j. j \<noteq> i \<Longrightarrow> called j [e] = [] \<and> accepted j [e] = [] \<and> crashed j [e] = []"
  shows "sentry_inv usr sent (es @ [e]) (update_client i f s)"
proof -
  have app: "called j (es @ [e]) = called j es @ called j [e]" "accepted j (es @ [e]) = accepted j es @ accepted j [e]"
    "crashed j (es @ [e]) = crashed j es @ crashed j [e]" for j
    by (simp_all add: called_def accepted_def crashed_def)
  have "client_inv usr sent (es @ [e]) j ((clients s)[i := f (clients s ! i)] ! j)" if "j < length (clients s)" for j
  proof (cases "j = i")
    case True
    with assms(1-3) show ?thesis by (simp add: sentry_inv_def)
  next
    case False
    have "client_inv usr sent es j (clients s ! j)" using assms(1) that by (simp add: sentry_inv_def)
    with assms(4) [OF False] False show ?thesis unfolding client_inv_def app by auto
  qed
  moreover have "called j (es @ [e]) = [] \<and> accepted j (es @ [e]) = [] \<and> crashed j (es @ [e]) = []"
    if "length (clients s) \<le> j" for j
  proof -
    from that assms(2) have "j \<noteq> i" by auto
    with assms(1,4) that show ?thesis unfolding app sentry_inv_def by blast
  qed
  ultimately show ?thesis using assms(1) unfolding sentry_inv_def update_client_def by simp
qed

lemma sentry_inv_quiet:
  assumes "sentry_inv usr sent es s" and "\<And>j. called j [e] = [] \<and> accepted j [e] = [] \<and> crashed j [e] = []"
  shows "sentry_inv usr sent (es @ [e]) s"
proof -
  have app: "called j (es @ [e]) = called j es" "accepted j (es @ [e]) = accepted j es" "crashed j (es @ [e]) = crashed j es" for j
    using assms(2) by (simp_all add: called_def accepted_def crashed_def)
  show ?thesis using assms(1) unfolding sentry_inv_def client_inv_def app by auto
qed

text \<open>Options that leave the channel and the loop alone, and the context of a new client.\<close>

definition harmless :: "('r \<Rightarrow> 'u option) \<Rightarrow> ('r \<Rightarrow> ('u option \<times> tags \<times> goerror) list) \<Rightarrow> ('c, 'u, 'r) sentry_option \<Rightarrow> bool" where
  "harmless usr sent opt \<longleftrightarrow>
     (\<forall>c. usr (cl_c (opt c)) = usr (cl_c c) \<and> sent (cl_c (opt c)) = sent (cl_c c) \<and> cl_closed (opt c) = cl_closed c \<and>
          cl_blocked (opt c) = cl_blocked c \<and> cl_loop (opt c) = cl_loop c)"

lemma standard_options_harmless: "raven_ok L usr sent \<Longrightarrow> opt \<in> standard_options L \<Longrightarrow> harmless usr sent opt"
  by (auto simp: standard_options_def harmless_def WithUser_def WithRelease_def WithEnvironment_def raven_ok_def)

lemma foldl_harmless:
  "\<forall>opt \<in> set opts. harmless usr sent opt \<Longrightarrow> harmless usr sent (\<lambda>c. foldl (\<lambda>cl opt. opt cl) c opts)"
  by (induction opts rule: rev_induct) (simp_all add: harmless_def)

lemma Initialize_new_client:
  assumes "raven_ok L usr sent" and "set opts \<subseteq> standard_options L"
    and "InitializeSentryClient L getenv dsn opts s = (None, s')"
  shows "\<exists>c. s' = s\<lparr>clients := clients s @ [c], sentryClient := Some (length (clients s))\<rparr> \<and> usr (cl_c c) = None \<and> sent (cl_c c) = [] \<and>
    \<not> cl_closed c \<and> cl_blocked c = [] \<and> cl_loop c = Waiting"
proof -
  from assms(3) obtain d r where new: "raven_New L d = Inr r"
    and s': "s' = s\<lparr>clients := clients s @ [foldl (\<lambda>cl opt. opt cl)
        \<lparr>cl_c = r, cl_closed = False, cl_blocked = [], cl_userInfo = None, cl_loop = Waiting\<rparr> opts],
      sentryClient := Some (length (clients s))\<rparr>"
    by (auto simp: InitializeSentryClient_def Let_def split: sum.split_asm)
  let ?new = "\<lparr>cl_c = r, cl_closed = False, cl_blocked = [], cl_userInfo = None, cl_loop = Waiting\<rparr>"
  have "harmless usr sent (\<lambda>c. foldl (\<lambda>cl opt. opt cl) c opts)"
    by (rule foldl_harmless) (use assms(1,2) standard_options_harmless in blast)
  then have h: "usr (cl_c (foldl (\<lambda>cl opt. opt cl) ?new opts)) = usr r" "sent (cl_c (foldl (\<lambda>cl opt. opt cl) ?new opts)) = sent r"
    "\<not> cl_closed (foldl (\<lambda>cl opt. opt cl) ?new opts)" "cl_blocked (foldl (\<lambda>cl opt. opt cl) ?new opts) = []"
    "cl_loop (foldl (\<lambda>cl opt. opt cl) ?new opts) = Waiting"
    by (simp_all add: harmless_def)
  have "usr r = None" "sent r = []" using assms(1) new unfolding raven_ok_def by blast+
  note h [unfolded this]
  then show ?thesis
    by (intro exI [of _ "foldl (\<lambda>cl opt. opt cl) ?new opts"] conjI) (simp_all only: s' not_False_eq_True)
qed

lemma quiet_history [simp]:
  "called j [] = []" "called j [Init] = []" "accepted j [Init] = []" "crashed j [Init] = []"
  by (simp_all add: called_def accepted_def crashed_def)

lemma sentry_step_inv:
  assumes ok: "raven_ok L usr sent" and step: "sentry_step L G (standard_options L) s e s'" and inv: "sentry_inv usr sent es s"
  shows "sentry_inv usr sent (es @ [e]) s'"
  using step
proof cases
  case (init getenv dsn opts)
  with Initialize_new_client [OF ok init(3) init(2)] obtain c
    where s': "s' = s\<lparr>clients := clients s @ [c], sentryClient := Some (length (clients s))\<rparr>"
      and c: "usr (cl_c c) = None" "sent (cl_c c) = []" "\<not> cl_closed c" "cl_blocked c = []" "cl_loop c = Waiting" by blast
  have old: "sentry_inv usr sent (es @ [Init]) s" by (rule sentry_inv_quiet [OF inv]) simp
  have new: "client_inv usr sent (es @ [Init]) (length (clients s)) c"
    using inv c by (simp add: sentry_inv_def client_inv_def)
  show ?thesis
    using old new unfolding s' init(1) sentry_inv_def by (auto simp: nth_append less_Suc_eq)
next
  case (call_nil t ctx err)
  then show ?thesis
    using sentry_inv_quiet [OF inv] by (simp add: CaptureError_def called_def accepted_def crashed_def)
next
  case (call i op ctx err t)
  then show ?thesis
    unfolding call(1,2) CaptureError_def option.case
    by (intro sentry_inv_update [OF inv call(3)]) (auto simp: client_history)
next
  case (accept i t op)
  then show ?thesis
    unfolding accept(1,2) by (intro sentry_inv_update [OF inv accept(3)]) (auto simp: client_history receive_def)
next
  case (execute i op)
  then show ?thesis
    unfolding execute(1,2)
    by (intro sentry_inv_update [OF inv execute(3)]) (auto simp: client_history execute_def run_op_sent [OF ok])
next
  case (end_loop i)
  then show ?thesis
    unfolding end_loop(1,2) by (intro sentry_inv_update [OF inv end_loop(3)]) (auto simp: client_history)
next
  case (halt i t)
  then have "i < length (clients s)" using inv by (simp add: sentry_inv_def Sentry_def)
  with halt show ?thesis
    unfolding halt(1,2) by (intro sentry_inv_update [OF inv]) (auto simp: client_history)
next
  case (halt_crash i t)
  then show ?thesis using sentry_inv_quiet [OF inv] by (simp add: called_def accepted_def crashed_def)
next
  case (crash i t op)
  then show ?thesis
    unfolding crash(1,2) by (intro sentry_inv_update [OF inv crash(3)]) (auto simp: client_history)
qed

lemma sentry_run_inv:
  assumes "raven_ok L usr sent" and "sentry_run L G (standard_options L) no_clients es s"
  shows "sentry_inv usr sent es s"
  using assms(2)
proof (induction rule: sentry_run.induct)
  case run_Nil
  show ?case by (simp add: sentry_inv_def no_clients_def)
next
  case (run_snoc es s1 e s2)
  then show ?case by (metis sentry_step_inv [OF assms(1)])
qed

lemma nth_list_update_other: "i < length xs \<Longrightarrow> xs[j := x] ! i = (if j = i then x else xs ! i)"
  by simp

lemma sentry_step_userInfo:
  assumes "sentry_step L G Opts s e s'" and "i < length (clients s)"
  shows "i < length (clients s') \<and> cl_userInfo (clients s' ! i) = cl_userInfo (clients s ! i)"
  using assms
  by cases (auto simp: InitializeSentryClient_def CaptureError_def update_client_def receive_def execute_def nth_append
      nth_list_update_other Let_def split: sum.split_asm)

subsection \<open>The loop\<close>

fun loop_event :: "nat \<Rightarrow> ('c, 'u) event \<Rightarrow> bool" where
  "loop_event i (Accept t j op) = (j = i)"
| "loop_event i (Execute j) = (j = i)"
| "loop_event i (End_Loop j) = (j = i)"
| "loop_event i _ = False"

text \<open>
  Go's runtime lets the senders blocked on a channel wait in a queue: a receiver takes the one that has waited longest. The
  steps allow any order, which is all that the safety properties need; here are the runs in which client
  \<open>i\<close> is served that way.
\<close>

inductive fifo_run :: "('u, 'r) raven_lib \<Rightarrow> ('c, 'm) goa_lib \<Rightarrow> ('c, 'u, 'r) sentry_option set \<Rightarrow> nat
    \<Rightarrow> ('c, 'u, 'r) sentry_state \<Rightarrow> ('c, 'u) event list \<Rightarrow> ('c, 'u, 'r) sentry_state \<Rightarrow> bool"
  for L G Opts i s where
  fifo_Nil: "fifo_run L G Opts i s [] s"
| fifo_snoc: "fifo_run L G Opts i s es s1 \<Longrightarrow> sentry_step L G Opts s1 e s2 \<Longrightarrow>
    (\<And>t op. e = Accept t i op \<Longrightarrow> (t, op) = hd (cl_blocked (clients s1 ! i))) \<Longrightarrow> fifo_run L G Opts i s (es @ [e]) s2"

lemma fifo_run_run: "fifo_run L G Opts i s es s' \<Longrightarrow> sentry_run L G Opts s es s'"
  by (induction rule: fifo_run.induct) (auto intro: sentry_run.intros)

definition holding :: "('c, 'u, 'r) client \<Rightarrow> nat" where
  "holding c = (case cl_loop c of Holding op \<Rightarrow> 1 | _ \<Rightarrow> 0)"

lemma one_event_history [simp]:
  "called i [e] = (case e of Call t j _ _ op \<Rightarrow> if j = i then [(t, op)] else [] | _ \<Rightarrow> [])"
  "accepted i [e] = (case e of Accept t j op \<Rightarrow> if j = i then [(t, op)] else [] | _ \<Rightarrow> [])"
  by (simp_all add: called_def accepted_def)

text \<open>One step while the channel stays open: the queue gives up its head and grows at its end, and the loop receives and executes in turn.\<close>

lemma fifo_step:
  assumes step: "sentry_step L G Opts s e s'" and i: "i < length (clients s)" and opn: "\<not> cl_closed (clients s' ! i)"
    and fifo: "\<And>t op. e = Accept t i op \<Longrightarrow> (t, op) = hd (cl_blocked (clients s ! i))"
  shows "\<not> cl_closed (clients s ! i) \<and> i < length (clients s') \<and>
    accepted i [e] @ cl_blocked (clients s' ! i) = cl_blocked (clients s ! i) @ called i [e] \<and>
    (if loop_event i e then 1 else 0) + holding (clients s' ! i) = 2 * length (accepted i [e]) + holding (clients s ! i)"
  using step
proof cases
  case (init getenv dsn opts)
  then show ?thesis using i opn
    by (auto simp: InitializeSentryClient_def nth_append Let_def split: sum.split_asm)
next
  case (accept j t op)
  show ?thesis
  proof (cases "j = i")
    case True
    with accept fifo obtain ms where "cl_blocked (clients s ! i) = (t, op) # ms"
      by (cases "cl_blocked (clients s ! i)") auto
    with accept True i show ?thesis by (simp add: update_client_def receive_def holding_def)
  qed (use accept i opn in \<open>simp add: update_client_def\<close>)
next
  case (execute j op)
  then show ?thesis using i opn
    by (cases "j = i") (simp_all add: update_client_def execute_def holding_def)
qed (use i opn in \<open>auto simp: CaptureError_def update_client_def nth_list_update_other holding_def split: if_splits\<close>)

lemma fifo_run_queue:
  assumes "fifo_run L G Opts i s es s'" and "i < length (clients s)"
  shows "\<not> cl_closed (clients s' ! i) \<Longrightarrow> \<not> cl_closed (clients s ! i) \<and> i < length (clients s') \<and>
    accepted i es @ cl_blocked (clients s' ! i) = cl_blocked (clients s ! i) @ called i es \<and>
    length (filter (loop_event i) es) + holding (clients s' ! i) = 2 * length (accepted i es) + holding (clients s ! i)"
  using assms(1)
proof (induction rule: fifo_run.induct)
  case fifo_Nil
  with assms(2) show ?case by simp
next
  case (fifo_snoc es s1 e s2)
  have i1: "i < length (clients s1)"
    using fifo_run_run [OF fifo_snoc.hyps(1)] assms(2) by (induction rule: sentry_run.induct) (auto dest: sentry_step_userInfo)
  from fifo_step [OF fifo_snoc.hyps(2) i1 fifo_snoc.prems fifo_snoc.hyps(3)]
  have st: "\<not> cl_closed (clients s1 ! i)" "i < length (clients s2)"
    "accepted i [e] @ cl_blocked (clients s2 ! i) = cl_blocked (clients s1 ! i) @ called i [e]"
    "(if loop_event i e then 1 else 0) + holding (clients s2 ! i) = 2 * length (accepted i [e]) + holding (clients s1 ! i)" by blast+
  note ih = fifo_snoc.IH [OF st(1)]
  have app: "called i (es @ [e]) = called i es @ called i [e]" "accepted i (es @ [e]) = accepted i es @ accepted i [e]"
    by (simp_all add: called_def accepted_def)
  have "accepted i (es @ [e]) @ cl_blocked (clients s2 ! i) = accepted i es @ cl_blocked (clients s1 ! i) @ called i [e]"
    unfolding app using st(3) by simp
  also have "\<dots> = cl_blocked (clients s ! i) @ called i (es @ [e])" unfolding app using ih by simp
  finally show ?case using ih st(2,4) unfolding app(2) by (cases "loop_event i e") (simp_all del: one_event_history)
qed

lemma loop_progress:
  assumes "i < length (clients s)" and "\<not> cl_closed (clients s ! i)" and "cl_loop (clients s ! i) \<noteq> Ended"
    and "cl_blocked (clients s ! i) \<noteq> [] \<or> holding (clients s ! i) \<noteq> 0"
  shows "\<exists>e s'. loop_event i e \<and> sentry_step L G Opts s e s' \<and>
    (\<forall>t op. e = Accept t i op \<longrightarrow> (t, op) = hd (cl_blocked (clients s ! i)))"
proof (cases "cl_loop (clients s ! i)")
  case (Holding op)
  with assms(1) have "sentry_step L G Opts s (Execute i) (update_client i (execute L op) s)"
    by (intro sentry_step.execute)
  then show ?thesis by (intro exI [of _ "Execute i"] exI) (auto intro: exI)
next
  case Waiting
  with assms(4) obtain t op ms where q: "cl_blocked (clients s ! i) = (t, op) # ms"
    by (cases "cl_blocked (clients s ! i)") (auto simp: holding_def)
  with Waiting assms(1,2) have "sentry_step L G Opts s (Accept t i op) (update_client i (receive (t, op)) s)"
    by (intro sentry_step.accept) simp_all
  with q show ?thesis by (intro exI [of _ "Accept t i op"] exI [of _ "update_client i (receive (t, op)) s"]) simp
qed (use assms(3) in simp)

lemma sentry_run_trans:
  "sentry_run L G Opts s1 es2 s2 \<Longrightarrow> sentry_run L G Opts s es1 s1 \<Longrightarrow> sentry_run L G Opts s (es1 @ es2) s2"
  by (induction rule: sentry_run.induct) (auto intro: sentry_run.intros simp flip: append_assoc)

subsection \<open>The properties\<close>

text \<open>The closure a call has sent captured the caller's context and error; a client's user lookup never changes.\<close>

definition own_report :: "('c, 'm) goa_lib \<Rightarrow> ('c option \<Rightarrow> 'u option \<times> goerror option) option \<Rightarrow> 'c option \<Rightarrow> goerror option
    \<Rightarrow> 'u report_op \<Rightarrow> bool" where
  "own_report G userInfo ctx err op \<longleftrightarrow>
     op_err op = err \<and> op_reqID op = ExtractRequestID G ctx \<and>
     op_user op = (case userInfo of None \<Rightarrow> None | Some f \<Rightarrow> fst (f ctx))"

lemma calls_capture:
  assumes "sentry_run L G Opts s0 es s"
  shows "Call t i ctx err op \<in> set es \<Longrightarrow> i < length (clients s) \<and> own_report G (cl_userInfo (clients s ! i)) ctx err op"
  using assms
proof (induction rule: sentry_run.induct)
  case (run_snoc es s1 e s2)
  show ?case
  proof (cases "e = Call t i ctx err op")
    case True
    with run_snoc.hyps(2) have "i < length (clients s1)" "op = captured G (clients s1 ! i) ctx err" by (auto elim: sentry_stepE)
    with sentry_step_userInfo [OF run_snoc.hyps(2), of i] show ?thesis by (simp add: own_report_def captured_def)
  next
    case False
    with run_snoc show ?thesis using sentry_step_userInfo [OF run_snoc.hyps(2), of i] by auto
  qed
qed simp

text \<open>C8: Every report is sent on exactly once and under its own name: whatever the scheduler does and however
  many clients are made, the calls of \<open>CaptureError\<close> on a client are the accepted ones, the blocked ones
  and the crashed ones; what the client has sent, with what its loop is holding, is what was accepted,
  in that order, each report with the user that the client's lookup finds for the context of its own call, with the request ID of
  that context as its only tag (none for an empty ID) and with the error it was called with; after each the client's own
  context is without a user.\<close>

theorem sentry_reports:
  assumes "raven_ok L usr sent" and "sentry_run L G (standard_options L) no_clients es s" and "i < length (clients s)"
  shows "mset (called i es) = mset (accepted i es) + mset (cl_blocked (clients s ! i)) + mset (crashed i es) \<and>
    sent (cl_c (clients s ! i)) @ pending (cl_loop (clients s ! i)) = concat (map (report_of \<circ> snd) (accepted i es)) \<and>
    usr (cl_c (clients s ! i)) = None \<and>
    (\<forall>t ctx err op. Call t i ctx err op \<in> set es \<longrightarrow>
       op_err op = err \<and> op_reqID op = ExtractRequestID G ctx \<and>
       op_user op = (case cl_userInfo (clients s ! i) of None \<Rightarrow> None | Some f \<Rightarrow> fst (f ctx)))"
  using sentry_run_inv [OF assms(1,2)] assms(3) calls_capture [OF assms(2)]
  by (auto simp: sentry_inv_def client_inv_def own_report_def)

text \<open>C20: No call panics before the first shutdown: in a run in which the function \<open>InitializeSentryClient\<close>
  returns was not called, no \<open>CaptureError\<close> crashes and every channel is open. A shutdown closes the
  channel of the client that is current at that moment, whichever client its function came with, and
  nothing else.\<close>

theorem sentry_safe_until_halt:
  assumes "raven_ok L usr sent" and "sentry_run L G (standard_options L) no_clients es s" and "\<forall>t. Halt t \<notin> set es"
  shows "(\<forall>t i op. Crash t i op \<notin> set es) \<and> (\<forall>t. Halt_Crash t \<notin> set es) \<and>
    (\<forall>i < length (clients s). \<not> cl_closed (clients s ! i)) \<and>
    (\<forall>t s'. sentry_step L G (standard_options L) s (Halt t) s' \<longrightarrow>
       (\<exists>i < length (clients s). sentryClient s = Some i \<and> cl_closed (clients s' ! i) \<and>
          (\<forall>j. j \<noteq> i \<longrightarrow> clients s' ! j = clients s ! j)))"
proof -
  have quiet: "(\<forall>t. Halt t \<notin> set es) \<longrightarrow> (\<forall>t i op. Crash t i op \<notin> set es) \<and> (\<forall>t. Halt_Crash t \<notin> set es)"
    using assms(2)
  proof (induction rule: sentry_run.induct)
    case run_Nil
    show ?case by simp
  next
    case (run_snoc es s1 e s2)
    have inv: "sentry_inv usr sent es s1" by (rule sentry_run_inv [OF assms(1) run_snoc.hyps(1)])
    show ?case
    proof
      assume no: "\<forall>t. Halt t \<notin> set (es @ [e])"
      then have "\<not> cl_closed (clients s1 ! i)" if "i < length (clients s1)" for i
        using inv that by (auto simp: sentry_inv_def client_inv_def)
      then have "(\<forall>t i op. e \<noteq> Crash t i op) \<and> (\<forall>t. e \<noteq> Halt_Crash t)"
        using run_snoc.hyps(2) inv by (auto elim!: sentry_stepE simp: sentry_inv_def Sentry_def)
      with run_snoc.IH no show "(\<forall>t i op. Crash t i op \<notin> set (es @ [e])) \<and> (\<forall>t. Halt_Crash t \<notin> set (es @ [e]))" by auto
    qed
  qed
  have inv: "sentry_inv usr sent es s" by (rule sentry_run_inv [OF assms(1,2)])
  have "\<exists>i < length (clients s). sentryClient s = Some i \<and> cl_closed (clients s' ! i) \<and> (\<forall>j. j \<noteq> i \<longrightarrow> clients s' ! j = clients s ! j)"
    if "sentry_step L G (standard_options L) s (Halt t) s'" for t s'
    using that inv by (auto elim!: sentry_stepE simp: sentry_inv_def Sentry_def update_client_def)
  with quiet inv assms(3) show ?thesis by (auto simp: sentry_inv_def client_inv_def)
qed


subsection \<open>Refinement of a mailbox\<close>

text \<open>
  What a client promises, without channels, loops and raven: a mailbox, open or closed, with the reports
  waiting at its door and the ones taken in, in order. A report is posted, taken in while the mailbox is
  open, or turned away once it is closed. \<open>Execute\<close> and \<open>End_Loop\<close> are internal.
\<close>

type_synonym 'u mailbox = "bool \<times> (nat \<times> 'u report_op) multiset \<times> ('u option \<times> tags \<times> goerror) list"

inductive mailbox_step :: "'u mailbox list \<Rightarrow> ('c, 'u) event \<Rightarrow> 'u mailbox list \<Rightarrow> bool" where
  mb_new: "mailbox_step bs Init (bs @ [(True, {#}, [])])"
| mb_post: "i < length bs \<Longrightarrow> bs ! i = (o', W, R) \<Longrightarrow> mailbox_step bs (Call t i ctx err op) (bs[i := (o', add_mset (t, op) W, R)])"
| mb_take: "i < length bs \<Longrightarrow> bs ! i = (True, add_mset (t, op) W, R) \<Longrightarrow>
    mailbox_step bs (Accept t i op) (bs[i := (True, W, R @ report_of op)])"
| mb_close: "i < length bs \<Longrightarrow> bs ! i = (True, W, R) \<Longrightarrow> mailbox_step bs (Halt t) (bs[i := (False, W, R)])"
| mb_refuse: "i < length bs \<Longrightarrow> bs ! i = (False, add_mset (t, op) W, R) \<Longrightarrow> mailbox_step bs (Crash t i op) (bs[i := (False, W, R)])"
| mb_nothing: "e \<in> {CallNil t, Halt_Crash t, Execute i, End_Loop i} \<Longrightarrow> mailbox_step bs e bs"

definition mailbox_of :: "('r \<Rightarrow> ('u option \<times> tags \<times> goerror) list) \<Rightarrow> ('c, 'u, 'r) client \<Rightarrow> 'u mailbox" where
  "mailbox_of sent c = (\<not> cl_closed c, mset (cl_blocked c), sent (cl_c c) @ pending (cl_loop c))"

definition mailboxes :: "('r \<Rightarrow> ('u option \<times> tags \<times> goerror) list) \<Rightarrow> ('c, 'u, 'r) sentry_state \<Rightarrow> 'u mailbox list" where
  "mailboxes sent s = map (mailbox_of sent) (clients s)"

lemma mailboxes_update:
  "i < length (clients s) \<Longrightarrow> mailboxes sent (update_client i f s) = (mailboxes sent s)[i := mailbox_of sent (f (clients s ! i))]"
  by (simp add: mailboxes_def update_client_def map_update)

lemma mailboxes_nth: "i < length (clients s) \<Longrightarrow> mailboxes sent s ! i = mailbox_of sent (clients s ! i)"
  by (simp add: mailboxes_def)

lemma mailboxes_same:
  "i < length (clients s) \<Longrightarrow> mailbox_of sent (f (clients s ! i)) = mailbox_of sent (clients s ! i) \<Longrightarrow>
   mailboxes sent (update_client i f s) = mailboxes sent s"
  by (simp add: mailboxes_update) (simp add: mailboxes_def list_update_id flip: nth_map)

lemma sentry_step_refines:
  assumes ok: "raven_ok L usr sent" and step: "sentry_step L G (standard_options L) s e s'" and inv: "sentry_inv usr sent es s"
  shows "mailbox_step (mailboxes sent s) e (mailboxes sent s')"
  using step
proof cases
  case (init getenv dsn opts)
  from Initialize_new_client [OF ok init(3) init(2)] obtain c
    where "s' = s\<lparr>clients := clients s @ [c], sentryClient := Some (length (clients s))\<rparr>"
      and "sent (cl_c c) = []" "\<not> cl_closed c" "cl_blocked c = []" "cl_loop c = Waiting" by blast
  then show ?thesis unfolding init(1) using mb_new [of "mailboxes sent s"] by (simp add: mailboxes_def mailbox_of_def)
next
  case (call_nil t ctx err)
  then show ?thesis using mb_nothing [of e t] by (simp add: CaptureError_def)
next
  case (call i op ctx err t)
  then show ?thesis
    using mb_post [of i "mailboxes sent s" "\<not> cl_closed (clients s ! i)", where t = t and ctx = ctx and err = err and op = op]
    by (simp add: CaptureError_def mailboxes_update mailboxes_nth) (simp add: mailbox_of_def mailboxes_def)
next
  case (accept i t op)
  then have "mset (cl_blocked (clients s ! i)) = add_mset (t, op) (mset (remove1 (t, op) (cl_blocked (clients s ! i))))" by simp
  with accept show ?thesis
    using mb_take [of i "mailboxes sent s" t op "mset (remove1 (t, op) (cl_blocked (clients s ! i)))"]
    by (simp add: mailboxes_update mailboxes_nth) (simp add: mailbox_of_def mailboxes_def receive_def)
next
  case (execute i op)
  have "usr (cl_c (clients s ! i)) = None" using inv execute(3) by (simp add: sentry_inv_def client_inv_def)
  then have "mailboxes sent s' = mailboxes sent s"
    unfolding execute(2) using execute(3,4)
    by (intro mailboxes_same) (simp_all add: mailbox_of_def execute_def run_op_sent [OF ok])
  then show ?thesis unfolding execute(1) by (simp add: mb_nothing)
next
  case (end_loop i)
  then have "mailboxes sent s' = mailboxes sent s"
    by (simp add: mailboxes_same mailbox_of_def)
  then show ?thesis unfolding end_loop(1) by (simp add: mb_nothing)
next
  case (halt i t)
  then have "i < length (clients s)" using inv by (simp add: sentry_inv_def Sentry_def)
  moreover have "mailboxes sent s ! i = (True, W, R) \<Longrightarrow>
      mailbox_step (mailboxes sent s) e ((mailboxes sent s)[i := (False, W, R)])" for W R
    unfolding halt(1) using calculation by (intro mb_close) (simp_all add: mailboxes_def)
  ultimately show ?thesis
    using halt
    by (simp add: mailboxes_update mailboxes_nth) (simp add: mailbox_of_def mailboxes_def)
next
  case (halt_crash i t)
  then show ?thesis by (simp add: mb_nothing)
next
  case (crash i t op)
  then have "mset (cl_blocked (clients s ! i)) = add_mset (t, op) (mset (remove1 (t, op) (cl_blocked (clients s ! i))))" by simp
  with crash show ?thesis
    using mb_refuse [of i "mailboxes sent s" t op "mset (remove1 (t, op) (cl_blocked (clients s ! i)))"]
    by (simp add: mailboxes_update mailboxes_nth) (simp add: mailbox_of_def mailboxes_def)
qed

inductive mailbox_run :: "'u mailbox list \<Rightarrow> ('c, 'u) event list \<Rightarrow> 'u mailbox list \<Rightarrow> bool" for bs where
  mb_run_Nil: "mailbox_run bs [] bs"
| mb_run_snoc: "mailbox_run bs es bs1 \<Longrightarrow> mailbox_step bs1 e bs2 \<Longrightarrow> mailbox_run bs (es @ [e]) bs2"

text \<open>C7: The clients refine mailboxes: every run of the program, whatever the interleaving of callers, loops,
  initialisations and shutdowns, is a run of the mailboxes with the same events, in which each client's
  mailbox has taken in what the client has sent or is about to send; a report is taken in only while
  the mailbox is open, and turned away only once it is closed.\<close>

theorem sentry_refines_mailboxes:
  assumes "raven_ok L usr sent" and "sentry_run L G (standard_options L) no_clients es s"
  shows "mailbox_run [] es (mailboxes sent s)"
  using assms(2)
proof (induction rule: sentry_run.induct)
  case run_Nil
  show ?case using mb_run_Nil by (simp add: mailboxes_def no_clients_def)
next
  case (run_snoc es s1 e s2)
  from run_snoc.IH sentry_step_refines [OF assms(1) run_snoc.hyps(2) sentry_run_inv [OF assms(1) run_snoc.hyps(1)]]
  show ?case by (rule mb_run_snoc)
qed

subsection \<open>A concrete run\<close>

record plain_raven =
  pv_user :: "string option"
  pv_sent :: "(string option \<times> tags \<times> goerror) list"

definition plain_raven_lib :: "(string, plain_raven) raven_lib" where
  "plain_raven_lib =
     \<lparr>raven_New = (\<lambda>dsn. Inr \<lparr>pv_user = None, pv_sent = []\<rparr>), raven_SetRelease = (\<lambda>s r. r), raven_SetEnvironment = (\<lambda>s r. r),
      raven_SetUserContext = (\<lambda>u r. r\<lparr>pv_user := Some u\<rparr>),
      raven_CaptureError = (\<lambda>e t r. case e of None \<Rightarrow> r | Some x \<Rightarrow> r\<lparr>pv_sent := pv_sent r @ [(pv_user r, t, x)]\<rparr>),
      raven_ClearContext = (\<lambda>r. r\<lparr>pv_user := None\<rparr>)\<rparr>"

lemma plain_raven_ok: "raven_ok plain_raven_lib pv_user pv_sent"
  by (simp add: raven_ok_def plain_raven_lib_def split: option.split)

definition ex_ctx :: "nat plain_context" where
  "ex_ctx = background\<lparr>pc_mw_id := ''r1''\<rparr>"

definition ex_op :: "string report_op" where
  "ex_op = \<lparr>op_user = Some ''u'', op_reqID = ''r1'', op_err = Some (std_errors_New ''e'')\<rparr>"

definition ex_client :: "(nat \<times> string report_op) list \<Rightarrow> (nat plain_context, string, plain_raven) client" where
  "ex_client ms = \<lparr>cl_c = \<lparr>pv_user = None, pv_sent = []\<rparr>, cl_closed = False, cl_blocked = ms,
     cl_userInfo = Some (\<lambda>c. (Some ''u'', None)), cl_loop = Waiting\<rparr>"

definition ex_state :: "(nat \<times> string report_op) list \<Rightarrow> (nat plain_context, string, plain_raven) sentry_state" where
  "ex_state ms = \<lparr>clients = [ex_client ms], sentryClient = Some 0\<rparr>"

definition ex_events :: "(nat plain_context, string) event list" where
  "ex_events = [Init, Call 7 0 (Some ex_ctx) (Some (std_errors_New ''e'')) ex_op]"

lemma ex_sentry_run:
  "sentry_run plain_raven_lib (plain_goa :: (nat plain_context, nat) goa_lib) (standard_options plain_raven_lib)
     no_clients ex_events (ex_state [(7, ex_op)])"
proof -
  let ?opts = "[WithUser (\<lambda>c. (Some ''u'', None)), WithRelease plain_raven_lib ''1'']
    :: (nat plain_context, string, plain_raven) sentry_option list"
  let ?G = "plain_goa :: (nat plain_context, nat) goa_lib" and ?err = "Some (std_errors_New ''e'')"
  have "set ?opts \<subseteq> standard_options plain_raven_lib" by (simp add: standard_options_def)
  moreover have "InitializeSentryClient plain_raven_lib '''' (Some ''dsn'') ?opts no_clients = (None, ex_state [])"
    by (simp add: InitializeSentryClient_def no_clients_def ex_state_def ex_client_def plain_raven_lib_def WithUser_def WithRelease_def)
  ultimately have 1: "sentry_step plain_raven_lib ?G (standard_options plain_raven_lib) no_clients Init (ex_state [])"
    by (intro sentry_step.init)
  have "ExtractRequestID ?G (Some ex_ctx) = ''r1''" by (simp add: ExtractRequestID_def ex_ctx_def plain_goa_def)
  then have op: "captured ?G (ex_client []) (Some ex_ctx) ?err = ex_op" by (simp add: captured_def ex_op_def ex_client_def)
  then have "sentry_step plain_raven_lib ?G (standard_options plain_raven_lib) (ex_state [])
      (Call 7 0 (Some ex_ctx) ?err ex_op) (CaptureError ?G 7 (Some 0) (Some ex_ctx) ?err (ex_state []))"
    by (intro sentry_step.call) (simp_all add: ex_state_def)
  moreover have "CaptureError ?G 7 (Some 0) (Some ex_ctx) ?err (ex_state []) = ex_state [(7, ex_op)]"
    using op by (simp add: CaptureError_def update_client_def ex_state_def) (simp add: ex_client_def)
  ultimately show ?thesis
    using run_snoc [OF run_snoc [OF run_Nil 1]] by (simp add: ex_events_def)
qed

theorem sentry_reports_witness:
  "mset (called 0 ex_events) = mset (cl_blocked (clients (ex_state [(7, ex_op)]) ! 0)) \<and> op_reqID ex_op = ''r1''"
proof -
  have "op_reqID ex_op = ExtractRequestID (plain_goa :: (nat plain_context, nat) goa_lib) (Some ex_ctx)"
    using sentry_reports [OF plain_raven_ok ex_sentry_run, of 0] by (auto simp: ex_state_def ex_events_def)
  with sentry_reports [OF plain_raven_ok ex_sentry_run, of 0] show ?thesis
    by (simp add: ex_state_def ex_events_def accepted_def crashed_def ExtractRequestID_def ex_ctx_def plain_goa_def)
qed

theorem sentry_safe_until_halt_witness:
  "\<not> cl_closed (clients (ex_state [(7, ex_op)]) ! 0)"
  using sentry_safe_until_halt [OF plain_raven_ok ex_sentry_run] by (simp add: ex_state_def ex_events_def)


theorem sentry_refines_mailboxes_witness:
  "mailbox_run [] ex_events [(True, {#(7, ex_op)#}, [])]"
  using sentry_refines_mailboxes [OF plain_raven_ok ex_sentry_run] by (simp add: mailboxes_def mailbox_of_def ex_state_def ex_client_def)

end
