(* ===== verification/Resource.thy ===== *)
theory Resource
  imports Go_Strings
begin

section \<open>Resources of tests: \<open>resource/require.go\<close>\<close>

text \<open>
  A test names the environment variables it needs. The environment is a partial map; the reason to skip
  a test is an optional string. \<open>ParseBool\<close> is the standard library's.
\<close>

definition UnitTest :: string where "UnitTest = ''F8_RESOURCE_UNIT_TEST''"
definition Database :: string where "Database = ''F8_RESOURCE_DATABASE''"
definition Remote :: string where "Remote = ''F8_RESOURCE_REMOTE''"

definition StSkipReasonValueFalse :: string where
  "StSkipReasonValueFalse = ''Skipping test because environment variable %s evaluates to false: %s''"

definition StSkipReasonNotSet :: string where
  "StSkipReasonNotSet = ''Skipping test because environment variable %s is no set.''"

definition StSkipReasonParseError :: string where
  "StSkipReasonParseError = ''Unable to parse value of environment variable %s as bool: %s''"

text \<open>\<open>strconv.ParseBool\<close>, \<open>None\<close> for its error.\<close>

definition ParseBool :: "string \<Rightarrow> bool option" where
  "ParseBool s =
     (if s \<in> set [''1'', ''t'', ''T'', ''TRUE'', ''true'', ''True''] then Some True
      else if s \<in> set [''0'', ''f'', ''F'', ''FALSE'', ''false'', ''False''] then Some False
      else None)"

fun checkEnvVars :: "(string \<rightharpoonup> string) \<Rightarrow> string list \<Rightarrow> string option" where
  "checkEnvVars env [] = None"
| "checkEnvVars env (envVar # envVars) =
     (case env envVar of
        None \<Rightarrow>
          if envVar = UnitTest then checkEnvVars env envVars
          else Some (Sprintf StSkipReasonNotSet [VString envVar])
      | Some v \<Rightarrow>
          (case ParseBool v of
             None \<Rightarrow> Some (Sprintf StSkipReasonParseError [VString envVar, VString v])
           | Some isTrue \<Rightarrow>
               if \<not> isTrue then Some (Sprintf StSkipReasonValueFalse [VString envVar, VString v])
               else checkEnvVars env envVars))"

text \<open>\<open>Require\<close> skips the test with the reason, or lets it go on.\<close>

datatype test_outcome = Goes_On | Skipped string

definition Require :: "(string \<rightharpoonup> string) \<Rightarrow> string list \<Rightarrow> test_outcome" where
  "Require env envVars =
     (case checkEnvVars env envVars of Some skipReason \<Rightarrow> Skipped skipReason | None \<Rightarrow> Goes_On)"

definition IsGiven :: "(string \<rightharpoonup> string) \<Rightarrow> string list \<Rightarrow> bool" where
  "IsGiven env envVars \<longleftrightarrow> checkEnvVars env envVars = None"

text \<open>A resource is there when its variable parses as true, and the unit tests' also when it is not set.\<close>

definition available :: "(string \<rightharpoonup> string) \<Rightarrow> string \<Rightarrow> bool" where
  "available env v \<longleftrightarrow> (case env v of None \<Rightarrow> v = UnitTest | Some s \<Rightarrow> ParseBool s = Some True)"

definition skip_reason :: "(string \<rightharpoonup> string) \<Rightarrow> string \<Rightarrow> string" where
  "skip_reason env v =
     (case env v of
        None \<Rightarrow> ''Skipping test because environment variable '' @ v @ '' is no set.''
      | Some s \<Rightarrow>
          if ParseBool s = Some False
          then ''Skipping test because environment variable '' @ v @ '' evaluates to false: '' @ s
          else ''Unable to parse value of environment variable '' @ v @ '' as bool: '' @ s)"

lemma reason_texts:
  "Sprintf StSkipReasonNotSet [VString v] = ''Skipping test because environment variable '' @ v @ '' is no set.''"
  "Sprintf StSkipReasonValueFalse [VString v, VString s] =
     ''Skipping test because environment variable '' @ v @ '' evaluates to false: '' @ s"
  "Sprintf StSkipReasonParseError [VString v, VString s] =
     ''Unable to parse value of environment variable '' @ v @ '' as bool: '' @ s"
  by (simp_all add: StSkipReasonNotSet_def StSkipReasonValueFalse_def StSkipReasonParseError_def print_arg_def extra_args_def)

lemma checkEnvVars_step:
  "checkEnvVars env (v # vs) = (if available env v then checkEnvVars env vs else Some (skip_reason env v))"
  by (auto simp: available_def skip_reason_def reason_texts split: option.split)

text \<open>A test goes on exactly when each of its resources is available; otherwise it is skipped with the
  reason of the first one that is not, in the order given. The unit tests' variable is available
  unless it is set to something other than true; every other one must be set. A value that is
  no boolean (\<open>no\<close>, which the package's documentation calls false, or the empty string) is an
  unparsable one, and skips the test too.\<close>

theorem require_spec:
  "IsGiven env vs = (\<forall>v \<in> set vs. available env v) \<and>
   (Require env vs = Goes_On) = (\<forall>v \<in> set vs. available env v) \<and>
   (\<forall>pre v post. vs = pre @ v # post \<and> (\<forall>x \<in> set pre. available env x) \<and> \<not> available env v \<longrightarrow>
      Require env vs = Skipped (skip_reason env v)) \<and>
   available (\<lambda>k. None) UnitTest \<and>
   skip_reason [UnitTest \<mapsto> ''no''] UnitTest = ''Unable to parse value of environment variable '' @ UnitTest @ '' as bool: no''"
proof (intro conjI allI impI)
  have all: "(checkEnvVars env vs = None) = (\<forall>v \<in> set vs. available env v)" for vs
    by (induction vs) (simp_all add: checkEnvVars_step del: checkEnvVars.simps(2))
  show "IsGiven env vs = (\<forall>v \<in> set vs. available env v)" by (simp add: IsGiven_def all)
  show "(Require env vs = Goes_On) = (\<forall>v \<in> set vs. available env v)"
    unfolding all [symmetric] by (simp add: Require_def split: option.split)
  fix pre v post
  assume a: "vs = pre @ v # post \<and> (\<forall>x \<in> set pre. available env x) \<and> \<not> available env v"
  have "checkEnvVars env (pre @ v # post) = Some (skip_reason env v)"
    if "\<forall>x \<in> set pre. available env x" for pre
    using that a by (induction pre) (simp_all add: checkEnvVars_step del: checkEnvVars.simps(2))
  with a show "Require env vs = Skipped (skip_reason env v)" by (simp add: Require_def)
qed (simp_all add: available_def skip_reason_def ParseBool_def)

theorem require_spec_witness:
  "Require [Database \<mapsto> ''1''] [UnitTest, Database, Remote] =
     Skipped ''Skipping test because environment variable F8_RESOURCE_REMOTE is no set.''"
proof -
  have "[UnitTest, Database, Remote] = [UnitTest, Database] @ Remote # []" by simp
  moreover have "\<forall>x \<in> set [UnitTest, Database]. available [Database \<mapsto> ''1''] x" "\<not> available [Database \<mapsto> ''1''] Remote"
    "skip_reason [Database \<mapsto> ''1''] Remote = ''Skipping test because environment variable F8_RESOURCE_REMOTE is no set.''"
    by (simp_all add: available_def skip_reason_def UnitTest_def Database_def Remote_def ParseBool_def)
  ultimately show ?thesis using require_spec [of "[Database \<mapsto> ''1'']" "[UnitTest, Database, Remote]"] by metis
qed

end
