(* ===== verification/Equaler.thy ===== *)
theory Equaler
  imports Errors
begin

section \<open>Comparable records: \<open>convert/equaler.go\<close> and \<open>gormsupport\<close>\<close>

text \<open>
  The interface \<open>Equaler\<close>, with the types of the repository that implement it, the time stamps of
  database records, and the tests that classify PostgreSQL errors.
\<close>

subsection \<open>Points in time\<close>

text \<open>
  A \<open>time.Time\<close> is a wall clock reading in nanoseconds since Go's zero time, the name of its location and,
  where it comes from \<open>time.Now\<close>, a monotonic reading. \<open>Equal\<close> compares the monotonic readings
  when both have one. \<open>Round\<close> rounds half up since the zero time and strips the monotonic reading.
\<close>

record go_time =
  t_ns :: int
  t_loc :: string
  t_mono :: "int option"

definition time_Equal :: "go_time \<Rightarrow> go_time \<Rightarrow> bool" where
  "time_Equal t u =
     (case (t_mono t, t_mono u) of (Some a, Some b) \<Rightarrow> a = b | _ \<Rightarrow> t_ns t = t_ns u)"

definition time_Round :: "int \<Rightarrow> go_time \<Rightarrow> go_time" where
  "time_Round d t =
     (let u = t\<lparr>t_mono := None\<rparr> in
      if d \<le> 0 then u
      else (let r = t_ns t mod d in
        if r + r < d then u\<lparr>t_ns := t_ns t - r\<rparr> else u\<lparr>t_ns := t_ns t + (d - r)\<rparr>))"

definition Microsecond :: int where "Microsecond = 1000"

subsection \<open>Records\<close>

record Lifecycle =
  CreatedAt :: go_time
  UpdatedAt :: go_time
  DeletedAt :: "go_time option"

record LifecycleHardDelete =
  hd_CreatedAt :: go_time
  hd_UpdatedAt :: go_time

text \<open>
  The dynamic values of the interface: values of the three types, pointers to them (whose method set
  has the method too), values of types outside the package, and the nil interface.
\<close>

datatype equaler =
    E_Dummy
  | E_DummyPtr bool
  | E_Lifecycle Lifecycle
  | E_LifecyclePtr "Lifecycle option"
  | E_Hard LifecycleHardDelete
  | E_HardPtr "LifecycleHardDelete option"
  | E_Other string
  | E_Nil

definition Dummy_Equal :: "equaler \<Rightarrow> bool" where
  "Dummy_Equal u = (case u of E_Dummy \<Rightarrow> True | _ \<Rightarrow> False)"

definition Lifecycle_Equal :: "Lifecycle \<Rightarrow> equaler \<Rightarrow> bool" where
  "Lifecycle_Equal lc u =
     (case u of
        E_Lifecycle other \<Rightarrow>
          if \<not> time_Equal (CreatedAt lc) (CreatedAt other) then False
          else if \<not> time_Equal (UpdatedAt lc) (UpdatedAt other) then False
          else (case (DeletedAt lc, DeletedAt other) of
                  (None, None) \<Rightarrow> True
                | (Some d, Some e) \<Rightarrow> time_Equal d e
                | _ \<Rightarrow> False)
      | _ \<Rightarrow> False)"

definition HardDelete_Equal :: "LifecycleHardDelete \<Rightarrow> equaler \<Rightarrow> bool" where
  "HardDelete_Equal lc u =
     (case u of
        E_Hard other \<Rightarrow> time_Equal (hd_CreatedAt lc) (hd_CreatedAt other) \<and> time_Equal (hd_UpdatedAt lc) (hd_UpdatedAt other)
      | _ \<Rightarrow> False)"

text \<open>
  The two files replace gorm's clock one after the other, each wrapping what it finds: \<open>oldFunc\<close> is the
  reading of the clock that was there before.
\<close>

definition NowFunc_Lifecycle :: "go_time \<Rightarrow> go_time" where
  "NowFunc_Lifecycle oldFunc = time_Round Microsecond oldFunc"

definition NowFunc_HardDelete :: "go_time \<Rightarrow> go_time" where
  "NowFunc_HardDelete oldFunc = time_Round Microsecond oldFunc"

subsection \<open>PostgreSQL errors: \<open>postgres.go\<close>\<close>

definition errCheckViolation :: string where "errCheckViolation = ''23514''"
definition errUniqueViolation :: string where "errUniqueViolation = ''23505''"
definition errForeignKeyViolation :: string where "errForeignKeyViolation = ''23503''"
definition errInvalidCatalogName :: string where "errInvalidCatalogName = ''3D000''"

lemmas pg_codes = errCheckViolation_def errUniqueViolation_def errForeignKeyViolation_def errInvalidCatalogName_def

definition IsCheckViolation :: "goerror option \<Rightarrow> string \<Rightarrow> bool" where
  "IsCheckViolation err constraintName =
     (case err of Some (PqError pqError) \<Rightarrow> pq_Code pqError = errCheckViolation \<and> pq_Constraint pqError = constraintName
      | _ \<Rightarrow> False)"

definition IsInvalidCatalogName :: "goerror option \<Rightarrow> bool" where
  "IsInvalidCatalogName err =
     (case err of Some (PqError pqError) \<Rightarrow> pq_Code pqError = errInvalidCatalogName | _ \<Rightarrow> False)"

definition IsUniqueViolation :: "goerror option \<Rightarrow> string \<Rightarrow> bool" where
  "IsUniqueViolation err indexName =
     (case err of Some (PqError pqError) \<Rightarrow> pq_Code pqError = errUniqueViolation \<and> pq_Constraint pqError = indexName
      | _ \<Rightarrow> False)"

definition IsForeignKeyViolation :: "goerror option \<Rightarrow> string \<Rightarrow> bool" where
  "IsForeignKeyViolation err indexName =
     (case err of Some (PqError pqError) \<Rightarrow> pq_Code pqError = errForeignKeyViolation \<and> pq_Constraint pqError = indexName
      | _ \<Rightarrow> False)"

subsection \<open>The contract of the interface\<close>

text \<open>
  What a client of \<open>Equaler\<close> expects: on the values \<open>wf\<close> of one type, packed into the interface by \<open>box\<close>,
  the method is an equivalence, and it holds of nothing but values of that type.
\<close>

locale equaler_type =
  fixes eq :: "'a \<Rightarrow> equaler \<Rightarrow> bool"
    and box :: "'a \<Rightarrow> equaler"
    and wf :: "'a \<Rightarrow> bool"
  assumes only_boxed: "eq x u \<Longrightarrow> \<exists>y. u = box y"
    and refl: "wf x \<Longrightarrow> eq x (box x)"
    and sym: "wf x \<Longrightarrow> wf y \<Longrightarrow> eq x (box y) \<Longrightarrow> eq y (box x)"
    and trans: "wf x \<Longrightarrow> wf y \<Longrightarrow> wf z \<Longrightarrow> eq x (box y) \<Longrightarrow> eq y (box z) \<Longrightarrow> eq x (box z)"
begin

definition same :: "'a \<Rightarrow> 'a \<Rightarrow> bool" where
  "same x y \<longleftrightarrow> wf x \<and> wf y \<and> eq x (box y)"

lemma same_equivp: "part_equivp same" if "wf w" for w
  using that refl sym trans unfolding part_equivp_def same_def fun_eq_iff by metis

lemma eq_cong: "same x y \<Longrightarrow> wf z \<Longrightarrow> eq z (box x) = eq z (box y)"
  unfolding same_def by (metis sym trans)

end

text \<open>Stamps as the database and gorm's clock make them have no monotonic reading.\<close>

definition plain_time :: "go_time \<Rightarrow> bool" where
  "plain_time t \<longleftrightarrow> t_mono t = None"

lemma time_Equal_plain: "plain_time t \<Longrightarrow> time_Equal t u = (t_ns t = t_ns u)"
  by (cases "t_mono u") (simp_all add: time_Equal_def plain_time_def)

lemma time_Equal_plain2: "plain_time u \<Longrightarrow> time_Equal t u = (t_ns t = t_ns u)"
  by (cases "t_mono t") (simp_all add: time_Equal_def plain_time_def)

definition plain_lifecycle :: "Lifecycle \<Rightarrow> bool" where
  "plain_lifecycle lc \<longleftrightarrow> plain_time (CreatedAt lc) \<and> plain_time (UpdatedAt lc) \<and> pred_option plain_time (DeletedAt lc)"

definition plain_hard :: "LifecycleHardDelete \<Rightarrow> bool" where
  "plain_hard lc \<longleftrightarrow> plain_time (hd_CreatedAt lc) \<and> plain_time (hd_UpdatedAt lc)"

text \<open>The instants of a record, whatever the location they are written in.\<close>

definition instants :: "Lifecycle \<Rightarrow> int \<times> int \<times> int option" where
  "instants lc = (t_ns (CreatedAt lc), t_ns (UpdatedAt lc), map_option t_ns (DeletedAt lc))"

lemma Lifecycle_Equal_boxed: "Lifecycle_Equal x u \<Longrightarrow> \<exists>y. u = E_Lifecycle y"
  by (cases u) (simp_all add: Lifecycle_Equal_def)

lemma Lifecycle_Equal_plain:
  assumes "plain_lifecycle x"
  shows "Lifecycle_Equal x (E_Lifecycle y) = (instants x = instants y)"
  using assms by (cases "DeletedAt x"; cases "DeletedAt y")
    (auto simp: Lifecycle_Equal_def instants_def plain_lifecycle_def time_Equal_plain)

lemma HardDelete_Equal_plain:
  assumes "plain_hard x"
  shows "HardDelete_Equal x (E_Hard y) = (t_ns (hd_CreatedAt x) = t_ns (hd_CreatedAt y) \<and> t_ns (hd_UpdatedAt x) = t_ns (hd_UpdatedAt y))"
  using assms by (simp add: HardDelete_Equal_def plain_hard_def time_Equal_plain)

lemma HardDelete_Equal_boxed: "HardDelete_Equal x u \<Longrightarrow> \<exists>y. u = E_Hard y"
  by (cases u) (simp_all add: HardDelete_Equal_def)

interpretation soft: equaler_type Lifecycle_Equal E_Lifecycle plain_lifecycle
  by unfold_locales (simp_all add: Lifecycle_Equal_boxed Lifecycle_Equal_plain)

interpretation hard: equaler_type HardDelete_Equal E_Hard plain_hard
  by unfold_locales (simp_all add: HardDelete_Equal_boxed HardDelete_Equal_plain)

interpretation dummy: equaler_type "\<lambda>(d :: unit) u. Dummy_Equal u" "\<lambda>d. E_Dummy" "\<lambda>d. True"
  by unfold_locales (auto simp: Dummy_Equal_def split: equaler.split_asm)


text \<open>A call through the interface: on the nil interface, and on a nil pointer, whose value the method
  would have to copy, it panics.\<close>

definition Equal :: "equaler \<Rightarrow> equaler \<Rightarrow> bool go" where
  "Equal x u =
     (case x of
        E_Dummy \<Rightarrow> Ret (Dummy_Equal u)
      | E_DummyPtr nonnil \<Rightarrow> if nonnil then Ret (Dummy_Equal u) else Panic ''nil pointer dereference''
      | E_Lifecycle lc \<Rightarrow> Ret (Lifecycle_Equal lc u)
      | E_LifecyclePtr (Some lc) \<Rightarrow> Ret (Lifecycle_Equal lc u)
      | E_LifecyclePtr None \<Rightarrow> Panic ''nil pointer dereference''
      | E_Hard lc \<Rightarrow> Ret (HardDelete_Equal lc u)
      | E_HardPtr (Some lc) \<Rightarrow> Ret (HardDelete_Equal lc u)
      | E_HardPtr None \<Rightarrow> Panic ''nil pointer dereference''
      | E_Other t \<Rightarrow> Panic ''not a type of this program''
      | E_Nil \<Rightarrow> Panic ''nil pointer dereference'')"

subsection \<open>The properties\<close>

text \<open>
  What two values of the interface have to agree on: the type, and the instants. Nothing else of the repository or outside it is
  comparable. A value as the database gives it has plain stamps.
\<close>

datatype stamps = Stampless | Soft "int \<times> int \<times> int option" | Hard int int

fun stamps_of :: "equaler \<Rightarrow> stamps option" where
  "stamps_of E_Dummy = Some Stampless"
| "stamps_of (E_Lifecycle lc) = Some (Soft (instants lc))"
| "stamps_of (E_Hard lc) = Some (Hard (t_ns (hd_CreatedAt lc)) (t_ns (hd_UpdatedAt lc)))"
| "stamps_of _ = None"

fun plain_value :: "equaler \<Rightarrow> bool" where
  "plain_value E_Dummy \<longleftrightarrow> True"
| "plain_value (E_Lifecycle lc) \<longleftrightarrow> plain_lifecycle lc"
| "plain_value (E_Hard lc) \<longleftrightarrow> plain_hard lc"
| "plain_value _ \<longleftrightarrow> False"

lemma Equal_plain: "plain_value x \<Longrightarrow> Equal x u = Ret (stamps_of x = stamps_of u)"
proof (cases x)
  case (E_Lifecycle lc)
  moreover assume "plain_value x"
  ultimately show ?thesis
    using soft.only_boxed [of lc u] Lifecycle_Equal_plain [of lc] by (cases u) (auto simp: Equal_def)
next
  case (E_Hard lc)
  moreover assume "plain_value x"
  ultimately show ?thesis
    using hard.only_boxed [of lc u] HardDelete_Equal_plain [of lc] by (cases u) (auto simp: Equal_def)
next
  case E_Dummy
  then show ?thesis using dummy.only_boxed [of u] by (cases u) (auto simp: Equal_def Dummy_Equal_def)
qed simp_all

lemma plain_stamps: "plain_value x \<Longrightarrow> None \<noteq> stamps_of x"
  by (cases x) simp_all

text \<open>So the interface's method keeps the contract on all plain values together.\<close>

interpretation plain_values: equaler_type "\<lambda>x u. Equal x u = Ret True" "\<lambda>x. x" plain_value
  by unfold_locales (simp_all add: Equal_plain)

text \<open>C39: On values as the database gives them, of any of the three types together, \<open>Equal\<close> returns and is an equivalence:
  two soft-delete records are equal exactly when their three instants are, two hard-delete records when their two are, whatever
  locations the stamps are written in, and two dummies always; values of different types never are. Equal values cannot
  be told apart by it. Nothing else is equal to such a value, nil and a pointer to an equal record included, so a pointer is not equal
  even to itself. With stamps straight from the clock it is no equivalence on either kind of record: monotonic readings break
  transitivity.\<close>

theorem lifecycle_equality:
  assumes "plain_value x" and "plain_value y" and "plain_value z"
  shows "Equal x x = Ret True \<and> Equal x y = Equal y x \<and> (Equal x y = Ret True \<longrightarrow> Equal z x = Equal z y) \<and>
    (\<forall>a b. x = E_Lifecycle a \<and> y = E_Lifecycle b \<longrightarrow> Equal x y = Ret (t_ns (CreatedAt a) = t_ns (CreatedAt b) \<and>
       t_ns (UpdatedAt a) = t_ns (UpdatedAt b) \<and> map_option t_ns (DeletedAt a) = map_option t_ns (DeletedAt b))) \<and>
    (\<forall>a b. x = E_Hard a \<and> y = E_Hard b \<longrightarrow> Equal x y = Ret (t_ns (hd_CreatedAt a) = t_ns (hd_CreatedAt b) \<and>
       t_ns (hd_UpdatedAt a) = t_ns (hd_UpdatedAt b))) \<and>
    Equal E_Dummy E_Dummy = Ret True \<and>
    (\<forall>a b. Equal E_Dummy (E_Lifecycle a) = Ret False \<and> Equal E_Dummy (E_Hard b) = Ret False) \<and>
    (\<forall>a b. x = E_Lifecycle a \<longrightarrow> Equal x (E_Hard b) = Ret False) \<and>
    (\<forall>u. u \<in> range E_LifecyclePtr \<union> range E_HardPtr \<union> range E_DummyPtr \<union> range E_Other \<union> {E_Nil} \<longrightarrow> Equal x u = Ret False) \<and>
    (\<forall>a b. Equal (E_LifecyclePtr (Some a)) (E_LifecyclePtr (Some a)) = Ret False \<and>
       Equal (E_HardPtr (Some b)) (E_HardPtr (Some b)) = Ret False) \<and>
    (\<exists>a b c. Equal (E_Lifecycle a) (E_Lifecycle b) = Ret True \<and> Equal (E_Lifecycle b) (E_Lifecycle c) = Ret True \<and>
       Equal (E_Lifecycle a) (E_Lifecycle c) = Ret False) \<and>
    (\<exists>a b c. Equal (E_Hard a) (E_Hard b) = Ret True \<and> Equal (E_Hard b) (E_Hard c) = Ret True \<and> Equal (E_Hard a) (E_Hard c) = Ret False)"
proof (intro conjI impI allI)
  show "Equal x x = Ret True" by (rule plain_values.refl [OF assms(1)])
  show "Equal z x = Equal z y" if "Equal x y = Ret True"
    using that by (simp add: Equal_plain assms)
  let ?t = "\<lambda>m. \<lparr>t_ns = 0, t_loc = ''UTC'', t_mono = m\<rparr>"
  let ?l = "\<lambda>m. \<lparr>CreatedAt = ?t None, UpdatedAt = ?t m, DeletedAt = None\<rparr>"
  let ?h = "\<lambda>m. \<lparr>hd_CreatedAt = ?t None, hd_UpdatedAt = ?t m\<rparr>"
  have "Equal (E_Lifecycle (?l (Some 1))) (E_Lifecycle (?l None)) = Ret True \<and> Equal (E_Lifecycle (?l None)) (E_Lifecycle (?l (Some 2))) = Ret True \<and>
      Equal (E_Lifecycle (?l (Some 1))) (E_Lifecycle (?l (Some 2))) = Ret False"
    by (simp add: Equal_def Lifecycle_Equal_def time_Equal_def)
  then show "\<exists>a b c. Equal (E_Lifecycle a) (E_Lifecycle b) = Ret True \<and> Equal (E_Lifecycle b) (E_Lifecycle c) = Ret True \<and>
      Equal (E_Lifecycle a) (E_Lifecycle c) = Ret False" by blast
  have "Equal (E_Hard (?h (Some 1))) (E_Hard (?h None)) = Ret True \<and> Equal (E_Hard (?h None)) (E_Hard (?h (Some 2))) = Ret True \<and>
      Equal (E_Hard (?h (Some 1))) (E_Hard (?h (Some 2))) = Ret False"
    by (simp add: Equal_def HardDelete_Equal_def time_Equal_def)
  then show "\<exists>a b c. Equal (E_Hard a) (E_Hard b) = Ret True \<and> Equal (E_Hard b) (E_Hard c) = Ret True \<and> Equal (E_Hard a) (E_Hard c) = Ret False"
    by blast
qed (use assms in \<open>auto simp: Equal_plain instants_def eq_commute dest: plain_stamps\<close>,
    simp_all add: Equal_def Lifecycle_Equal_def HardDelete_Equal_def)

theorem lifecycle_equality_witness:
  "Equal (E_Lifecycle \<lparr>CreatedAt = \<lparr>t_ns = 5, t_loc = ''UTC'', t_mono = None\<rparr>, UpdatedAt = \<lparr>t_ns = 7, t_loc = ''UTC'', t_mono = None\<rparr>, DeletedAt = None\<rparr>)
     (E_Lifecycle \<lparr>CreatedAt = \<lparr>t_ns = 5, t_loc = ''CET'', t_mono = None\<rparr>, UpdatedAt = \<lparr>t_ns = 7, t_loc = ''UTC'', t_mono = None\<rparr>,
        DeletedAt = None\<rparr>) = Ret True \<and>
   Equal (E_Hard \<lparr>hd_CreatedAt = \<lparr>t_ns = 5, t_loc = ''UTC'', t_mono = None\<rparr>, hd_UpdatedAt = \<lparr>t_ns = 7, t_loc = ''UTC'', t_mono = None\<rparr>\<rparr>)
     (E_Hard \<lparr>hd_CreatedAt = \<lparr>t_ns = 5, t_loc = ''UTC'', t_mono = None\<rparr>, hd_UpdatedAt = \<lparr>t_ns = 8, t_loc = ''UTC'', t_mono = None\<rparr>\<rparr>) = Ret False"
proof
  let ?t = "\<lambda>n l. \<lparr>t_ns = n, t_loc = l, t_mono = None\<rparr>"
  let ?x = "\<lambda>l. \<lparr>CreatedAt = ?t 5 l, UpdatedAt = ?t 7 ''UTC'', DeletedAt = None\<rparr>"
  let ?y = "\<lambda>n. \<lparr>hd_CreatedAt = ?t 5 ''UTC'', hd_UpdatedAt = ?t n ''UTC''\<rparr>"
  have x: "plain_value (E_Lifecycle (?x l))" and y: "plain_value (E_Hard (?y n))" for l n
    by (simp_all add: plain_lifecycle_def plain_hard_def plain_time_def)
  show "Equal (E_Lifecycle (?x ''UTC'')) (E_Lifecycle (?x ''CET'')) = Ret True"
    using lifecycle_equality [OF x x x, of "''UTC''" "''CET''" "''UTC''"] by fastforce
  show "Equal (E_Hard (?y 7)) (E_Hard (?y 8)) = Ret False"
    using lifecycle_equality [OF y y y, of 7 8 7] by fastforce
qed

lemma time_Round_spec:
  assumes "0 < d"
  shows "d dvd t_ns (time_Round d t)" "2 * \<bar>t_ns (time_Round d t) - t_ns t\<bar> \<le> d" "plain_time (time_Round d t)"
    "t_loc (time_Round d t) = t_loc t"
proof -
  let ?r = "t_ns t mod d"
  have r: "0 \<le> ?r" "?r < d" using assms by simp_all
  have "d dvd t_ns t - ?r" "d dvd t_ns t + (d - ?r)"
    by (simp_all add: dvd_minus_mod) (metis add_diff_eq add.commute diff_add_eq dvd_add dvd_refl dvd_minus_mod)
  then show "d dvd t_ns (time_Round d t)" using assms by (simp add: time_Round_def Let_def)
  show "2 * \<bar>t_ns (time_Round d t) - t_ns t\<bar> \<le> d" using assms r by (simp add: time_Round_def Let_def)
qed (simp_all add: time_Round_def Let_def plain_time_def)

lemma time_Round_fixed: "0 < d \<Longrightarrow> d dvd t_ns t \<Longrightarrow> plain_time t \<Longrightarrow> time_Round d t = t"
  by (simp add: time_Round_def Let_def plain_time_def dvd_eq_mod_eq_0)

lemma half_distance:
  fixes x y A B d :: int
  assumes "2 * \<bar>A - x\<bar> \<le> d" and "2 * \<bar>B - y\<bar> \<le> d" and "x \<le> y" and "B + d \<le> A"
  shows "x = y"
  using assms by arith

lemma time_Round_mono:
  assumes "0 < d" and "t_ns t \<le> t_ns u"
  shows "t_ns (time_Round d t) \<le> t_ns (time_Round d u)"
proof (rule ccontr)
  assume less: "\<not> ?thesis"
  obtain a b where ab: "t_ns (time_Round d t) = d * a" "t_ns (time_Round d u) = d * b"
    using time_Round_spec(1) [OF assms(1)] by (meson dvd_def)
  with less assms(1) have "b + 1 \<le> a" by simp
  then have "d * b + d \<le> d * a" using assms(1) by (metis distrib_left mult.right_neutral mult_left_mono less_imp_le)
  then have "t_ns (time_Round d u) + d \<le> t_ns (time_Round d t)" unfolding ab .
  then have eq: "t_ns t = t_ns u"
    by (rule half_distance [OF time_Round_spec(2) [OF assms(1)] time_Round_spec(2) [OF assms(1)] assms(2)])
  then show False using less by (simp add: time_Round_def Let_def split: if_splits)
qed

text \<open>Gorm's clock after the package is loaded: both files wrap it, and the second rounding changes nothing.
  A reading becomes the nearest whole microsecond, half a microsecond away at most, in the same location and without its
  monotonic part, so \<open>Equal\<close> is an equivalence on records stamped by it; the order of readings is kept.\<close>

theorem now_func_spec:
  "NowFunc_HardDelete (NowFunc_Lifecycle t) = NowFunc_Lifecycle t \<and>
   1000 dvd t_ns (NowFunc_Lifecycle t) \<and> \<bar>t_ns (NowFunc_Lifecycle t) - t_ns t\<bar> \<le> 500 \<and>
   t_loc (NowFunc_Lifecycle t) = t_loc t \<and>
   plain_lifecycle \<lparr>CreatedAt = NowFunc_Lifecycle t, UpdatedAt = NowFunc_Lifecycle u, DeletedAt = map_option NowFunc_Lifecycle d\<rparr> \<and>
   (t_ns t \<le> t_ns u \<longrightarrow> t_ns (NowFunc_Lifecycle t) \<le> t_ns (NowFunc_Lifecycle u))"
proof (intro conjI impI)
  have d: "0 < Microsecond" by (simp add: Microsecond_def)
  note r = time_Round_spec [OF d]
  show "NowFunc_HardDelete (NowFunc_Lifecycle t) = NowFunc_Lifecycle t"
    unfolding NowFunc_HardDelete_def NowFunc_Lifecycle_def by (rule time_Round_fixed [OF d r(1,3)])
  show "1000 dvd t_ns (NowFunc_Lifecycle t)" using r(1) [of t] by (simp add: NowFunc_Lifecycle_def Microsecond_def)
  show "\<bar>t_ns (NowFunc_Lifecycle t) - t_ns t\<bar> \<le> 500" using r(2) [of t] by (simp add: NowFunc_Lifecycle_def Microsecond_def)
  show "t_loc (NowFunc_Lifecycle t) = t_loc t" by (simp add: NowFunc_Lifecycle_def r(4))
  show "plain_lifecycle \<lparr>CreatedAt = NowFunc_Lifecycle t, UpdatedAt = NowFunc_Lifecycle u, DeletedAt = map_option NowFunc_Lifecycle d\<rparr>"
    by (cases d) (simp_all add: plain_lifecycle_def NowFunc_Lifecycle_def r(3))
  show "t_ns (NowFunc_Lifecycle t) \<le> t_ns (NowFunc_Lifecycle u)" if "t_ns t \<le> t_ns u"
    unfolding NowFunc_Lifecycle_def by (rule time_Round_mono [OF d that])
qed

theorem now_func_spec_witness:
  "t_ns (NowFunc_Lifecycle \<lparr>t_ns = 1499, t_loc = ''UTC'', t_mono = Some 3\<rparr>)
     \<le> t_ns (NowFunc_Lifecycle \<lparr>t_ns = 1500, t_loc = ''UTC'', t_mono = Some 4\<rparr>)"
  using now_func_spec [of "\<lparr>t_ns = 1499, t_loc = ''UTC'', t_mono = Some 3\<rparr>" "\<lparr>t_ns = 1500, t_loc = ''UTC'', t_mono = Some 4\<rparr>" None]
  by simp

text \<open>The four tests of PostgreSQL errors look at the error itself, not at its cause.\<close>

datatype pg_kind = Check string | Unique string | Foreign_Key string | Catalog

primrec is_pg :: "pg_kind \<Rightarrow> goerror option \<Rightarrow> bool" where
  "is_pg (Check n) err = IsCheckViolation err n"
| "is_pg (Unique n) err = IsUniqueViolation err n"
| "is_pg (Foreign_Key n) err = IsForeignKeyViolation err n"
| "is_pg Catalog err = IsInvalidCatalogName err"

lemmas pg_tests = IsCheckViolation_def IsUniqueViolation_def IsForeignKeyViolation_def IsInvalidCatalogName_def

lemma is_pg_PqError: "is_pg k err \<Longrightarrow> \<exists>p. err = Some (PqError p)"
  by (cases k; cases err; cases "the err") (simp_all add: pg_tests)

lemma is_pg_unique: "is_pg k err \<Longrightarrow> is_pg l err \<Longrightarrow> k = l"
  using is_pg_PqError [of k err] by (cases k; cases l) (auto simp: pg_tests pg_codes)

text \<open>The four tests of PostgreSQL errors: nil and errors of other types are none of the four; one error is of at
  most one of the four kinds, and of a violation of at most one constraint; an error built from the
  server's code and constraint is recognised by the test of that code. Wrapped once, even the right
  error is recognised by none of them.\<close>

theorem postgres_tests_spec:
  assumes "\<And>e m. \<exists>w. errs_Wrapf P (Some e) m = Some w \<and> has_Cause w"
  shows "\<not> is_pg k None \<and> (is_pg k err \<longrightarrow> is_pg l err \<longrightarrow> k = l) \<and>
    IsCheckViolation (Some (PqError \<lparr>pq_Code = ''23514'', pq_Constraint = c, pq_text = t\<rparr>)) c \<and>
    IsUniqueViolation (Some (PqError \<lparr>pq_Code = ''23505'', pq_Constraint = c, pq_text = t\<rparr>)) c \<and>
    IsForeignKeyViolation (Some (PqError \<lparr>pq_Code = ''23503'', pq_Constraint = c, pq_text = t\<rparr>)) c \<and>
    IsInvalidCatalogName (Some (PqError \<lparr>pq_Code = ''3D000'', pq_Constraint = c, pq_text = t\<rparr>)) \<and>
    \<not> is_pg k (errs_Wrapf P (Some e) m)"
proof (intro conjI impI)
  obtain w where w: "errs_Wrapf P (Some e) m = Some w" "has_Cause w" using assms by blast
  then show "\<not> is_pg k (errs_Wrapf P (Some e) m)" using is_pg_PqError [of k "Some w"] by auto
  show "\<not> is_pg k None" using is_pg_PqError [of k None] by auto
qed (simp_all add: pg_tests pg_codes is_pg_unique)

theorem postgres_tests_spec_witness:
  "\<not> is_pg (Unique ''k'')
     (errs_Wrapf documented_errs (Some (PqError \<lparr>pq_Code = ''23505'', pq_Constraint = ''k'', pq_text = ''duplicate''\<rparr>)) ''insert'')"
proof -
  have "\<exists>w. errs_Wrapf documented_errs (Some e) m = Some w \<and> has_Cause w" for e m by (simp add: documented_errs_def)
  from postgres_tests_spec [OF this, where k = "Unique ''k''" and m = "''insert''"] show ?thesis by blast
qed

end
