(* ===== verification/Generators.thy ===== *)
theory Generators
  imports Errors
begin

section \<open>Code generators: \<open>goasupport/jsonapi_errors_helpers\<close> and \<open>goasupport/status\<close>\<close>

text \<open>
  Two plug-ins of goa's generator that write Go files. What they use of \<open>codegen\<close>, of the Go parser, of the file
  system and of the runtime is the parameter \<open>gen_lib\<close>, over files of type \<open>'h\<close> and a state \<open>'w\<close>; what they
  use of \<open>flag\<close>, \<open>path/filepath\<close> and \<open>strings\<close> is modelled.
\<close>

subsection \<open>Paths\<close>

definition last_slash_split :: "string \<Rightarrow> string \<times> string" where
  "last_slash_split path =
     (let name = rev (takeWhile (\<lambda>c. c \<noteq> CHR ''/'') (rev path)) in (take (length path - length name) path, name))"

text \<open>\<open>filepath.Ext\<close>: the suffix of the last path element that begins at its last dot.\<close>

definition Ext :: "string \<Rightarrow> string" where
  "Ext path =
     (let r = rev path; tail = takeWhile (\<lambda>c. c \<noteq> CHR ''.'' \<and> c \<noteq> CHR ''/'') r; rest = dropWhile (\<lambda>c. c \<noteq> CHR ''.'' \<and> c \<noteq> CHR ''/'') r in
      if rest \<noteq> '''' \<and> hd rest = CHR ''.'' then CHR ''.'' # rev tail else '''')"

text \<open>\<open>filepath.Clean\<close>: \<open>out\<close> is the stack of elements kept, last first.\<close>

fun clean_elems :: "bool \<Rightarrow> string list \<Rightarrow> string list \<Rightarrow> string list" where
  "clean_elems rooted out [] = rev out"
| "clean_elems rooted out (e # es) =
     (if e = '''' \<or> e = ''.'' then clean_elems rooted out es
      else if e = ''..'' then
        (case out of
           o' # os \<Rightarrow> if o' \<noteq> ''..'' then clean_elems rooted os es
                     else clean_elems rooted (e # out) es
         | [] \<Rightarrow> if rooted then clean_elems rooted [] es else clean_elems rooted [e] es)
      else clean_elems rooted (e # out) es)"

definition Clean :: "string \<Rightarrow> string" where
  "Clean path =
     (let rooted = HasPrefix path ''/''; out = Join (clean_elems rooted [] (Split path (CHR ''/''))) ''/'' in
      if rooted then ''/'' @ out else if out = '''' then ''.'' else out)"

definition path_Join :: "string \<Rightarrow> string \<Rightarrow> string" where
  "path_Join a b =
     (case filter (\<lambda>e. e \<noteq> '''') [a, b] of [] \<Rightarrow> '''' | es \<Rightarrow> Clean (Join es ''/''))"

definition path_Dir :: "string \<Rightarrow> string" where
  "path_Dir path = Clean (fst (last_slash_split path))"

subsection \<open>Flags\<close>

text \<open>
  \<open>set.Parse\<close> with \<open>flag.PanicOnError\<close> on the three string flags. The accumulator holds version and output
  directory; parsing stops at the first argument that is no flag.
\<close>

definition set_flag :: "string \<Rightarrow> string \<Rightarrow> string \<times> string \<Rightarrow> (string \<times> string) option" where
  "set_flag name val acc =
     (if name = ''design'' then Some acc
      else if name = ''version'' then Some (val, snd acc)
      else if name = ''out'' then Some (fst acc, val)
      else None)"

fun parse_flags :: "string list \<Rightarrow> string \<times> string \<Rightarrow> (string \<times> string) go" where
  "parse_flags [] acc = Ret acc"
| "parse_flags (s # args) acc =
     (if length s < 2 \<or> hd s \<noteq> CHR ''-'' then Ret acc
      else if s = ''--'' then Ret acc
      else (let name = (if s ! 1 = CHR ''-'' then drop 2 s else drop 1 s) in
        if name = '''' \<or> hd name = CHR ''-'' \<or> hd name = CHR ''='' then Panic ''bad flag syntax''
        else if CHR ''='' \<in> set name then
          (case set_flag (takeWhile (\<lambda>c. c \<noteq> CHR ''='') name) (drop 1 (dropWhile (\<lambda>c. c \<noteq> CHR ''='') name)) acc of
             None \<Rightarrow> Panic ''flag provided but not defined''
           | Some acc' \<Rightarrow> parse_flags args acc')
        else if set_flag name '''' acc = None then Panic ''flag provided but not defined''
        else (case args of
                [] \<Rightarrow> Panic ''flag needs an argument''
              | val # args' \<Rightarrow>
                  (case set_flag name val acc of
                     None \<Rightarrow> Panic ''flag provided but not defined''
                   | Some acc' \<Rightarrow> parse_flags args' acc'))))"

subsection \<open>The libraries\<close>

text \<open>
  The Go parser gives the imports of a file (name, if any, and quoted path) and where the declarations
  end: the positions of their ends, which count from one. \<open>lib_Caller\<close> is the file of the calling function.
\<close>

record go_file =
  gf_Imports :: "(string option \<times> string) list"
  gf_Decl_Ends :: "nat list"

record ('h, 'w) gen_lib =
  lib_CheckVersion :: "string \<Rightarrow> goerror option"
  lib_Context :: string
  lib_Caller :: "string option"
  lib_ReadFile :: "string \<Rightarrow> 'w \<Rightarrow> goerror + string"
  lib_ParseFile :: "string \<Rightarrow> string \<Rightarrow> goerror + go_file"
  lib_SourceFileFor :: "string \<Rightarrow> 'w \<Rightarrow> (goerror + 'h) \<times> 'w"
  lib_WriteHeader :: "'h \<Rightarrow> string \<Rightarrow> string \<Rightarrow> (string \<times> string) list \<Rightarrow> 'w \<Rightarrow> 'w"
  lib_Write :: "'h \<Rightarrow> string \<Rightarrow> 'w \<Rightarrow> goerror option \<times> 'w"
  lib_ExecuteTemplate :: "'h \<Rightarrow> string \<Rightarrow> string \<Rightarrow> 'w \<Rightarrow> goerror option \<times> 'w"

subsection \<open>The name of the generated file\<close>

text \<open>The loop of \<open>writeFile\<close>; every pass cuts at least the last character off, so it ends.\<close>

lemma Ext_cases:
  obtains (none) "Ext path = ''''"
  | (dot) pre tail where "path = pre @ CHR ''.'' # tail" "Ext path = CHR ''.'' # tail"
proof -
  let ?P = "\<lambda>c. c \<noteq> CHR ''.'' \<and> c \<noteq> CHR ''/''"
  let ?tail = "takeWhile ?P (rev path)" and ?rest = "dropWhile ?P (rev path)"
  show thesis
  proof (cases "?rest \<noteq> '''' \<and> hd ?rest = CHR ''.''")
    case True
    then obtain r where r: "?rest = CHR ''.'' # r" by (cases ?rest) simp_all
    have "rev path = ?tail @ CHR ''.'' # r" using r by (metis takeWhile_dropWhile_id)
    then have "path = rev r @ CHR ''.'' # rev ?tail"
      by (metis append.assoc append_Cons append_Nil rev.simps(2) rev_append rev_rev_ident)
    moreover have "Ext path = CHR ''.'' # rev ?tail" using True unfolding Ext_def Let_def by (simp only: if_True simp_thms)
    ultimately show thesis by (rule dot)
  next
    case False
    then have "Ext path = ''''" unfolding Ext_def Let_def by (simp only: if_False)
    then show thesis by (rule none)
  qed
qed

function strip_extensions :: "string \<Rightarrow> string" where
  "strip_extensions targetFile =
     (let ext = Ext targetFile in if ext = '''' then targetFile else strip_extensions (TrimRight targetFile ext))"
  by pat_completeness auto
termination
proof (relation "measure length")
  fix s ext
  assume ext: "ext = Ext s" "ext \<noteq> ''''"
  have "s \<noteq> '''' \<and> last s \<in> set ext" using ext by (cases s rule: Ext_cases) simp_all
  then show "(TrimRight s ext, s) \<in> measure length" by (simp add: TrimRight_shrinks)
qed simp

declare strip_extensions.simps [simp del]

definition target_file :: "string \<Rightarrow> string" where
  "target_file sourceFile = Sprintf ''%s.go'' [VString (strip_extensions sourceFile)]"


subsection \<open>Writing the helpers of the JSON-API errors\<close>

definition trim_quotes :: "string \<Rightarrow> string" where
  "trim_quotes s = rev (dropWhile (\<lambda>c. c = CHR 0x22) (rev (dropWhile (\<lambda>c. c = CHR 0x22) s)))"

definition import_spec :: "string option \<times> string \<Rightarrow> string \<times> string" where
  "import_spec i = ((case fst i of Some name \<Rightarrow> name | None \<Rightarrow> ''''), trim_quotes (snd i))"

definition helper_failure :: "pkg_errors \<Rightarrow> string \<Rightarrow> goerror \<Rightarrow> goerror option" where
  "helper_failure P sourceFile err =
     errs_Wrapf P (Some err) (Sprintf ''failed to generate the JSON-API Errors helper from %s'' [VString sourceFile])"

definition writeFile :: "pkg_errors \<Rightarrow> ('h, 'w) gen_lib \<Rightarrow> string \<Rightarrow> string \<Rightarrow> string \<Rightarrow> 'w
    \<Rightarrow> ((string \<times> goerror option) \<times> 'w) go" where
  "writeFile P L sourceFile title outDir w =
     (case lib_Caller L of
        None \<Rightarrow> Ret (('''', Some (errs_New P ''failed to generate the JSON-API Errors helpers'')), w)
      | Some caller \<Rightarrow>
          (case lib_ReadFile L (path_Join (path_Dir caller) sourceFile) w of
             Inl err \<Rightarrow> Ret (('''', helper_failure P sourceFile err), w)
           | Inr content \<Rightarrow>
               (case lib_ParseFile L sourceFile content of
                  Inl err \<Rightarrow> Ret (('''', helper_failure P sourceFile err), w)
                | Inr f \<Rightarrow>
                    (let ctxFile = path_Join outDir (target_file sourceFile) in
                     case lib_SourceFileFor L ctxFile w of
                       (Inl err, w1) \<Rightarrow> Ret (('''', helper_failure P sourceFile err), w1)
                     | (Inr ctxWr, w1) \<Rightarrow>
                         (let w2 = lib_WriteHeader L ctxWr title ''app'' (map import_spec (gf_Imports f)) w1 in
                          case gf_Decl_Ends f of
                            [] \<Rightarrow> Panic ''index out of range''
                          | endOfImports # es \<Rightarrow>
                              if length content < endOfImports then Panic ''slice bounds out of range''
                              else Ret (('''', None), snd (lib_Write L ctxWr (drop endOfImports content) w2)))))))"

definition helper_files :: "string \<rightharpoonup> string" where
  "helper_files =
     [''error_handler.go.txt'' \<mapsto> ''helper functions to handle errors'',
      ''jsonapi_errors_stringer.go.txt'' \<mapsto> ''stringer functions for JSONAPI Error(s)'',
      ''jsonapi_errors_converter.go.txt'' \<mapsto> ''helper functions to convert to JSONAPI Errors'',
      ''jsonapi_errors_converter_blackbox_test.go.txt'' \<mapsto> ''tests for the helper functions to convert to JSONAPI Errors'']"

fun helpers_loop :: "pkg_errors \<Rightarrow> ('h, 'w) gen_lib \<Rightarrow> string \<Rightarrow> string list \<Rightarrow> string list \<Rightarrow> 'w
    \<Rightarrow> ((string list \<times> goerror option) \<times> 'w) go" where
  "helpers_loop P L outDir [] files w = Ret ((files, None), w)"
| "helpers_loop P L outDir (file # order) files w =
     go_bind (writeFile P L file (case helper_files file of Some title \<Rightarrow> title | None \<Rightarrow> '''') outDir w) (\<lambda>((result, err), w').
       case err of
         Some e \<Rightarrow> Ret (([], Some e), w')
       | None \<Rightarrow> helpers_loop P L outDir order (files @ [result]) w')"

text \<open>\<open>args\<close> are the arguments of the process (which it also prints); \<open>order\<close> is the order the map of files is ranged over.\<close>

definition Generate :: "pkg_errors \<Rightarrow> ('h, 'w) gen_lib \<Rightarrow> string list \<Rightarrow> string list \<Rightarrow> 'w
    \<Rightarrow> ((string list \<times> goerror option) \<times> 'w) go" where
  "Generate P L args order w =
     (if length args < 2 then Panic ''slice bounds out of range''
      else go_bind (parse_flags (drop 2 args) ('''', '''')) (\<lambda>(ver, outDir).
        case lib_CheckVersion L ver of
          Some err \<Rightarrow> Ret (([], Some err), w)
        | None \<Rightarrow> helpers_loop P L outDir order [] w))"

text \<open>
  Two writers that nothing calls any more. They differ only in their titles, and both name a template the
  package does not have; where the caller is unknown they wrap a nil error, which gives nil.
\<close>

definition utility_imports :: "(string \<times> string) list" where
  "utility_imports =
     map (\<lambda>p. ('''', p)) [''fmt'', ''github.com/davecgh/go-spew/spew'', ''context'', ''net/http'', ''reflect'', ''strconv'',
       ''github.com/fabric8-services/fabric8-common/errors'', ''github.com/fabric8-services/fabric8-common/log'',
       ''github.com/fabric8-services/fabric8-common/sentry'', ''github.com/goadesign/goa''] @
     [(''errs'', ''github.com/pkg/errors'')]"

definition write_utility :: "pkg_errors \<Rightarrow> ('h, 'w) gen_lib \<Rightarrow> string \<Rightarrow> string \<Rightarrow> 'w
    \<Rightarrow> ((string list \<times> goerror option) \<times> 'w) go" where
  "write_utility P L title outDir w =
     (let ctxFile = path_Join outDir ''jsonapi_errors_converter.go'';
          failed = (\<lambda>err w. Ret (([], errs_Wrapf P err ''failed to generate the JSON-API Errors helpers''), w))
      in case lib_SourceFileFor L ctxFile w of
           (Inl err, w1) \<Rightarrow> Panic (text_of err)
         | (Inr ctxWr, w1) \<Rightarrow>
             (let w2 = lib_WriteHeader L ctxWr (Sprintf title [VString (lib_Context L)]) ''app'' utility_imports w1 in
              case lib_Caller L of
                None \<Rightarrow> failed None w2
              | Some f \<Rightarrow>
                  (case lib_ReadFile L (path_Join (path_Dir f) ''jsonapi_utility.txt'') w2 of
                     Inl err \<Rightarrow> failed (Some err) w2
                   | Inr body \<Rightarrow>
                       (case lib_Write L ctxWr body w2 of
                          (Some err, w3) \<Rightarrow> failed (Some err) w3
                        | (None, w3) \<Rightarrow> Ret (([ctxFile], None), w3)))))"

definition writeJSONAPIErrorConverterFile :: "pkg_errors \<Rightarrow> ('h, 'w) gen_lib \<Rightarrow> string \<Rightarrow> 'w
    \<Rightarrow> ((string list \<times> goerror option) \<times> 'w) go" where
  "writeJSONAPIErrorConverterFile P L =
     write_utility P L (''%s: functions for JSONAPI Errors - See vendor/fabric8-services/fabric8-common/goasupport/'' @
       ''jsonapi_errors_stringer/generator.go'')"

definition writeJSONAPIErrorHandlerFile :: "pkg_errors \<Rightarrow> ('h, 'w) gen_lib \<Rightarrow> string \<Rightarrow> 'w
    \<Rightarrow> ((string list \<times> goerror option) \<times> 'w) go" where
  "writeJSONAPIErrorHandlerFile P L =
     write_utility P L (''%s: String functions for JSONAPI Errors - See vendor/fabric8-services/fabric8-common/goasupport/'' @
       ''jsonapi_errors_stringer/generator.go'')"

subsection \<open>Writing the status variables\<close>

definition quoted :: "string \<Rightarrow> string" where
  "quoted s = CHR 0x22 # s @ [CHR 0x22]"

definition statusVars :: string where
  "statusVars =
     Join ([''var (''] @ map (\<lambda>l. CHR 0x09 # l)
       [''// Commit current build commit set by build script'',
        ''Commit = '' @ quoted ''0'',
        ''// BuildTime set by build script in ISO 8601 (UTC) format: YYYY-MM-DDThh:mm:ssTZD '' @
        ''(see https://www.w3.org/TR/NOTE-datetime for details)'',
        ''BuildTime = '' @ quoted ''0'',
        ''// StartTime in ISO 8601 (UTC) format'',
        ''StartTime = time.Now().UTC().Format('' @ quoted ''2006-01-02T15:04:05Z'' @ '')''] @ ['')'']) [CHR 0x0A]"

definition status_title :: string where
  "status_title = ''%s: status variables - See vendor/fabric8-services/fabric8-common/goasupport/status/generator.go''"

definition writeStatusVariables :: "('h, 'w) gen_lib \<Rightarrow> string \<Rightarrow> 'w \<Rightarrow> ((string list \<times> goerror option) \<times> 'w) go" where
  "writeStatusVariables L outDir w =
     (let ctxFile = path_Join outDir ''status.go'' in
      case lib_SourceFileFor L ctxFile w of
        (Inl err, w1) \<Rightarrow> Panic (text_of err)
      | (Inr ctxWr, w1) \<Rightarrow>
          (let w2 = lib_WriteHeader L ctxWr (Sprintf status_title [VString (lib_Context L)]) ''app'' [('''', ''time'')] w1 in
           case lib_ExecuteTemplate L ctxWr ''statusVars'' statusVars w2 of
             (Some err, w3) \<Rightarrow> Ret (([], Some err), w3)
           | (None, w3) \<Rightarrow> Ret (([ctxFile], None), w3)))"

definition status_Generate :: "('h, 'w) gen_lib \<Rightarrow> string list \<Rightarrow> 'w \<Rightarrow> ((string list \<times> goerror option) \<times> 'w) go" where
  "status_Generate L args w =
     (if length args < 2 then Panic ''slice bounds out of range''
      else go_bind (parse_flags (drop 2 args) ('''', '''')) (\<lambda>(ver, outDir).
        case lib_CheckVersion L ver of
          Some err \<Rightarrow> Ret (([], Some err), w)
        | None \<Rightarrow> writeStatusVariables L outDir w))"

subsection \<open>The name of the target\<close>

lemma Ext_no_dot: "CHR ''.'' \<notin> set s \<Longrightarrow> Ext s = ''''"
  by (cases s rule: Ext_cases) auto

lemma Ext_append:
  assumes "CHR ''.'' \<notin> set e" and "CHR ''/'' \<notin> set e"
  shows "Ext (s @ CHR ''.'' # e) = CHR ''.'' # e"
proof -
  have "takeWhile (\<lambda>c. c \<noteq> CHR ''.'' \<and> c \<noteq> CHR ''/'') (rev e @ CHR ''.'' # rev s) = rev e"
    using assms by (subst takeWhile_append2) (auto)
  moreover have "dropWhile (\<lambda>c. c \<noteq> CHR ''.'' \<and> c \<noteq> CHR ''/'') (rev e @ CHR ''.'' # rev s) = CHR ''.'' # rev s"
    using assms by (subst dropWhile_append2) auto
  ultimately show ?thesis by (simp add: Ext_def Let_def)
qed

lemma TrimRight_all: "TrimRight (s @ t) cs = TrimRight s cs" if "set t \<subseteq> set cs"
  using that by (simp add: TrimRight_def) (subst dropWhile_append2, auto)

lemma TrimRight_stop: "c \<notin> set cs \<Longrightarrow> TrimRight (s @ [c]) cs = s @ [c]"
  by (simp add: TrimRight_def)

lemma TrimRight_subset: "set (TrimRight s cs) \<subseteq> set s"
  unfolding TrimRight_def by (auto dest: set_dropWhileD)

lemma strip_extensions_done: "CHR ''.'' \<notin> set s \<Longrightarrow> strip_extensions s = s"
  by (subst strip_extensions.simps) (simp add: Ext_no_dot)

lemma strip_extensions_no_ext: "Ext (strip_extensions s) = ''''"
proof (induction s rule: strip_extensions.induct)
  case (1 s)
  then show ?case by (subst strip_extensions.simps) (simp add: Let_def)
qed

lemma strip_go_txt:
  assumes "CHR ''.'' \<notin> set base"
  shows "strip_extensions (base @ ''.go.txt'') = TrimRight base ''go''"
proof -
  have "Ext (base @ ''.go.txt'') = ''.txt''" using Ext_append [of "''txt''" "base @ ''.go''"] by simp
  moreover have "TrimRight (base @ ''.go.txt'') ''.txt'' = base @ ''.go''"
    using TrimRight_all [of "''.txt''" "''.txt''" "base @ ''.go''"] TrimRight_stop [of "CHR ''o''" "''.txt''" "base @ ''.g''"] by simp
  ultimately have 1: "strip_extensions (base @ ''.go.txt'') = strip_extensions (base @ ''.go'')"
    by (subst strip_extensions.simps) (simp add: Let_def)
  have "Ext (base @ ''.go'') = ''.go''" using Ext_append [of "''go''" base] by simp
  moreover have "TrimRight (base @ ''.go'') ''.go'' = TrimRight base ''go''"
  proof -
    have "TrimRight base ''.go'' = TrimRight base ''go''"
      unfolding TrimRight_def using assms by (intro arg_cong [where f = rev] dropWhile_cong) auto
    then show ?thesis using TrimRight_all [of "''.go''" "''.go''" base] by simp
  qed
  ultimately have 2: "strip_extensions (base @ ''.go'') = strip_extensions (TrimRight base ''go'')"
    by (subst strip_extensions.simps) (simp add: Let_def)
  have "CHR ''.'' \<notin> set (TrimRight base ''go'')" using assms TrimRight_subset by blast
  with 1 2 show ?thesis by (simp add: strip_extensions_done)
qed

lemma target_file_eq: "target_file s = strip_extensions s @ ''.go''"
  by (simp add: target_file_def print_arg_def extra_args_def)

text \<open>C40: The loop that computes the name of a generated file ends for every name, on one without an extension.
  A template \<open>base.go.txt\<close> gets the name \<open>base.go\<close> exactly when its base does not end in \<open>g\<close> or \<open>o\<close>: since
  \<open>strings.TrimRight\<close> takes a set of characters, the loop also cuts those off (\<open>demo.go.txt\<close> becomes
  \<open>dem.go\<close>). The four templates of the package are not affected.\<close>

theorem target_file_spec:
  "Ext (strip_extensions name) = '''' \<and>
   (CHR ''.'' \<notin> set base \<longrightarrow> target_file (base @ ''.go.txt'') = TrimRight base ''go'' @ ''.go'') \<and>
   (CHR ''.'' \<notin> set base \<and> base \<noteq> '''' \<longrightarrow>
      (target_file (base @ ''.go.txt'') = base @ ''.go'' \<longleftrightarrow> last base \<notin> {CHR ''g'', CHR ''o''})) \<and>
   target_file ''demo.go.txt'' = ''dem.go'' \<and>
   target_file ''error_handler.go.txt'' = ''error_handler.go'' \<and>
   target_file ''jsonapi_errors_stringer.go.txt'' = ''jsonapi_errors_stringer.go'' \<and>
   target_file ''jsonapi_errors_converter.go.txt'' = ''jsonapi_errors_converter.go'' \<and>
   target_file ''jsonapi_errors_converter_blackbox_test.go.txt'' = ''jsonapi_errors_converter_blackbox_test.go''"
proof (intro conjI impI)
  show "Ext (strip_extensions name) = ''''" by (rule strip_extensions_no_ext)
  show "target_file (base @ ''.go.txt'') = TrimRight base ''go'' @ ''.go''" if "CHR ''.'' \<notin> set base"
    by (simp only: target_file_eq strip_go_txt [OF that])
  show "target_file (base @ ''.go.txt'') = base @ ''.go'' \<longleftrightarrow> last base \<notin> {CHR ''g'', CHR ''o''}"
    if b: "CHR ''.'' \<notin> set base \<and> base \<noteq> ''''"
  proof -
    from b obtain t c where t: "base = t @ [c]" by (cases base rule: rev_cases) simp_all
    have "TrimRight base ''go'' = base \<longleftrightarrow> c \<notin> set ''go''"
      using TrimRight_shrinks [of base "''go''"] TrimRight_stop [of c "''go''" t] by (auto simp: t)
    moreover have "target_file (base @ ''.go.txt'') = TrimRight base ''go'' @ ''.go''"
      unfolding target_file_eq by (subst strip_go_txt) (use b in simp_all)
    ultimately show ?thesis by (simp add: t)
  qed
  have t: "target_file (b @ ''.go.txt'') = TrimRight b ''go'' @ ''.go''" if "CHR ''.'' \<notin> set b" for b
    by (simp only: target_file_eq strip_go_txt [OF that])
  show "target_file ''demo.go.txt'' = ''dem.go''" using t [of "''demo''"] by (simp add: TrimRight_def)
  show "target_file ''error_handler.go.txt'' = ''error_handler.go''" using t [of "''error_handler''"] by (simp add: TrimRight_def)
  show "target_file ''jsonapi_errors_stringer.go.txt'' = ''jsonapi_errors_stringer.go''"
    using t [of "''jsonapi_errors_stringer''"] by (simp add: TrimRight_def)
  show "target_file ''jsonapi_errors_converter.go.txt'' = ''jsonapi_errors_converter.go''"
    using t [of "''jsonapi_errors_converter''"] by (simp add: TrimRight_def)
  show "target_file ''jsonapi_errors_converter_blackbox_test.go.txt'' = ''jsonapi_errors_converter_blackbox_test.go''"
    using t [of "''jsonapi_errors_converter_blackbox_test''"] by (simp add: TrimRight_def)
qed

theorem target_file_spec_witness: "target_file ''dingo.go.txt'' = ''din.go''"
  using target_file_spec [of "''''" "''dingo''"] by (simp add: TrimRight_def)

text \<open>What the generator's libraries do when nothing fails: each template can be read and parsed, its imports
  are a declaration of it, and what is written to a file through \<open>codegen\<close> is recorded in \<open>written\<close>.\<close>

definition gen_ok :: "('h, 'w) gen_lib \<Rightarrow> ('h \<Rightarrow> string) \<Rightarrow> ('w \<Rightarrow> (string \<times> string) list) \<Rightarrow> string
    \<Rightarrow> (string \<Rightarrow> string) \<Rightarrow> (string \<Rightarrow> nat) \<Rightarrow> bool" where
  "gen_ok L path_of written caller content imports_end \<longleftrightarrow>
     lib_Caller L = Some caller \<and>
     (\<forall>f w. lib_ReadFile L (path_Join (path_Dir caller) f) w = Inr (content f)) \<and>
     (\<forall>f. \<exists>g es. lib_ParseFile L f (content f) = Inr g \<and> gf_Decl_Ends g = imports_end f # es \<and> imports_end f \<le> length (content f)) \<and>
     (\<forall>p w. \<exists>h w'. lib_SourceFileFor L p w = (Inr h, w') \<and> path_of h = p \<and> written w' = written w) \<and>
     (\<forall>h t p i w. written (lib_WriteHeader L h t p i w) = written w) \<and>
     (\<forall>h b w. written (snd (lib_Write L h b w)) = written w @ [(path_of h, b)])"

lemma writeFile_ok:
  assumes "gen_ok L path_of written caller content imports_end"
  shows "\<exists>w'. writeFile P L f title outDir w = Ret (('''', None), w') \<and>
    written w' = written w @ [(path_Join outDir (target_file f), drop (imports_end f) (content f))]"
proof -
  obtain g es where g: "lib_ParseFile L f (content f) = Inr g" "gf_Decl_Ends g = imports_end f # es"
    "imports_end f \<le> length (content f)" using assms unfolding gen_ok_def by blast
  obtain h w1 where h: "lib_SourceFileFor L (path_Join outDir (target_file f)) w = (Inr h, w1)"
    "path_of h = path_Join outDir (target_file f)" "written w1 = written w" using assms unfolding gen_ok_def by blast
  have c: "lib_Caller L = Some caller" and r: "lib_ReadFile L (path_Join (path_Dir caller) f) w = Inr (content f)"
    and hd: "\<And>h t p i w. written (lib_WriteHeader L h t p i w) = written w"
    and wr: "\<And>h b w. written (snd (lib_Write L h b w)) = written w @ [(path_of h, b)]"
    using assms unfolding gen_ok_def by blast+
  show ?thesis using g h by (simp add: writeFile_def c r hd wr)
qed

lemma helpers_loop_ok:
  assumes "gen_ok L path_of written caller content imports_end"
  shows "\<exists>w'. helpers_loop P L outDir order files w = Ret ((files @ replicate (length order) '''', None), w') \<and>
    written w' = written w @ map (\<lambda>f. (path_Join outDir (target_file f), drop (imports_end f) (content f))) order"
proof (induction order arbitrary: files w)
  case Nil
  show ?case by simp
next
  case (Cons f fs)
  obtain w1 where w1: "writeFile P L f (case helper_files f of Some title \<Rightarrow> title | None \<Rightarrow> '''') outDir w = Ret (('''', None), w1)"
    "written w1 = written w @ [(path_Join outDir (target_file f), drop (imports_end f) (content f))]"
    using writeFile_ok [OF assms] by blast
  from Cons.IH [of "files @ ['''']" w1] w1 show ?case by auto
qed

text \<open>With the version accepted and the libraries working, the generator writes exactly one file per template,
  in whatever order it ranges over them: under the template's name with \<open>.go\<close> for its extensions, in the
  output directory, what follows the template's imports. The list of names it returns to goa has an
  empty string for every file, since \<open>writeFile\<close> never returns the path. A version that is refused
  writes nothing, and arguments it does not know make it panic.\<close>

theorem generate_spec:
  assumes "gen_ok L path_of written caller content imports_end" and "ranges_over order helper_files"
    and "\<And>v. lib_CheckVersion L v = (if v = version then None else Some err)"
  shows "\<exists>w'. Generate P L [prog, cmd, ''--out'', outDir, ''--version='' @ version] order w =
      Ret (([[], [], [], []], None), w') \<and>
    written w' = written w @ map (\<lambda>f. (path_Join outDir (target_file f), drop (imports_end f) (content f))) order \<and>
    set order = {''error_handler.go.txt'', ''jsonapi_errors_stringer.go.txt'', ''jsonapi_errors_converter.go.txt'',
      ''jsonapi_errors_converter_blackbox_test.go.txt''} \<and>
    (old \<noteq> version \<longrightarrow> Generate P L [prog, cmd, ''--version'', old] order w = Ret (([], Some err), w)) \<and>
    panics (Generate P L [prog, cmd, ''-x''] order w)"
proof -
  have flags: "parse_flags [''--out'', outDir, ''--version='' @ version] ('''', '''') = Ret (version, outDir)"
    "parse_flags [''--version'', old] ('''', '''') = Ret (old, '''')" "parse_flags [''-x''] ('''', '''') = Panic ''flag provided but not defined''"
    by (simp_all add: set_flag_def Let_def)
  have dom: "dom helper_files = {''error_handler.go.txt'', ''jsonapi_errors_stringer.go.txt'', ''jsonapi_errors_converter.go.txt'',
      ''jsonapi_errors_converter_blackbox_test.go.txt''}"
    by (auto simp: helper_files_def)
  then have "card (dom helper_files) = 4" by simp
  with ranges_over_length [OF assms(2)] have len: "replicate (length order) '''' = ['''', '''', '''', '''']"
    by (simp add: numeral_eq_Suc)
  obtain w' where "helpers_loop P L outDir order [] w = Ret (([] @ replicate (length order) '''', None), w')"
    "written w' = written w @ map (\<lambda>f. (path_Join outDir (target_file f), drop (imports_end f) (content f))) order"
    using helpers_loop_ok [OF assms(1)] by blast
  then show ?thesis
    using assms(2) by (intro exI [of _ w']) (simp add: Generate_def flags [unfolded append.simps] assms(3) len dom ranges_over_def del: parse_flags.simps)
qed

text \<open>A generator whose state is the list of what was written; every template ends its imports at its third byte.\<close>

definition plain_gen :: "(string, (string \<times> string) list) gen_lib" where
  "plain_gen =
     \<lparr>lib_CheckVersion = (\<lambda>v. if v = ''1'' then None else Some (std_errors_New ''version'')), lib_Context = ''API'',
      lib_Caller = Some ''/src/generator.go'', lib_ReadFile = (\<lambda>f w. Inr ''abcdef''),
      lib_ParseFile = (\<lambda>f c. Inr \<lparr>gf_Imports = [], gf_Decl_Ends = [3]\<rparr>), lib_SourceFileFor = (\<lambda>p w. (Inr p, w)),
      lib_WriteHeader = (\<lambda>h t p i w. w), lib_Write = (\<lambda>h b w. (None, w @ [(h, b)])), lib_ExecuteTemplate = (\<lambda>h n t w. (None, w))\<rparr>"

lemma plain_gen_ok: "gen_ok plain_gen (\<lambda>h. h) (\<lambda>w. w) ''/src/generator.go'' (\<lambda>f. ''abcdef'') (\<lambda>f. 3)"
  by (simp add: gen_ok_def plain_gen_def)

theorem generate_spec_witness:
  "\<exists>w'. Generate documented_errs plain_gen [''goagen'', ''gen'', ''--out'', ''app'', ''--version=1'']
      [''error_handler.go.txt'', ''jsonapi_errors_stringer.go.txt'', ''jsonapi_errors_converter.go.txt'',
       ''jsonapi_errors_converter_blackbox_test.go.txt''] [] = Ret (([[], [], [], []], None), w') \<and> length w' = 4"
proof -
  let ?order = "[''error_handler.go.txt'', ''jsonapi_errors_stringer.go.txt'', ''jsonapi_errors_converter.go.txt'',
       ''jsonapi_errors_converter_blackbox_test.go.txt'']"
  have r: "ranges_over ?order helper_files" by (auto simp: ranges_over_def helper_files_def)
  have v: "lib_CheckVersion plain_gen v = (if v = ''1'' then None else Some (std_errors_New ''version''))" for v
    by (simp add: plain_gen_def)
  obtain w' where "Generate documented_errs plain_gen [''goagen'', ''gen'', ''--out'', ''app'', ''--version='' @ ''1''] ?order [] =
      Ret (([[], [], [], []], None), w')"
    "w' = [] @ map (\<lambda>f. (path_Join ''app'' (target_file f), drop 3 ''abcdef'')) ?order"
    using generate_spec [OF plain_gen_ok r v, of documented_errs "''goagen''" "''gen''" "''app''" "[]"] by blast
  then show ?thesis by auto
qed

end
