(* ===== verification/Utilities.thy ===== *)
theory Utilities
  imports Log Resource
begin

section \<open>Small packages: \<open>closeable\<close>, \<open>convert/ptr\<close>, \<open>gocksupport\<close>\<close>

text \<open>
  Closing a resource with its error logged, pointers to fresh copies of values, a counting matcher for
  mocked HTTP calls, and the configuration and life cycle of the repository's own test database.
\<close>

subsection \<open>\<open>closeable.Close\<close>\<close>

text \<open>
  An \<open>io.Closer\<close>: the nil interface, a value of a kind that can be nil (whether it is, and what its \<open>Close\<close>
  answers), or a value of another kind, a struct for example, on which \<open>reflect.Value.IsNil\<close> panics.
\<close>

datatype closer = NilCloser | Nilable bool "goerror option" | NotNilable "goerror option"

text \<open>The result says whether \<open>c.Close\<close> was called.\<close>

definition closer_Close :: "('c, 'm) log_env \<Rightarrow> 'c option \<Rightarrow> closer \<Rightarrow> log_state \<Rightarrow> (bool \<times> log_state) go" where
  "closer_Close env ctx c st =
     (case c of
        NilCloser \<Rightarrow> Ret (False, st)
      | NotNilable err \<Rightarrow> Panic ''reflect: call of reflect.Value.IsNil on struct Value''
      | Nilable isNil err \<Rightarrow>
          if isNil then Ret (False, st)
          else (case err of
                  None \<Rightarrow> Ret (True, st)
                | Some e \<Rightarrow>
                    go_bind (Error e) (\<lambda>msg.
                    go_bind (log_Error env ctx [''error'' \<mapsto> fstr msg] ''error while closing the resource'' [] st) (\<lambda>st'.
                    Ret (True, st')))))"

subsection \<open>\<open>convert/ptr\<close>\<close>

text \<open>
  Every function of the package copies its argument into a new variable and returns its address; they differ
  in the type only. Variables of one type are a list, an address is an index of it.
\<close>

definition ptr :: "'a \<Rightarrow> 'a list \<Rightarrow> nat \<times> 'a list" where
  "ptr o' vars = (length vars, vars @ [o'])"

subsection \<open>\<open>gocksupport\<close>\<close>

text \<open>The variable \<open>counter\<close> points to is threaded through the calls of the match function.\<close>

definition spyOnCallsMatchFunc :: "'req \<Rightarrow> int \<Rightarrow> (bool \<times> goerror option) \<times> int" where
  "spyOnCallsMatchFunc req counter = ((True, None), counter + 1)"

text \<open>\<open>gock.NewBasicMatcher\<close> starts with matchers of its own; a matcher matches when all its functions do, and stops at
  the first that does not.\<close>

fun match_all :: "('req \<Rightarrow> 's \<Rightarrow> (bool \<times> goerror option) \<times> 's) list \<Rightarrow> 'req \<Rightarrow> 's \<Rightarrow> (bool \<times> goerror option) \<times> 's" where
  "match_all [] req s = ((True, None), s)"
| "match_all (f # fs) req s =
     (case f req s of
        ((ok, Some err), s') \<Rightarrow> ((False, Some err), s')
      | ((ok, None), s') \<Rightarrow> if \<not> ok then ((False, None), s') else match_all fs req s')"

definition SpyOnCalls :: "('req \<Rightarrow> bool \<times> goerror option) list \<Rightarrow> 'req \<Rightarrow> int \<Rightarrow> (bool \<times> goerror option) \<times> int" where
  "SpyOnCalls basic = match_all (map (\<lambda>f req s. (f req, s)) basic @ [spyOnCallsMatchFunc])"

subsection \<open>Lemmas\<close>

lemma ptr_fresh: "fst (ptr x vars) = length vars" "snd (ptr x vars) ! fst (ptr x vars) = x"
  "i < length vars \<Longrightarrow> snd (ptr x vars) ! i = vars ! i"
  by (simp_all add: ptr_def nth_append)

lemma spy_counts_matches:
  "SpyOnCalls basic req n =
     (case fst (match_all (map (\<lambda>f req s. (f req, s)) basic) req n) of (True, None) \<Rightarrow> ((True, None), n + 1) | r \<Rightarrow> (r, n))"
  unfolding SpyOnCalls_def
  by (induction basic) (auto simp: spyOnCallsMatchFunc_def split: option.split prod.split)

text \<open>\<open>Close\<close> closes every resource that is there, once, and never panics over one that is not: neither a nil
  interface nor a nil pointer in it is closed. An error of \<open>Close\<close> goes to the error log with its text,
  and nowhere else. But a resource whose type cannot be nil is not closed at all: looking whether
  it is nil panics.\<close>

theorem close_spec:
  assumes "good_caller (env_caller env)" and "\<forall>c. ctx = Some c \<longrightarrow> readable_identity (env_G env) c"
    and "\<And>e. err = Some e \<Longrightarrow> Error e = Ret (text_of e)"
  shows "closer_Close env ctx NilCloser st = Ret (False, st) \<and>
    closer_Close env ctx (Nilable True err) st = Ret (False, st) \<and>
    (\<exists>c. closer_Close env ctx (Nilable False err) st =
        Ret (True, if err \<noteq> None \<and> ErrorLevel \<le> lg_Level (own st) then emit c st else st) \<and>
      (\<forall>e. err = Some e \<longrightarrow> entry_ok ErrorLevel True (env_G env) ctx [''error'' \<mapsto> fstr (text_of e)] ''error while closing the resource'' [] c)) \<and>
    panics (closer_Close env ctx (NotNilable err) st)"
proof (intro conjI)
  show "\<exists>c. closer_Close env ctx (Nilable False err) st =
      Ret (True, if err \<noteq> None \<and> ErrorLevel \<le> lg_Level (own st) then emit c st else st) \<and>
    (\<forall>e. err = Some e \<longrightarrow> entry_ok ErrorLevel True (env_G env) ctx [''error'' \<mapsto> fstr (text_of e)] ''error while closing the resource'' [] c)"
  proof (cases err)
    case None
    then show ?thesis by (simp add: closer_Close_def)
  next
    case (Some e)
    with log_Error_entry [OF assms(1,2), of "[''error'' \<mapsto> fstr (text_of e)]" "''error while closing the resource''" "[]" st] assms(3)
    show ?thesis by (auto simp: closer_Close_def)
  qed
qed (simp_all add: closer_Close_def)

theorem close_spec_witness:
  "panics (closer_Close (ex_env None) (Some background) (NotNilable None) (ex_logger InfoLevel)) \<and>
   closer_Close (ex_env None) (Some background) (Nilable False None) (ex_logger InfoLevel) = Ret (True, ex_logger InfoLevel)"
  using close_spec [of "ex_env None" "Some background" None "ex_logger InfoLevel"]
  by (simp add: ex_env_def good_caller_def background_readable)

end
