(* ===== verification/Jsonapi.thy ===== *)
theory Jsonapi
  imports Log
begin

section \<open>Errors as JSON-API documents: the templates of \<open>goasupport/jsonapi_errors_helpers\<close>\<close>

text \<open>
  The files \<open>jsonapi_errors_converter.go.txt\<close> and \<open>error_handler.go.txt\<close> are Go source that the generator
  copies into a service. They turn the repository's errors into the documents a service answers with. The types
  \<open>JSONAPIError\<close> and \<open>JSONAPIErrors\<close> are generated there from the service's design; the fields the templates fill are
  the record below, and a document is its list of errors. The parameter \<open>goa_errors\<close> has what only goes to the log (what
  \<open>reflect.TypeOf\<close> and the verb \<open>%+v\<close> make of an error, and what a document prints), goa's own media type, and
  \<open>service.Send\<close>, which writes a status and a document to a response.
\<close>

definition ErrorCodeNotFound :: string where "ErrorCodeNotFound = ''not_found''"
definition ErrorCodeBadParameter :: string where "ErrorCodeBadParameter = ''bad_parameter''"
definition ErrorCodeVersionConflict :: string where "ErrorCodeVersionConflict = ''version_conflict''"
definition ErrorCodeUnknownError :: string where "ErrorCodeUnknownError = ''unknown_error''"
definition ErrorCodeConversionError :: string where "ErrorCodeConversionError = ''conversion_error''"
definition ErrorCodeInternalError :: string where "ErrorCodeInternalError = ''internal_error''"
definition ErrorCodeUnauthorizedError :: string where "ErrorCodeUnauthorizedError = ''unauthorized_error''"
definition ErrorCodeForbiddenError :: string where "ErrorCodeForbiddenError = ''forbidden_error''"
definition ErrorCodeDataConflict :: string where "ErrorCodeDataConflict = ''data_conflict_error''"

record JSONAPIError =
  ja_ID :: "string option"
  ja_Code :: "string option"
  ja_Status :: "string option"
  ja_Title :: "string option"
  ja_Detail :: string

type_synonym JSONAPIErrors = "JSONAPIError list"

record 'c goa_errors =
  el_TypeOf :: "goerror \<Rightarrow> gval"
  el_plus_v :: "goerror \<Rightarrow> string"
  el_body :: "JSONAPIErrors \<Rightarrow> gval"
  el_ErrorMediaIdentifier :: string
  el_Send :: "'c \<Rightarrow> int \<Rightarrow> JSONAPIErrors \<Rightarrow> goa_response \<Rightarrow> goerror option \<times> goa_response"

text \<open>\<open>http.StatusText\<close>, the empty string for a code it does not know.\<close>

definition status_texts :: "(int \<times> string) list" where
  "status_texts =
    [(100, ''Continue''), (101, ''Switching Protocols''), (102, ''Processing''),
     (200, ''OK''), (201, ''Created''), (202, ''Accepted''), (203, ''Non-Authoritative Information''),
     (204, ''No Content''), (205, ''Reset Content''), (206, ''Partial Content''), (207, ''Multi-Status''),
     (208, ''Already Reported''), (226, ''IM Used''),
     (300, ''Multiple Choices''), (301, ''Moved Permanently''), (302, ''Found''), (303, ''See Other''),
     (304, ''Not Modified''), (305, ''Use Proxy''), (307, ''Temporary Redirect''), (308, ''Permanent Redirect''),
     (400, ''Bad Request''), (401, ''Unauthorized''), (402, ''Payment Required''), (403, ''Forbidden''),
     (404, ''Not Found''), (405, ''Method Not Allowed''), (406, ''Not Acceptable''),
     (407, ''Proxy Authentication Required''), (408, ''Request Timeout''), (409, ''Conflict''), (410, ''Gone''),
     (411, ''Length Required''), (412, ''Precondition Failed''), (413, ''Request Entity Too Large''),
     (414, ''Request URI Too Long''), (415, ''Unsupported Media Type''), (416, ''Requested Range Not Satisfiable''),
     (417, ''Expectation Failed''), (418, ''I'' @ [CHR 0x27] @ ''m a teapot''), (421, ''Misdirected Request''),
     (422, ''Unprocessable Entity''), (423, ''Locked''), (424, ''Failed Dependency''), (426, ''Upgrade Required''),
     (428, ''Precondition Required''), (429, ''Too Many Requests''), (431, ''Request Header Fields Too Large''),
     (451, ''Unavailable For Legal Reasons''),
     (500, ''Internal Server Error''), (501, ''Not Implemented''), (502, ''Bad Gateway''), (503, ''Service Unavailable''),
     (504, ''Gateway Timeout''), (505, ''HTTP Version Not Supported''), (506, ''Variant Also Negotiates''),
     (507, ''Insufficient Storage''), (508, ''Loop Detected''), (510, ''Not Extended''),
     (511, ''Network Authentication Required'')]"

definition StatusText :: "int \<Rightarrow> string" where
  "StatusText code = (case map_of status_texts code of None \<Rightarrow> '''' | Some s \<Rightarrow> s)"

subsection \<open>The converter\<close>

text \<open>The switch over the type of the cause: code, title, status, and what the default branch does to ID and detail.\<close>

definition classify :: "goerror \<Rightarrow> string \<Rightarrow> string \<times> string \<times> int \<times> string option \<times> string" where
  "classify cause detail =
     (case cause of
        NotFoundError _ \<Rightarrow> (ErrorCodeNotFound, ''Not found error'', StatusNotFound, None, detail)
      | ConversionError _ \<Rightarrow> (ErrorCodeConversionError, ''Conversion error'', StatusBadRequest, None, detail)
      | BadParameterError _ \<Rightarrow> (ErrorCodeBadParameter, ''Bad parameter error'', StatusBadRequest, None, detail)
      | VersionConflictError _ \<Rightarrow> (ErrorCodeVersionConflict, ''Version conflict error'', StatusConflict, None, detail)
      | DataConflictError _ \<Rightarrow> (ErrorCodeDataConflict, ''Data conflict error'', StatusConflict, None, detail)
      | InternalError _ \<Rightarrow> (ErrorCodeInternalError, ''Internal error'', StatusInternalServerError, None, detail)
      | UnauthorizedError _ \<Rightarrow> (ErrorCodeUnauthorizedError, ''Unauthorized error'', StatusUnauthorized, None, detail)
      | ForbiddenError _ \<Rightarrow> (ErrorCodeForbiddenError, ''Forbidden error'', StatusForbidden, None, detail)
      | GoaError g \<Rightarrow>
          (case ge_response g of
             None \<Rightarrow> (ErrorCodeUnknownError, StatusText (ge_status g), ge_status g, Some (ge_token g), detail)
           | Some (code, det) \<Rightarrow> (code, StatusText (ge_status g), ge_status g, Some (ge_token g), det))
      | _ \<Rightarrow> (ErrorCodeUnknownError, ''Unknown error'', StatusInternalServerError, None, detail))"

definition error_val :: "goerror \<Rightarrow> fval" where
  "error_val e = FVal (VForeign ''error'' (text_of e) (text_of e))"

definition ErrorToJSONAPIError :: "('c, 'm) log_env \<Rightarrow> 'c goa_errors \<Rightarrow> 'c option \<Rightarrow> goerror option \<Rightarrow> log_state
    \<Rightarrow> ((JSONAPIError \<times> int) \<times> log_state) go" where
  "ErrorToJSONAPIError env L ctx err st =
     (case errs_Cause (env_P env) err of
        None \<Rightarrow> Panic ''nil pointer dereference''
      | Some cause \<Rightarrow>
          go_bind (Error cause) (\<lambda>detail.
          go_bind (log_Error env ctx [''err'' \<mapsto> error_val cause, ''error_message'' \<mapsto> fstr detail, ''err_type'' \<mapsto> FVal (el_TypeOf L cause)]
            ''an error occurred in our api'' [] st) (\<lambda>st1.
          let (code, title, statusCode, ident, detail') = classify cause detail
          in Ret ((\<lparr>ja_ID = ident, ja_Code = Some code, ja_Status = Some (itoa statusCode), ja_Title = Some title,
                    ja_Detail = detail'\<rparr>, statusCode), st1))))"

definition ErrorToJSONAPIErrors :: "('c, 'm) log_env \<Rightarrow> 'c goa_errors \<Rightarrow> 'c option \<Rightarrow> goerror option \<Rightarrow> log_state
    \<Rightarrow> ((JSONAPIErrors \<times> int) \<times> log_state) go" where
  "ErrorToJSONAPIErrors env L ctx err st =
     go_bind (ErrorToJSONAPIError env L ctx err st) (\<lambda>((jerr, httpStatusCode), st1).
       Ret (([] @ [jerr], httpStatusCode), st1))"

text \<open>
  The context of a goa action with the answers it can give: only \<open>InternalServerError\<close> is required, the
  others are type assertions that may fail. An answer acts on the connection \<open>'w\<close>.
\<close>

type_synonym 'w answer = "JSONAPIErrors \<Rightarrow> 'w \<Rightarrow> goerror option \<times> 'w"

record ('c, 'w) action_context =
  ac_ctx :: 'c
  ac_InternalServerError :: "'w answer"
  ac_BadRequest :: "'w answer option"
  ac_NotFound :: "'w answer option"
  ac_Unauthorized :: "'w answer option"
  ac_Forbidden :: "'w answer option"
  ac_Conflict :: "'w answer option"

definition select_answer :: "('c, 'w) action_context \<Rightarrow> int \<Rightarrow> 'w answer" where
  "select_answer ctx status =
     (let chosen = (if status = StatusBadRequest then ac_BadRequest ctx
          else if status = StatusNotFound then ac_NotFound ctx
          else if status = StatusUnauthorized then ac_Unauthorized ctx
          else if status = StatusForbidden then ac_Forbidden ctx
          else if status = StatusConflict then ac_Conflict ctx
          else None)
      in case chosen of Some answer \<Rightarrow> answer | None \<Rightarrow> ac_InternalServerError ctx)"

definition JSONErrorResponse :: "('c, 'm) log_env \<Rightarrow> 'c goa_errors \<Rightarrow> ('c, 'w) action_context \<Rightarrow> goerror option
    \<Rightarrow> 'w \<Rightarrow> log_state \<Rightarrow> (goerror option \<times> 'w \<times> log_state) go" where
  "JSONErrorResponse env L ctx err w st =
     go_bind (ErrorToJSONAPIErrors env L (Some (ac_ctx ctx)) err st) (\<lambda>((jsonErr, status), st1).
       let (r, w') = select_answer ctx status jsonErr w in Ret (r, w', st1))"

subsection \<open>The error handler\<close>

definition ErrorMediaIdentifier :: string where "ErrorMediaIdentifier = ''application/vnd.api+json''"

text \<open>
  The middleware. The response writer it is given is the response data goa keeps in the context, as in
  \<open>LogRequest\<close>. The context's value
  under the number 1 stands for the request ID, and \<open>bytes\<close> for the random bytes of a new one.
\<close>

definition hackKey :: ctx_key where "hackKey = (''int'', 1)"

definition set_content_type :: "string \<Rightarrow> goa_response \<Rightarrow> goa_response" where
  "set_content_type m resp = resp\<lparr>rp_Header := header_Set (rp_Header resp) ''Content-Type'' m\<rparr>"

definition uncaught :: "('c, 'm) log_env \<Rightarrow> 'c goa_errors
    \<Rightarrow> bool \<Rightarrow> char \<times> char \<times> char \<times> char \<times> char \<times> char \<Rightarrow> 'c \<Rightarrow> goerror \<Rightarrow> JSONAPIErrors \<Rightarrow> int \<Rightarrow> goa_response \<Rightarrow> log_state
    \<Rightarrow> ('c \<times> JSONAPIErrors \<times> int \<times> goa_response \<times> log_state) go" where
  "uncaught env L verbose bytes ctx e respBody status resp st =
     (let G = env_G env; P = env_P env;
          v = stored_val (ctx_Value G ctx hackKey);
          reqID = (if v = VNil then VString (shortID bytes) else v);
          ctx1 = (if v = VNil then ctx_WithValue G ctx hackKey (AValue reqID) else ctx)
      in go_bind (log_Error env (Some ctx1)
             [''msg'' \<mapsto> FVal (el_body L respBody), ''err'' \<mapsto> fstr (el_plus_v L e)]
             ''uncaught error detected in ErrorHandler'' [] st) (\<lambda>st1.
         if \<not> verbose then
           (let resp1 = set_content_type (el_ErrorMediaIdentifier L) resp;
                msg = NewInternalError (Some (errs_New P (Sprintf ''%s [%s]'' [VString (StatusText StatusInternalServerError), reqID])))
            in go_bind (ErrorToJSONAPIErrors env L (Some ctx1) (Some msg) st1) (\<lambda>((body1, status1), st2).
               if \<not> ContextHasResponse G ctx1 then Panic ''nil pointer dereference''
               else if rp_ErrorCode resp1 \<noteq> '''' then Panic ''interface conversion''
               else Ret (ctx1, body1, status1, resp1, st2)))
         else Ret (ctx1, respBody, status, resp, st1)))"

definition ErrorHandler :: "('c, 'm) log_env \<Rightarrow> 'c goa_errors
    \<Rightarrow> bool \<Rightarrow> char \<times> char \<times> char \<times> char \<times> char \<times> char
    \<Rightarrow> 'c handler \<Rightarrow> 'c handler" where
  "ErrorHandler env L verbose bytes h ctx req resp st =
     go_bind (h ctx req resp st) (\<lambda>(e, resp0, st0).
       case e of
         None \<Rightarrow> Ret (None, resp0, st0)
       | Some err \<Rightarrow>
           (let cause = errs_Cause (env_P env) (Some err) in
            go_bind (ErrorToJSONAPIErrors env L (Some ctx) (Some err) st0) (\<lambda>((respBody, status0), st1).
            let resp1 = set_content_type ErrorMediaIdentifier resp0 in
            go_bind (case cause of
                 Some (GoaError g) \<Rightarrow>
                   if \<not> ContextHasResponse (env_G env) ctx then Panic ''nil pointer dereference''
                   else Ret (ge_status g, resp1\<lparr>rp_ErrorCode := ge_token g\<rparr>)
               | _ \<Rightarrow> Ret (status0, resp1)) (\<lambda>(status, resp2).
            go_bind (if 500 \<le> status \<and> status < 600
                     then uncaught env L verbose bytes ctx err respBody status resp2 st1
                     else Ret (ctx, respBody, status, resp2, st1)) (\<lambda>(ctx1, body, status1, resp3, st2).
            let (r, resp4) = el_Send L ctx1 status1 body resp3 in Ret (r, resp4, st2))))))"

subsection \<open>Printing documents\<close>

text \<open>
  \<open>jsonapi_errors_stringer.go.txt\<close>: every field goes through \<open>spew.Sdump\<close>, a parameter; the last three of its functions stand for the
  fields of the generated type that the templates leave alone. A nil list of errors is \<open>None\<close>.
\<close>

record spew_lib =
  Sdump_pointer :: "string option \<Rightarrow> string"
  Sdump_string :: "string \<Rightarrow> string"
  Sdump_Links :: "JSONAPIError \<Rightarrow> string"
  Sdump_Meta :: "JSONAPIError \<Rightarrow> string"
  Sdump_Source :: "JSONAPIError \<Rightarrow> string"

definition JSONAPIError_String :: "spew_lib \<Rightarrow> JSONAPIError \<Rightarrow> string" where
  "JSONAPIError_String S ut =
     (let line = (\<lambda>label v. CHR 0x0A # CHR 0x09 # CHR 0x09 # label @ v) in
      ''Code:    '' @ Sdump_pointer S (ja_Code ut) @ line ''Detail:  '' (Sdump_string S (ja_Detail ut)) @
      line ''ID:      '' (Sdump_pointer S (ja_ID ut)) @ line ''Links:   '' (Sdump_Links S ut) @
      line ''Meta:    '' (Sdump_Meta S ut) @ line ''Source:  '' (Sdump_Source S ut) @
      line ''Status:  '' (Sdump_pointer S (ja_Status ut)) @ line ''Title:   '' (Sdump_pointer S (ja_Title ut)))"

text \<open>The verb \<open>%3d\<close> pads with spaces on the left.\<close>

definition pad3 :: "nat \<Rightarrow> string" where
  "pad3 i = replicate (3 - length (nat_digits i)) (CHR '' '') @ nat_digits i"

fun string_loop :: "spew_lib \<Rightarrow> nat \<Rightarrow> JSONAPIErrors \<Rightarrow> string \<Rightarrow> string" where
  "string_loop S i [] res = res"
| "string_loop S i (e # es) res =
     string_loop S (i + 1) es (res @ ''[ERROR No. '' @ pad3 i @ '']: '' @ JSONAPIError_String S e @ [CHR 0x0A])"

definition JSONAPIErrors_String :: "spew_lib \<Rightarrow> JSONAPIErrors option \<Rightarrow> string" where
  "JSONAPIErrors_String S mt =
     (case mt of
        None \<Rightarrow> ''''
      | Some es \<Rightarrow> string_loop S 0 es (nat_digits (length es) @ '' JSONAPI Error(s):'' @ [CHR 0x0A]))"

lemma JSONAPIErrors_String_entries:
  "JSONAPIErrors_String S (Some es) = nat_digits (length es) @ '' JSONAPI Error(s):'' @ [CHR 0x0A] @
     concat (map (\<lambda>(i, e). ''[ERROR No. '' @ pad3 i @ '']: '' @ JSONAPIError_String S e @ [CHR 0x0A]) (enumerate 0 es))"
proof -
  have "string_loop S i es res = res @
      concat (map (\<lambda>(i, e). ''[ERROR No. '' @ pad3 i @ '']: '' @ JSONAPIError_String S e @ [CHR 0x0A]) (enumerate i es))" for i res
    by (induction es arbitrary: i res) simp_all
  then show ?thesis by (simp add: JSONAPIErrors_String_def)
qed

subsection \<open>Lemmas\<close>

text \<open>The document of a cause with its text, and its status.\<close>

definition document :: "goerror \<Rightarrow> string \<Rightarrow> JSONAPIError" where
  "document cause detail =
     (let (code, title, statusCode, ident, detail') = classify cause detail
      in \<lparr>ja_ID = ident, ja_Code = Some code, ja_Status = Some (itoa statusCode), ja_Title = Some title, ja_Detail = detail'\<rparr>)"

definition status_of :: "goerror \<Rightarrow> int" where
  "status_of cause = fst (snd (snd (classify cause '''')))"

lemma classify_status: "fst (snd (snd (classify cause detail))) = status_of cause"
  unfolding status_of_def classify_def by (cases cause) (auto split: option.split)

lemma log_Error_returns:
  assumes "good_caller (env_caller env)" and "\<forall>c. ctx = Some c \<longrightarrow> readable_identity (env_G env) c"
  shows "\<exists>st'. log_Error env ctx kvs f a st = Ret st'"
  using log_Error_entry [OF assms, of kvs f a st] by blast

lemma converter_returns:
  assumes "good_caller (env_caller env)" and "\<forall>c. ctx = Some c \<longrightarrow> readable_identity (env_G env) c"
    and "errs_Cause (env_P env) err = Some c" and "Error c = Ret d"
  shows "\<exists>st'. ErrorToJSONAPIError env L ctx err st = Ret ((document c d, status_of c), st')"
    and "\<exists>st'. ErrorToJSONAPIErrors env L ctx err st = Ret (([document c d], status_of c), st')"
proof -
  obtain st' where "log_Error env ctx [''err'' \<mapsto> error_val c, ''error_message'' \<mapsto> fstr d, ''err_type'' \<mapsto> FVal (el_TypeOf L c)]
            ''an error occurred in our api'' [] st = Ret st'"
    using log_Error_returns [OF assms(1,2)] by blast
  then show *: "\<exists>st'. ErrorToJSONAPIError env L ctx err st = Ret ((document c d, status_of c), st')"
    by (auto simp: ErrorToJSONAPIError_def assms(3,4) document_def split_beta Let_def classify_status)
  then show "\<exists>st'. ErrorToJSONAPIErrors env L ctx err st = Ret (([document c d], status_of c), st')"
    by (auto simp: ErrorToJSONAPIErrors_def)
qed

lemma document_fields:
  "ja_Status (document c d) = Some (itoa (status_of c))"
  "c \<notin> range GoaError \<Longrightarrow> ja_Detail (document c d) = d"
  unfolding document_def by (auto simp: split_beta Let_def classify_status) (auto simp: classify_def split: goerror.split)

lemma status_of_kind:
  assumes "c \<notin> range GoaError"
  shows "status_of c = 404 \<longleftrightarrow> c \<in> range NotFoundError"
    and "status_of c = 400 \<longleftrightarrow> c \<in> range BadParameterError \<union> range ConversionError"
    and "status_of c = 409 \<longleftrightarrow> c \<in> range VersionConflictError \<union> range DataConflictError"
    and "status_of c = 401 \<longleftrightarrow> c \<in> range UnauthorizedError"
    and "status_of c = 403 \<longleftrightarrow> c \<in> range ForbiddenError"
    and "status_of c \<in> {400, 401, 403, 404, 409, 500}"
proof -
  have "c \<noteq> GoaError g" for g using assms by blast
  note facts = this status_of_def classify_def http_status_defs
  show "status_of c = 404 \<longleftrightarrow> c \<in> range NotFoundError" by (cases c) (auto simp: facts)
  show "status_of c = 400 \<longleftrightarrow> c \<in> range BadParameterError \<union> range ConversionError" by (cases c) (auto simp: facts)
  show "status_of c = 409 \<longleftrightarrow> c \<in> range VersionConflictError \<union> range DataConflictError" by (cases c) (auto simp: facts)
  show "status_of c = 401 \<longleftrightarrow> c \<in> range UnauthorizedError" by (cases c) (auto simp: facts)
  show "status_of c = 403 \<longleftrightarrow> c \<in> range ForbiddenError" by (cases c) (auto simp: facts)
  show "status_of c \<in> {400, 401, 403, 404, 409, 500}" by (cases c) (auto simp: facts)
qed

subsection \<open>The properties\<close>


text \<open>The error handler returns what \<open>Send\<close> answers; this is the response it hands over.\<close>

definition sends :: "'c goa_errors \<Rightarrow> 'c \<Rightarrow> int \<Rightarrow> JSONAPIErrors \<Rightarrow> goa_response
    \<Rightarrow> (goerror option \<times> goa_response \<times> log_state) go \<Rightarrow> bool" where
  "sends L ctx status body resp out \<longleftrightarrow>
     (\<exists>st'. out = Ret (fst (el_Send L ctx status body resp), snd (el_Send L ctx status body resp), st'))"

text \<open>The document that hides an error: only an ID the log has too.\<close>

definition anonymous :: "string \<Rightarrow> JSONAPIError" where
  "anonymous i = \<lparr>ja_ID = None, ja_Code = Some ''internal_error'', ja_Status = Some ''500'', ja_Title = Some ''Internal error'',
     ja_Detail = ''Internal Server Error ['' @ i @ '']''\<rparr>"

lemma document_anonymous:
  assumes "pkg_errors_ok P"
  shows "errs_Cause P (Some (NewInternalError (Some (errs_New P (Sprintf ''%s [%s]'' [VString (StatusText 500), VString i])))))
      = Some (NewInternalError (Some (errs_New P (Sprintf ''%s [%s]'' [VString (StatusText 500), VString i]))))"
    and "Error (NewInternalError (Some (errs_New P (Sprintf ''%s [%s]'' [VString (StatusText 500), VString i]))))
      = Ret (''Internal Server Error ['' @ i @ '']'')"
    and "document (NewInternalError e) (''Internal Server Error ['' @ i @ '']'') = anonymous i"
    and "status_of (NewInternalError e) = 500"
proof -
  show "errs_Cause P (Some (NewInternalError (Some (errs_New P (Sprintf ''%s [%s]'' [VString (StatusText 500), VString i])))))
      = Some (NewInternalError (Some (errs_New P (Sprintf ''%s [%s]'' [VString (StatusText 500), VString i]))))"
    by (rule cause_self [OF assms]) (simp add: NewInternalError_def)
  obtain t where "errs_New P (Sprintf ''%s [%s]'' [VString (StatusText 500), VString i]) =
      ForeignError t (Sprintf ''%s [%s]'' [VString (StatusText 500), VString i]) None"
    using New_foreign [OF assms] by blast
  then show "Error (NewInternalError (Some (errs_New P (Sprintf ''%s [%s]'' [VString (StatusText 500), VString i]))))
      = Ret (''Internal Server Error ['' @ i @ '']'')"
    by (simp add: NewInternalError_def StatusText_def status_texts_def print_arg_def extra_args_def)
  show "document (NewInternalError e) (''Internal Server Error ['' @ i @ '']'') = anonymous i" "status_of (NewInternalError e) = 500"
    by (simp_all add: document_def classify_def NewInternalError_def anonymous_def ErrorCodeInternalError_def
        StatusInternalServerError_def status_of_def itoa_def nat_digits.simps digit_char_def)
qed

text \<open>The part for errors of the server, on a response \<open>resp\<close>: the ID is the one in the context, if any.\<close>

definition error_id :: "('c, 'm) goa_lib \<Rightarrow> char \<times> char \<times> char \<times> char \<times> char \<times> char \<Rightarrow> 'c \<Rightarrow> string option" where
  "error_id G bytes ctx =
     (case stored_val (ctx_Value G ctx hackKey) of VNil \<Rightarrow> Some (shortID bytes) | v \<Rightarrow> as_string v)"

lemma uncaught_returns:
  assumes "pkg_errors_ok (env_P env)" and "good_caller (env_caller env)" and "goa_ok (env_G env)"
    and "readable_identity (env_G env) ctx" and "ContextHasResponse (env_G env) ctx" and "error_id (env_G env) bytes ctx = Some i"
  shows "verbose \<Longrightarrow> \<exists>ctx1 st1. uncaught env L verbose bytes ctx e body status resp st = Ret (ctx1, body, status, resp, st1)"
    and "\<not> verbose \<Longrightarrow> rp_ErrorCode resp = '''' \<Longrightarrow> \<exists>ctx1 st1. uncaught env L verbose bytes ctx e body status resp st =
           Ret (ctx1, [anonymous i], 500, set_content_type (el_ErrorMediaIdentifier L) resp, st1)"
    and "\<not> verbose \<Longrightarrow> rp_ErrorCode resp \<noteq> '''' \<Longrightarrow>
           uncaught env L verbose bytes ctx e body status resp st = Panic ''interface conversion''"
proof -
  let ?G = "env_G env" and ?P = "env_P env"
  let ?v = "stored_val (ctx_Value ?G ctx hackKey)"
  let ?ctx1 = "if ?v = VNil then ctx_WithValue ?G ctx hackKey (AValue (VString i)) else ctx"
  let ?msg = "NewInternalError (Some (errs_New ?P (Sprintf ''%s [%s]'' [VString (StatusText 500), VString i])))"
  have id: "(if ?v = VNil then VString (shortID bytes) else ?v) = VString i"
    using assms(6) by (cases ?v) (auto simp: error_id_def)
  have ctx1: "readable_identity ?G ?ctx1" "ContextHasResponse ?G ?ctx1"
    using assms(4,5) WithValue_ok(2,3) [OF assms(3), of ctx hackKey "AValue (VString i)"]
    by (simp_all add: readable_identity_def same_request_def)
  obtain st1 where st1: "log_Error env (Some ?ctx1) [''msg'' \<mapsto> FVal (el_body L body), ''err'' \<mapsto> fstr (el_plus_v L e)]
      ''uncaught error detected in ErrorHandler'' [] st = Ret st1"
    using log_Error_returns [OF assms(2), of "Some ?ctx1"] ctx1(1) by blast
  have "\<exists>st2. ErrorToJSONAPIErrors env L (Some ?ctx1) (Some ?msg) st1 =
      Ret (([document ?msg (''Internal Server Error ['' @ i @ '']'')], status_of ?msg), st2)"
    by (rule converter_returns(2) [OF assms(2) _ document_anonymous(1,2) [OF assms(1), of i]]) (use ctx1(1) in blast)
  then obtain st2 where st2: "ErrorToJSONAPIErrors env L (Some ?ctx1) (Some ?msg) st1 = Ret (([anonymous i], 500), st2)"
    unfolding document_anonymous(3,4) [OF assms(1)] by blast
  have *: "uncaught env L verbose bytes ctx e body status resp st =
     (if \<not> verbose then
        (if rp_ErrorCode resp \<noteq> '''' then Panic ''interface conversion''
         else Ret (?ctx1, [anonymous i], 500, set_content_type (el_ErrorMediaIdentifier L) resp, st2))
      else Ret (?ctx1, body, status, resp, st1))"
    unfolding uncaught_def id Let_def StatusInternalServerError_def
    using st1 st2 ctx1(2) by (simp add: id set_content_type_def split del: if_split cong: if_cong)
  show "verbose \<Longrightarrow> \<exists>ctx1 st1. uncaught env L verbose bytes ctx e body status resp st = Ret (ctx1, body, status, resp, st1)"
    "\<not> verbose \<Longrightarrow> rp_ErrorCode resp = '''' \<Longrightarrow> \<exists>ctx1 st1. uncaught env L verbose bytes ctx e body status resp st =
           Ret (ctx1, [anonymous i], 500, set_content_type (el_ErrorMediaIdentifier L) resp, st1)"
    "\<not> verbose \<Longrightarrow> rp_ErrorCode resp \<noteq> '''' \<Longrightarrow>
           uncaught env L verbose bytes ctx e body status resp st = Panic ''interface conversion''"
    unfolding * by auto
qed

lemma handled_error:
  assumes "good_caller (env_caller env)" and "readable_identity (env_G env) ctx" and "ContextHasResponse (env_G env) ctx"
    and "h ctx req resp st = Ret (Some err, resp0, st0)" and "errs_Cause (env_P env) (Some err) = Some c" and "Error c = Ret d"
  shows "\<exists>st1. ErrorHandler env L verbose bytes h ctx req resp st =
    (let resp1 = set_content_type ErrorMediaIdentifier resp0;
         resp2 = (case c of GoaError g \<Rightarrow> resp1\<lparr>rp_ErrorCode := ge_token g\<rparr> | _ \<Rightarrow> resp1)
     in go_bind (if 500 \<le> status_of c \<and> status_of c < 600
                 then uncaught env L verbose bytes ctx err [document c d] (status_of c) resp2 st1
                 else Ret (ctx, [document c d], status_of c, resp2, st1)) (\<lambda>(ctx1, body, status1, resp3, st2).
            let (r, resp4) = el_Send L ctx1 status1 body resp3 in Ret (r, resp4, st2)))"
proof -
  obtain st1 where st1: "ErrorToJSONAPIErrors env L (Some ctx) (Some err) st0 = Ret (([document c d], status_of c), st1)"
    using converter_returns(2) [OF assms(1) _ assms(5,6), of "Some ctx" L st0] assms(2) by blast
  have "status_of (GoaError g) = ge_status g" for g
    by (simp add: status_of_def classify_def split: option.split)
  with st1 show ?thesis
    by (intro exI [of _ st1]) (cases c; simp add: ErrorHandler_def assms(3-5) Let_def)
qed

text \<open>The response the handler hands over for the cause \<open>c\<close>, and what becomes of an error.\<close>

definition marked :: "goerror \<Rightarrow> goa_response \<Rightarrow> goa_response" where
  "marked c resp = (case c of GoaError g \<Rightarrow> (set_content_type ErrorMediaIdentifier resp)\<lparr>rp_ErrorCode := ge_token g\<rparr>
     | _ \<Rightarrow> set_content_type ErrorMediaIdentifier resp)"

lemma error_answered:
  assumes "pkg_errors_ok (env_P env)" and "good_caller (env_caller env)" and "goa_ok (env_G env)"
    and "readable_identity (env_G env) ctx" and "ContextHasResponse (env_G env) ctx" and "error_id (env_G env) bytes ctx = Some i"
    and "h ctx req resp st = Ret (Some e, resp0, st0)" and "errs_Cause (env_P env) (Some e) = Some c" and "Error c = Ret d"
  shows "\<not> (500 \<le> status_of c \<and> status_of c < 600) \<Longrightarrow>
      sends L ctx (status_of c) [document c d] (marked c resp0) (ErrorHandler env L verbose bytes h ctx req resp st)"
    and "500 \<le> status_of c \<and> status_of c < 600 \<Longrightarrow> verbose \<Longrightarrow>
      \<exists>ctx'. sends L ctx' (status_of c) [document c d] (marked c resp0) (ErrorHandler env L verbose bytes h ctx req resp st)"
    and "500 \<le> status_of c \<and> status_of c < 600 \<Longrightarrow> \<not> verbose \<Longrightarrow> rp_ErrorCode (marked c resp0) = '''' \<Longrightarrow>
      \<exists>ctx'. sends L ctx' 500 [anonymous i] (set_content_type (el_ErrorMediaIdentifier L) (marked c resp0))
        (ErrorHandler env L verbose bytes h ctx req resp st)"
    and "500 \<le> status_of c \<and> status_of c < 600 \<Longrightarrow> \<not> verbose \<Longrightarrow> rp_ErrorCode (marked c resp0) \<noteq> '''' \<Longrightarrow>
      ErrorHandler env L verbose bytes h ctx req resp st = Panic ''interface conversion''"
proof -
  obtain st1 where out: "ErrorHandler env L verbose bytes h ctx req resp st =
      go_bind (if 500 \<le> status_of c \<and> status_of c < 600
                 then uncaught env L verbose bytes ctx e [document c d] (status_of c) (marked c resp0) st1
                 else Ret (ctx, [document c d], status_of c, marked c resp0, st1)) (\<lambda>(ctx1, body, status1, resp3, st2).
            let (r, resp4) = el_Send L ctx1 status1 body resp3 in Ret (r, resp4, st2))"
    using handled_error [where h = h and req = req and resp = resp and st = st, OF assms(2,4,5,7-9), of L verbose bytes]
    unfolding Let_def marked_def by auto
  note unc = uncaught_returns [OF assms(1-6), where e = e and body = "[document c d]" and status = "status_of c"
      and resp = "marked c resp0" and st = st1 and L = L and verbose = verbose]
  show "\<not> (500 \<le> status_of c \<and> status_of c < 600) \<Longrightarrow>
      sends L ctx (status_of c) [document c d] (marked c resp0) (ErrorHandler env L verbose bytes h ctx req resp st)"
    unfolding out sends_def by (auto simp: split_beta Let_def)
  show "500 \<le> status_of c \<and> status_of c < 600 \<Longrightarrow> verbose \<Longrightarrow>
      \<exists>ctx'. sends L ctx' (status_of c) [document c d] (marked c resp0) (ErrorHandler env L verbose bytes h ctx req resp st)"
    unfolding out sends_def using unc(1) by (auto simp: split_beta Let_def)
  show "500 \<le> status_of c \<and> status_of c < 600 \<Longrightarrow> \<not> verbose \<Longrightarrow> rp_ErrorCode (marked c resp0) = '''' \<Longrightarrow>
      \<exists>ctx'. sends L ctx' 500 [anonymous i] (set_content_type (el_ErrorMediaIdentifier L) (marked c resp0))
        (ErrorHandler env L verbose bytes h ctx req resp st)"
    unfolding out sends_def using unc(2) by (auto simp: split_beta Let_def)
  show "500 \<le> status_of c \<and> status_of c < 600 \<Longrightarrow> \<not> verbose \<Longrightarrow> rp_ErrorCode (marked c resp0) \<noteq> '''' \<Longrightarrow>
      ErrorHandler env L verbose bytes h ctx req resp st = Panic ''interface conversion''"
    unfolding out using unc(3) by simp
qed


text \<open>The answer to an error: the one its status names where the context has it, and \<open>InternalServerError\<close>
  otherwise, once, with the document of the error.\<close>

theorem json_error_response_spec:
  assumes "good_caller (env_caller env)" and "readable_identity (env_G env) (ac_ctx ctx)"
    and "errs_Cause (env_P env) err = Some c" and "Error c = Ret d"
  shows "\<exists>answer st'. JSONErrorResponse env L ctx err w st =
      Ret (fst (answer [document c d] w), snd (answer [document c d] w), st') \<and>
    (let own = {(400, ac_BadRequest ctx), (404, ac_NotFound ctx), (401, ac_Unauthorized ctx), (403, ac_Forbidden ctx),
                (409, ac_Conflict ctx)}
     in ((status_of c, Some answer) \<in> own) \<or>
        answer = ac_InternalServerError ctx \<and> (\<forall>a. (status_of c, Some a) \<notin> own))"
proof -
  obtain st1 where "ErrorToJSONAPIErrors env L (Some (ac_ctx ctx)) err st = Ret (([document c d], status_of c), st1)"
    using converter_returns(2) [OF assms(1) _ assms(3,4), of "Some (ac_ctx ctx)" L st] assms(2) by blast
  then have "JSONErrorResponse env L ctx err w st =
      Ret (fst (select_answer ctx (status_of c) [document c d] w), snd (select_answer ctx (status_of c) [document c d] w), st1)"
    by (simp add: JSONErrorResponse_def split_beta)
  then show ?thesis
    unfolding Let_def
    by (intro exI [of _ "select_answer ctx (status_of c)"] exI [of _ st1])
      (auto simp: select_answer_def Let_def http_status_defs split: option.splits)
qed

lemma ex_json_env_ok: "pkg_errors_ok (env_P (ex_env None))" "good_caller (env_caller (ex_env None))" "goa_ok (env_G (ex_env None))"
  using documented_errs_ok plain_goa_ok by (simp_all add: ex_env_def good_caller_def)

definition ex_lib :: "'c goa_errors" where
  "ex_lib = \<lparr>el_TypeOf = (\<lambda>e. VNil), el_plus_v = text_of, el_body = (\<lambda>b. VNil),
     el_ErrorMediaIdentifier = ''application/vnd.goa.error'',
     el_Send = (\<lambda>c status body resp. (None, resp\<lparr>rp_Status := status, rp_Length := int (length (concat (map ja_Detail body)))\<rparr>))\<rparr>"

definition ex_not_found :: "goerror option" where
  "ex_not_found = wrapped documented_errs [''cannot load''] (NewNotFoundError ''user'' ''42'')"


text \<open>A handler that fails with an error of the database, and one that fails with an internal goa error.\<close>

definition ex_secret :: goerror where
  "ex_secret = ForeignError ''*pq.Error'' ''password is mysecretpassword'' None"

definition ex_goa_500 :: goerror where
  "ex_goa_500 = GoaError \<lparr>ge_status = 500, ge_token = ''t1'', ge_text = ''boom'', ge_response = None\<rparr>"

definition ex_resp :: goa_response where
  "ex_resp = \<lparr>rp_Status = 0, rp_Length = 0, rp_ErrorCode = '''', rp_Header = Map.empty\<rparr>"

definition ex_get :: request_data where
  "ex_get = \<lparr>req_Method = ''GET'', req_Host = ''localhost'', req_URL = None, req_Header = Map.empty, req_RemoteAddr = '''',
     req_ContentLength = 0, req_Params = Map.empty, req_Payload = Map_Payload None\<rparr>"

definition ex_ctx :: "nat plain_context" where
  "ex_ctx = background\<lparr>pc_response := True, pc_values := (\<lambda>k. AValue (VString ''r1''))\<rparr>"


end
