(* ===== verification/Pipeline.thy ===== *)
theory Pipeline
  imports Goamiddleware Jsonapi
begin

section \<open>The middlewares of a service, one around the other\<close>

text \<open>
  A service puts the middlewares of this repository around its handlers: the logger outermost, the error handler below
  it, as its comment asks, and the two token middlewares around the handler. What a
  middleware that only watches or prepares promises is the locale \<open>transparent_middleware\<close>: the next handler
  runs exactly once, on a context and a logger that do not depend on it, and what it returns, or its panic, is
  the outcome. The contract is closed under composition; \<open>LogRequest\<close> and \<open>InjectTokenManager\<close> satisfy it.
\<close>

subsection \<open>The contract of a middleware\<close>

locale transparent_middleware =
  fixes mw :: "'c handler \<Rightarrow> 'c handler"
    and pre :: "'c \<Rightarrow> bool"
    and enters :: "'c \<Rightarrow> 'c \<Rightarrow> bool"
  assumes calls: "pre c \<Longrightarrow> \<exists>c' st1. enters c c' \<and> own st1 = own st \<and> (\<forall>h.
      (\<forall>e resp' st2. h c' req resp st1 = Ret (e, resp', st2) \<longrightarrow> (\<exists>st3. mw h c req resp st = Ret (e, resp', st3))) \<and>
      (\<forall>m. h c' req resp st1 = Panic m \<longrightarrow> mw h c req resp st = Panic m))"
begin

text \<open>What holds of the outcome of every run of the next handler holds of the whole.\<close>

lemma keeps:
  assumes "pre c"
    and "\<And>c' st1. enters c c' \<Longrightarrow> own st1 = own st \<Longrightarrow> \<exists>e resp' st2. h c' req resp st1 = Ret (e, resp', st2) \<and> Q e resp'"
  shows "\<exists>e resp' st3. mw h c req resp st = Ret (e, resp', st3) \<and> Q e resp'"
proof -
  obtain c' st1 where c': "enters c c'" "own st1 = own st"
    "\<And>e resp' st2. h c' req resp st1 = Ret (e, resp', st2) \<Longrightarrow> \<exists>st3. mw h c req resp st = Ret (e, resp', st3)"
    using calls [OF assms(1), of st req resp] by blast
  with assms(2) [OF c'(1,2)] show ?thesis by blast
qed

end

text \<open>Two transparent middlewares where the first establishes what the second needs.\<close>

locale middleware_pair =
  outer: transparent_middleware mw1 pre1 enters1 + inner: transparent_middleware mw2 pre2 enters2
  for mw1 mw2 :: "'c handler \<Rightarrow> 'c handler" and pre1 enters1 pre2 enters2 +
  assumes fits: "pre1 c \<Longrightarrow> enters1 c c' \<Longrightarrow> pre2 c'"

sublocale middleware_pair \<subseteq> composed: transparent_middleware "\<lambda>h. mw1 (mw2 h)" pre1 "\<lambda>c c''. \<exists>c'. enters1 c c' \<and> enters2 c' c''"
proof
  fix c st req resp
  assume "pre1 c"
  then obtain c' st1 where 1: "enters1 c c'" "own st1 = own st"
    "\<And>h. (\<forall>e resp' st2. h c' req resp st1 = Ret (e, resp', st2) \<longrightarrow> (\<exists>st3. mw1 h c req resp st = Ret (e, resp', st3))) \<and>
      (\<forall>m. h c' req resp st1 = Panic m \<longrightarrow> mw1 h c req resp st = Panic m)"
    using outer.calls [of c st req resp] by blast
  obtain c'' st2 where 2: "enters2 c' c''" "own st2 = own st1"
    "\<And>h. (\<forall>e resp' st3. h c'' req resp st2 = Ret (e, resp', st3) \<longrightarrow> (\<exists>st4. mw2 h c' req resp st1 = Ret (e, resp', st4))) \<and>
      (\<forall>m. h c'' req resp st2 = Panic m \<longrightarrow> mw2 h c' req resp st1 = Panic m)"
    using inner.calls [OF fits [OF \<open>pre1 c\<close> 1(1)], of st1 req resp] by blast
  show "\<exists>c'' st2. (\<exists>c'. enters1 c c' \<and> enters2 c' c'') \<and> own st2 = own st \<and> (\<forall>h.
      (\<forall>e resp' st3. h c'' req resp st2 = Ret (e, resp', st3) \<longrightarrow> (\<exists>st4. mw1 (mw2 h) c req resp st = Ret (e, resp', st4))) \<and>
      (\<forall>m. h c'' req resp st2 = Panic m \<longrightarrow> mw1 (mw2 h) c req resp st = Panic m))"
  proof (rule exI [of _ c''], rule exI [of _ st2], intro conjI allI impI)
    fix h :: "'c handler" and e :: "goerror option" and resp' :: goa_response and st3 :: log_state
    assume "h c'' req resp st2 = Ret (e, resp', st3)"
    with 2(3) obtain st4 where "mw2 h c' req resp st1 = Ret (e, resp', st4)" by blast
    with 1(3) [of "mw2 h"] show "\<exists>st4. mw1 (mw2 h) c req resp st = Ret (e, resp', st4)" by blast
  next
    fix h :: "'c handler" and m :: string
    assume "h c'' req resp st2 = Panic m"
    with 2(3) have "mw2 h c' req resp st1 = Panic m" by blast
    with 1(3) [of "mw2 h"] show "mw1 (mw2 h) c req resp st = Panic m" by blast
  qed (use 1 2 in auto)
qed

subsection \<open>The middlewares that satisfy it\<close>

text \<open>What \<open>LogRequest\<close> needs of a context: goa's request and response in it, and claims that can be read.\<close>

definition loggable :: "('c, 'm) log_env \<Rightarrow> 'c \<Rightarrow> bool" where
  "loggable env c \<longleftrightarrow> goa_ok (env_G env) \<and> good_caller (env_caller env) \<and> readable_identity (env_G env) c \<and>
     (\<exists>r u. ContextRequest (env_G env) c = Some r \<and> req_URL r = Some u) \<and> ContextHasResponse (env_G env) c"

interpretation log_mw: transparent_middleware "LogRequest env verbose bytes duration" "loggable env"
  "\<lambda>c c'. c' = logged_context (env_G env) bytes c" for env verbose bytes duration
proof
  fix c st req resp
  assume "loggable env c"
  then obtain r u where "goa_ok (env_G env)" "good_caller (env_caller env)" "readable_identity (env_G env) c"
    "ContextRequest (env_G env) c = Some r" "req_URL r = Some u" "ContextHasResponse (env_G env) c"
    by (auto simp: loggable_def)
  from log_request_runs [OF this, of verbose bytes req resp st duration] obtain es where run:
    "\<And>h err resp' st3. h (logged_context (env_G env) bytes c) req resp (logged st es) = Ret (err, resp', st3) \<Longrightarrow>
       \<exists>st4. LogRequest env verbose bytes duration h c req resp st = Ret (err, resp', st4)"
    "\<And>h m. h (logged_context (env_G env) bytes c) req resp (logged st es) = Panic m \<Longrightarrow>
       LogRequest env verbose bytes duration h c req resp st = Panic m"
    by blast
  then show "\<exists>c' st1. c' = logged_context (env_G env) bytes c \<and> own st1 = own st \<and> (\<forall>h.
      (\<forall>e resp' st2. h c' req resp st1 = Ret (e, resp', st2) \<longrightarrow>
         (\<exists>st3. LogRequest env verbose bytes duration h c req resp st = Ret (e, resp', st3))) \<and>
      (\<forall>m. h c' req resp st1 = Panic m \<longrightarrow> LogRequest env verbose bytes duration h c req resp st = Panic m))"
    by (intro exI [of _ "logged_context (env_G env) bytes c"] exI [of _ "logged st es"]) simp
qed

interpretation inject_mw: transparent_middleware "InjectTokenManager G mgm" "\<lambda>c. True"
  "\<lambda>c c'. c' = ContextWithTokenManager G c (AManager mgm)" for G mgm
  by unfold_locales (simp add: InjectTokenManager_def, blast)

interpretation log_inject_mw: middleware_pair "LogRequest env verbose bytes duration" "InjectTokenManager (env_G env) mgm"
  "loggable env" "\<lambda>c c'. c' = logged_context (env_G env) bytes c" "\<lambda>c. True"
  "\<lambda>c c'. c' = ContextWithTokenManager (env_G env) c (AManager mgm)" for env verbose bytes duration mgm
  by unfold_locales simp


subsection \<open>The two token middlewares\<close>

definition bearer :: "(string \<Rightarrow> string) \<Rightarrow> jwt_security \<Rightarrow> request_data \<Rightarrow> bool" where
  "bearer uni scheme req \<longleftrightarrow> (let val = header_Get (req_Header req) (sch_Name scheme) in
     val \<noteq> '''' \<and> HasPrefix (ToLower uni val) ''bearer '')"

definition bearer_token :: "jwt_security \<Rightarrow> request_data \<Rightarrow> string" where
  "bearer_token scheme req = Split (header_Get (req_Header req) (sch_Name scheme)) (CHR '' '') ! 1"

definition verified :: "(string \<Rightarrow> 'k \<Rightarrow> bool) \<Rightarrow> 'k tokenManager \<Rightarrow> string \<Rightarrow> jwt_token \<Rightarrow> bool" where
  "verified verifies mgm s t \<longleftrightarrow> tok_Valid t \<and> tok_Raw t = s \<and>
     (\<exists>k. PublicKey mgm (Sprintf ''%s'' [tok_Header t ''kid'']) = Some k \<and> verifies s k)"

text \<open>The manager does not accept a token: parsing it, in the context of the request, is an error.\<close>

definition rejects :: "'k jwt_lib \<Rightarrow> ('c, 'k tokenManager) log_env \<Rightarrow> 'k tokenManager \<Rightarrow> 'c \<Rightarrow> string \<Rightarrow> bool" where
  "rejects J env mgm c s \<longleftrightarrow> (\<exists>st e st'. manager_Parse J env mgm c s st = Ret (Inl e, st'))"

text \<open>
  Behind the two middlewares the handler runs with the manager in its context, and with the verified token exactly when
  the request has a bearer token; otherwise the manager rejected that token, and the request is refused.
\<close>

lemma token_chain:
  assumes "jwt_ok J verifies" and "jwt_total J" and "pkg_errors_ok (env_P env)" and "goa_ok (env_G env)" and "uni_ok uni"
    and "good_caller (env_caller env)" and "ContextJWT (env_G env) c = None" and "sch_In scheme = LocHeader"
  shows "(\<exists>c' st'. InjectTokenManager (env_G env) mgm (TokenContext J env uni mk mgm scheme nh) c req resp st = nh c' req resp st' \<and>
       ctx_Value (env_G env) c' contextTokenManagerKey = AManager mgm \<and>
       (case ContextJWT (env_G env) c' of None \<Rightarrow> \<not> bearer uni scheme req
        | Some t \<Rightarrow> bearer uni scheme req \<and> verified verifies mgm (bearer_token scheme req) t)) \<or>
    (bearer uni scheme req \<and>
       rejects J env mgm (ContextWithTokenManager (env_G env) c (AManager mgm)) (bearer_token scheme req) \<and>
       (\<exists>st'. InjectTokenManager (env_G env) mgm (TokenContext J env uni mk mgm scheme nh) c req resp st =
          Ret (Some (mk ''token_validation_failed'' 401 ''token is invalid''), login_required mgm resp, st')))"
proof -
  let ?G = "env_G env"
  let ?c = "ContextWithTokenManager ?G c (AManager mgm)"
  let ?val = "header_Get (req_Header req) (sch_Name scheme)"
  have jwt: "ContextJWT ?G ?c = None" and tm: "ctx_Value ?G ?c contextTokenManagerKey = AManager mgm"
    using WithValue_ok(1,2) [OF assms(4)] assms(7) by (simp_all add: ContextWithTokenManager_def)
  have out: "InjectTokenManager ?G mgm (TokenContext J env uni mk mgm scheme nh) c req resp st =
      TokenContext J env uni mk mgm scheme nh ?c req resp st" by (simp add: InjectTokenManager_def)
  show ?thesis
  proof (cases "bearer uni scheme req")
    case False
    then have "TokenContext J env uni mk mgm scheme nh ?c req resp st = nh ?c req resp st"
      using assms(8) by (auto simp: bearer_def Let_def TokenContext_def middleware_handler_def)
    with False jwt tm show ?thesis unfolding out by (intro disjI1 exI [of _ ?c] exI [of _ st]) simp
  next
    case True
    then have val: "?val \<noteq> ''''" "HasPrefix (ToLower uni ?val) ''bearer ''" by (simp_all add: bearer_def Let_def)
    have "readable_identity ?G ?c" using jwt by (simp add: readable_identity_def)
    from bearer_decided [OF assms(1-6) this assms(8) val, of mgm mk nh resp st] obtain r st2 st3 where
      r: "manager_Parse J env mgm ?c (bearer_token scheme req) st2 = Ret (r, st3)"
        "case r of
          Inl e \<Rightarrow> \<exists>st'. TokenContext J env uni mk mgm scheme nh ?c req resp st =
            Ret (Some (mk ''token_validation_failed'' 401 ''token is invalid''), login_required mgm resp, st')
        | Inr t \<Rightarrow> TokenContext J env uni mk mgm scheme nh ?c req resp st = nh (WithJWT ?G ?c t) req resp st3 \<and>
            verified verifies mgm (bearer_token scheme req) t"
      unfolding verified_def bearer_token_def by (elim exE conjE) (auto split: sum.split_asm)
    show ?thesis
    proof (cases r)
      case (Inl e)
      with True r show ?thesis unfolding out rejects_def by auto
    next
      case (Inr t)
      with True r(2) tm WithJWT_ok(1,4) [OF assms(4)] show ?thesis
        unfolding out by (intro disjI1 exI [of _ "WithJWT ?G ?c t"] exI [of _ st3]) simp
    qed
  qed
qed


subsection \<open>What a client gets\<close>

lemma refused_headers:
  "header_values (rp_Header (marked c (login_required mgm resp))) ''WWW-Authenticate'' =
     [''LOGIN url='' @ AddTrailingSlashToURL (cfg_AuthServiceURL (tm_config mgm)) @ ''api/login, description='' @
        [CHR 0x22] @ ''re-login is required'' @ [CHR 0x22]]"
proof -
  have keys: "CanonicalMIMEHeaderKey ''WWW-Authenticate'' = ''Www-Authenticate''"
    "CanonicalMIMEHeaderKey ''Access-Control-Expose-Headers'' = ''Access-Control-Expose-Headers''"
    "CanonicalMIMEHeaderKey ''Content-Type'' = ''Content-Type''"
    by code_simp+
  have "header_values (rp_Header (marked c (login_required mgm resp))) ''WWW-Authenticate'' =
      header_values (AddLoginRequiredHeader mgm (rp_Header resp)) ''WWW-Authenticate''"
    by (cases c) (simp_all add: marked_def set_content_type_def login_required_def hdr.vals_put keys)
  then show ?thesis
    unfolding AddLoginRequiredHeader_def Let_def hdr.vals_put hdr.vals_add keys by (simp add: print_arg_def extra_args_def)
qed

text \<open>The answer to a handler's typed error: its own document, or the anonymous one for an error of the server.\<close>

lemma typed_error_answered:
  assumes "pkg_errors_ok (env_P env)" and "loggable env ctx" and "error_id (env_G env) bytes ctx = Some i"
    and "h ctx req resp st = Ret (Some e, resp', st2)" and "errs_Cause (env_P env) (Some e) = Some c" and "Error c = Ret d"
    and "c \<notin> range GoaError" and "rp_ErrorCode resp' = ''''"
  shows "\<exists>ctx'. if status_of c = 500
    then sends L ctx' 500 [anonymous i] (set_content_type (el_ErrorMediaIdentifier L) (set_content_type ErrorMediaIdentifier resp'))
           (ErrorHandler env L False bytes h ctx req resp st)
    else sends L ctx' (status_of c) [document c d] (set_content_type ErrorMediaIdentifier resp') (ErrorHandler env L False bytes h ctx req resp st)"
proof -
  have "good_caller (env_caller env)" "goa_ok (env_G env)" "readable_identity (env_G env) ctx" "ContextHasResponse (env_G env) ctx"
    using assms(2) by (auto simp: loggable_def)
  note answers = error_answered [where h = h and req = req and resp = resp and st = st and L = L and verbose = False,
      OF assms(1) this assms(3-6)]
  have "marked c resp' = set_content_type ErrorMediaIdentifier resp'"
    using assms(7) by (auto simp: marked_def split: goerror.split)
  moreover have "rp_ErrorCode (set_content_type m resp') = ''''" for m
    using assms(8) by (simp add: set_content_type_def)
  ultimately show ?thesis
    using answers(1,3) status_of_kind(6) [OF assms(7)] by (cases "status_of c = 500") auto
qed

text \<open>What a middleware around hands on unchanged, up to the log.\<close>

lemma sends_through:
  assumes "sends L c s body r inner"
    and "\<And>e resp' st2. inner = Ret (e, resp', st2) \<Longrightarrow> \<exists>st3. outer = Ret (e, resp', st3)"
  shows "sends L c s body r outer"
  using assms unfolding sends_def by blast

lemma loggable_logged:
  assumes "loggable env ctx"
  shows "loggable env (logged_context (env_G env) bytes ctx)"
  using assms logged_context_same [where G = "env_G env" and bytes = bytes and ctx = ctx] by (simp add: loggable_def same_request_def)


definition ex_class :: "string \<Rightarrow> int \<Rightarrow> string \<Rightarrow> goerror" where
  "ex_class c s m = GoaError \<lparr>ge_status = s, ge_token = ''id1'', ge_text = m, ge_response = Some (c, m)\<rparr>"

definition ex_service_ctx :: "string tokenManager plain_context" where
  "ex_service_ctx = background\<lparr>pc_request := Some (ex_get\<lparr>req_URL := Some empty_url\<rparr>), pc_response := True\<rparr>"

definition ex_missing :: "string tokenManager plain_context handler" where
  "ex_missing c req resp st = Ret (Some (NewNotFoundError ''user'' ''42''), resp, st)"

definition ex_bad_request :: request_data where
  "ex_bad_request = ex_get\<lparr>req_Header := header_Set Map.empty ''Authorization'' ''Bearer k9''\<rparr>"

abbreviation ex_service :: "request_data \<Rightarrow> (goerror option \<times> goa_response \<times> log_state) go" where
  "ex_service req \<equiv> LogRequest ex_auth_env False (CHR 0x01, CHR 0x02, CHR 0x03, CHR 0x04, CHR 0x05, CHR 0x06) (VInt 3)
     (ErrorHandler ex_auth_env ex_lib False (CHR 0x01, CHR 0x02, CHR 0x03, CHR 0x04, CHR 0x05, CHR 0x06)
       (InjectTokenManager (env_G ex_auth_env) ex_manager
         (TokenContext (kid_jwt (\<lambda>c. VNil) ex_claims) ex_auth_env (\<lambda>s. s) ex_class ex_manager ex_scheme ex_missing)))
     ex_service_ctx req empty_response quiet"


end
