(* ===== verification/Test_Auth.thy ===== *)
theory Test_Auth
  imports Goamiddleware Configuration
begin

section \<open>Tokens for tests: \<open>test/auth/auth.go\<close>\<close>

text \<open>
  The fixtures that the tests of all services use: they sign tokens with the key of the developer mode and put them, with
  a token manager that knows its public key, into the context of a goa action or service. Signing is \<open>jwt-go\<close>'s, the
  parameter \<open>S\<close> (private keys have the type \<open>'p\<close>); goa's constructors are \<open>GS\<close>. A nil context or identity is
  \<open>None\<close>; what \<open>uuid.NewV4\<close> and \<open>time.Now\<close> give is an argument, in the order of the calls.
\<close>

record ('p, 'k) jwt_signer =
  js_New :: jwt_token
  js_ParsePEM :: "string \<Rightarrow> goerror + 'p"
  js_SignedString :: "jwt_token \<Rightarrow> 'p \<Rightarrow> goerror + string"
  js_PublicKey :: "'p \<Rightarrow> 'k"

record 'c goa_server =
  gs_Background :: 'c
  gs_WithAction :: "'c \<Rightarrow> string \<Rightarrow> 'c"
  gs_NewContext :: "'c \<Rightarrow> request_data \<Rightarrow> 'c"
  gs_New :: "string \<Rightarrow> 'c"

subsection \<open>The key and the manager\<close>

definition defaultPrivateKey :: "('p, 'k) jwt_signer \<Rightarrow> 'p go" where
  "defaultPrivateKey S =
     (case js_ParsePEM S DevModeRsaPrivateKey of
        Inl err \<Rightarrow> go_bind (Error err) (\<lambda>m. Panic (''Failed: '' @ m))
      | Inr rsaKey \<Rightarrow> Ret rsaKey)"

definition defaultCfg :: manager_config where
  "defaultCfg = \<lparr>cfg_AuthServiceURL = ''https://auth.openshift.io'', cfg_DevModePrivateKey = Some DevModeRsaPrivateKey\<rparr>"

definition newManager :: "('p, 'k) jwt_signer \<Rightarrow> 'k tokenManager go" where
  "newManager S =
     go_bind (defaultPrivateKey S) (\<lambda>key. Ret (NewManagerWithPublicKey ''test-key'' (js_PublicKey S key) defaultCfg))"

subsection \<open>Signed strings\<close>

text \<open>An assignment \<open>token.Claims.(jwt.MapClaims)[k] = v\<close>, and several in a row.\<close>

definition set_claim :: "string \<Rightarrow> gval \<Rightarrow> jwt_token \<Rightarrow> jwt_token go" where
  "set_claim k v token =
     (case tok_Claims token of
        MapClaims m \<Rightarrow> Ret (token\<lparr>tok_Claims := MapClaims (m(k := v))\<rparr>)
      | _ \<Rightarrow> Panic ''interface conversion'')"

fun set_claims :: "(string \<times> gval) list \<Rightarrow> jwt_token \<Rightarrow> jwt_token go" where
  "set_claims [] token = Ret token"
| "set_claims ((k, v) # kvs) token = go_bind (set_claim k v token) (set_claims kvs)"

type_synonym extra_claim = "jwt_token \<Rightarrow> jwt_token go"

definition WithEmailClaim :: "string \<Rightarrow> extra_claim" where
  "WithEmailClaim email = set_claim ''email'' (VString email)"

definition WithEmailVerifiedClaim :: "bool \<Rightarrow> extra_claim" where
  "WithEmailVerifiedClaim verified = set_claim ''email_verified'' (VBool verified)"

fun apply_extras :: "extra_claim list \<Rightarrow> jwt_token \<Rightarrow> jwt_token go" where
  "apply_extras [] token = Ret token"
| "apply_extras (extra # extras) token = go_bind (extra token) (apply_extras extras)"

definition with_kid :: "jwt_token \<Rightarrow> jwt_token" where
  "with_kid token = token\<lparr>tok_Header := (tok_Header token)(''kid'' := VString ''test-key'')\<rparr>"

text \<open>The end of the three functions that return a string: an error of the signer is a panic.\<close>

definition signed_or_panic :: "('p, 'k) jwt_signer \<Rightarrow> jwt_token \<Rightarrow> string go" where
  "signed_or_panic S token =
     go_bind (defaultPrivateKey S) (\<lambda>key.
       case js_SignedString S (with_kid token) key of
         Inl err \<Rightarrow> Panic (text_of err)
       | Inr tokenStr \<Rightarrow> Ret tokenStr)"

definition GenerateToken :: "('p, 'k) jwt_signer \<Rightarrow> string \<Rightarrow> string \<Rightarrow> extra_claim list \<Rightarrow> string go" where
  "GenerateToken S identityID username extraClaims =
     go_bind (set_claims [(''uuid'', VString identityID), (''preferred_username'', VString username), (''sub'', VString identityID),
                          (''email'', VString (username @ ''@email.com''))] (js_New S)) (\<lambda>token.
     go_bind (apply_extras extraClaims token) (signed_or_panic S))"

definition GenerateServiceAccountToken :: "('p, 'k) jwt_signer \<Rightarrow> string \<Rightarrow> string go" where
  "GenerateServiceAccountToken S saName =
     go_bind (set_claims [(''service_accountname'', VString saName)] (js_New S)) (signed_or_panic S)"

text \<open>The claims of the caller are a Go map, ranged over in the order \<open>order\<close> gives; \<open>ids\<close> are six random UUIDs.\<close>

definition GenerateTokenWithClaims :: "('p, 'k) jwt_signer \<Rightarrow> uuid_lib \<Rightarrow> uuid \<times> uuid \<times> uuid \<times> uuid \<times> uuid \<times> uuid \<Rightarrow> int \<times> int
    \<Rightarrow> ((string \<rightharpoonup> gval) \<Rightarrow> string list) \<Rightarrow> (string \<rightharpoonup> gval) \<Rightarrow> string go" where
  "GenerateTokenWithClaims S U ids now order claims =
     (case (ids, now) of ((u1, u2, u3, u4, u5, u6), (now1, now2)) \<Rightarrow>
        go_bind (set_claims [(''uuid'', VString (uuid_String U u1)),
           (''preferred_username'', VString (Sprintf ''testUser-%s'' [VString (uuid_String U u2)])),
           (''sub'', VString (uuid_String U u3)), (''jti'', VString (uuid_String U u4)),
           (''session_state'', VString (uuid_String U u5)), (''iat'', VInt now1), (''exp'', VInt (now2 + 60 * 60 * 24 * 30)),
           (''nbf'', VInt 0), (''iss'', VString ''fabric8-auth''), (''typ'', VString ''Bearer''), (''approved'', VBool True),
           (''name'', VString ''Test User''), (''company'', VString ''Company Inc.''), (''given_name'', VString ''Test''),
           (''family_name'', VString ''User''),
           (''email'', VString (Sprintf ''testuser+%s@email.com'' [VString (uuid_String U u6)])),
           (''email_verified'', VBool True)] (js_New S)) (\<lambda>token.
        go_bind (set_claims (map (\<lambda>k. (k, the (claims k))) (order claims)) token) (signed_or_panic S)))"

subsection \<open>Tokens of identities\<close>

record test_identity =
  id_ID :: uuid
  id_Username :: string
  id_Email :: string

definition NewIdentity :: "uuid_lib \<Rightarrow> uuid \<times> uuid \<times> uuid \<Rightarrow> test_identity" where
  "NewIdentity U ids = (case ids of (u1, u2, u3) \<Rightarrow>
     \<lparr>id_ID = u1, id_Username = ''testuser-'' @ uuid_String U u2, id_Email = uuid_String U u3 @ ''@email.com''\<rparr>)"

definition generateUserToken :: "('p, 'k) jwt_signer \<Rightarrow> uuid_lib \<Rightarrow> uuid \<Rightarrow> int \<Rightarrow> test_identity option \<Rightarrow> jwt_token go" where
  "generateUserToken S U jti now identity =
     go_bind (set_claims [(''jti'', VString (uuid_String U jti)), (''exp'', VInt 0), (''iat'', VInt now),
        (''typ'', VString ''Bearer'')] (js_New S)) (\<lambda>token.
     case identity of
       None \<Rightarrow> Panic ''nil pointer dereference''
     | Some i \<Rightarrow>
         go_bind (set_claims [(''preferred_username'', VString (id_Username i)), (''sub'', VString (uuid_String U (id_ID i))),
            (''email'', VString (id_Email i))] token) (\<lambda>token. Ret (with_kid token)))"

definition generateServiceAccountToken :: "('p, 'k) jwt_signer \<Rightarrow> uuid_lib \<Rightarrow> uuid \<Rightarrow> int \<Rightarrow> test_identity option \<Rightarrow> jwt_token go" where
  "generateServiceAccountToken S U jti now identity =
     (case identity of
        None \<Rightarrow> Panic ''nil pointer dereference''
      | Some i \<Rightarrow>
          go_bind (set_claims [(''service_accountname'', VString (id_Username i)), (''sub'', VString (uuid_String U (id_ID i))),
             (''jti'', VString (uuid_String U jti)), (''iat'', VInt now)] (js_New S)) (\<lambda>token. Ret (with_kid token)))"

text \<open>\<open>signToken\<close> also stores the string in the token it is given.\<close>

definition signToken :: "pkg_errors \<Rightarrow> ('p, 'k) jwt_signer \<Rightarrow> jwt_token \<Rightarrow> (goerror + string \<times> jwt_token) go" where
  "signToken P S token =
     go_bind (defaultPrivateKey S) (\<lambda>key.
       case js_SignedString S token key of
         Inl err \<Rightarrow> Ret (Inl (the (errs_Wrapf P (Some err) ''unable to sign token'')))
       | Inr tokenStr \<Rightarrow> Ret (Inr (tokenStr, token\<lparr>tok_Raw := tokenStr\<rparr>)))"

definition GenerateSignedUserToken :: "pkg_errors \<Rightarrow> ('p, 'k) jwt_signer \<Rightarrow> uuid_lib \<Rightarrow> uuid \<Rightarrow> int \<Rightarrow> test_identity option
    \<Rightarrow> (goerror + string \<times> jwt_token) go" where
  "GenerateSignedUserToken P S U jti now identity =
     go_bind (generateUserToken S U jti now identity) (\<lambda>token.
     go_bind (signToken P S token) (\<lambda>r.
       case r of
         Inl err \<Rightarrow> Ret (Inl (the (errs_Wrapf P (Some err) ''unable to generate user token'')))
       | Inr st \<Rightarrow> Ret (Inr st)))"

definition GenerateSignedServiceAccountToken :: "pkg_errors \<Rightarrow> ('p, 'k) jwt_signer \<Rightarrow> uuid_lib \<Rightarrow> uuid \<Rightarrow> int \<Rightarrow> test_identity option
    \<Rightarrow> (goerror + string \<times> jwt_token) go" where
  "GenerateSignedServiceAccountToken P S U jti now identity =
     go_bind (generateServiceAccountToken S U jti now identity) (\<lambda>token.
     go_bind (signToken P S token) (\<lambda>r.
       case r of
         Inl err \<Rightarrow> Ret (Inl (the (errs_Wrapf P (Some err) ''unable to generate SA token'')))
       | Inr st \<Rightarrow> Ret (Inr st)))"


subsection \<open>Contexts and services\<close>

text \<open>\<open>http.NewRequest("GET", url, nil)\<close> of the standard library; a port that is empty is dropped from the host.\<close>

definition removeEmptyPort :: "string \<Rightarrow> string" where
  "removeEmptyPort host =
     (case last_index (CHR '':'') host of
        None \<Rightarrow> host
      | Some i \<Rightarrow>
          if (case last_index (CHR '']'') host of None \<Rightarrow> True | Some j \<Rightarrow> j < i) \<and> i + 1 = length host
          then take i host else host)"

definition NewRequest_GET :: "string \<Rightarrow> goerror + request_data" where
  "NewRequest_GET url =
     (case url_Parse url of
        Inl err \<Rightarrow> Inl err
      | Inr u \<Rightarrow>
          (let u' = u\<lparr>url_Host := removeEmptyPort (url_Host u)\<rparr> in
           Inr \<lparr>req_Method = ''GET'', req_Host = url_Host u', req_URL = Some u', req_Header = Map.empty, req_RemoteAddr = '''',
                req_ContentLength = 0, req_Params = Map.empty, req_Payload = Other_Payload (Some ''null'')\<rparr>))"

definition ContextWithRequest :: "pkg_errors \<Rightarrow> 'c goa_server \<Rightarrow> 'c option \<Rightarrow> goerror + 'c" where
  "ContextWithRequest P GS ctx =
     (let ctx' = (case ctx of None \<Rightarrow> gs_Background GS | Some c \<Rightarrow> c) in
      case NewRequest_GET ''https://common-test'' of
        Inl err \<Rightarrow> Inl (the (errs_Wrapf P (Some err) ''unable to initialize a new request''))
      | Inr req \<Rightarrow> Inr (gs_NewContext GS (gs_WithAction GS ctx' ''Test'') req))"

definition embedTokenInContext :: "pkg_errors \<Rightarrow> ('c, 'm) goa_lib \<Rightarrow> 'c goa_server \<Rightarrow> 'm \<Rightarrow> 'c option \<Rightarrow> jwt_token \<Rightarrow> goerror + 'c" where
  "embedTokenInContext P G GS TokenManager ctx tk =
     (let ctx0 = (case ctx of None \<Rightarrow> gs_Background GS | Some c \<Rightarrow> c);
          ctx1 = ContextWithTokenManager G ctx0 (AManager TokenManager);
          ctx2 = WithJWT G ctx1 tk
      in ContextWithRequest P GS (Some ctx2))"

text \<open>For a nil identity the user variant makes a new one, of the random UUIDs \<open>ids\<close>, and gives it back.\<close>

definition EmbedUserTokenInContext :: "pkg_errors \<Rightarrow> ('c, 'm) goa_lib \<Rightarrow> ('p, 'k) jwt_signer \<Rightarrow> 'c goa_server \<Rightarrow> uuid_lib \<Rightarrow> 'm
    \<Rightarrow> uuid \<times> uuid \<times> uuid \<Rightarrow> uuid \<Rightarrow> int \<Rightarrow> 'c option \<Rightarrow> test_identity option \<Rightarrow> (goerror + 'c \<times> test_identity) go" where
  "EmbedUserTokenInContext P G S GS U TokenManager ids jti now ctx identity =
     (let i = (case identity of None \<Rightarrow> NewIdentity U ids | Some i \<Rightarrow> i) in
      go_bind (GenerateSignedUserToken P S U jti now (Some i)) (\<lambda>r.
        case r of
          Inl err \<Rightarrow> Ret (Inl err)
        | Inr (tokenStr, token) \<Rightarrow>
            (case embedTokenInContext P G GS TokenManager ctx token of
               Inl err \<Rightarrow> Ret (Inl err)
             | Inr emdCtx \<Rightarrow> Ret (Inr (emdCtx, i)))))"

definition EmbedServiceAccountTokenInContext :: "pkg_errors \<Rightarrow> ('c, 'm) goa_lib \<Rightarrow> ('p, 'k) jwt_signer \<Rightarrow> 'c goa_server \<Rightarrow> uuid_lib
    \<Rightarrow> 'm \<Rightarrow> uuid \<Rightarrow> int \<Rightarrow> 'c option \<Rightarrow> test_identity option \<Rightarrow> (goerror + 'c) go" where
  "EmbedServiceAccountTokenInContext P G S GS U TokenManager jti now ctx identity =
     go_bind (GenerateSignedServiceAccountToken P S U jti now identity) (\<lambda>r.
       case r of
         Inl err \<Rightarrow> Ret (Inl err)
       | Inr (tokenStr, token) \<Rightarrow> Ret (embedTokenInContext P G GS TokenManager ctx token))"

definition EmbedTokenInContext :: "('c, 'k tokenManager) log_env \<Rightarrow> 'k jwt_lib \<Rightarrow> ('p, 'k) jwt_signer \<Rightarrow> 'c goa_server
    \<Rightarrow> 'k tokenManager \<Rightarrow> string \<Rightarrow> string \<Rightarrow> extra_claim list \<Rightarrow> log_state \<Rightarrow> ((goerror + 'c \<times> string) \<times> log_state) go" where
  "EmbedTokenInContext env J S GS TokenManager sub username extraClaims st =
     go_bind (GenerateToken S sub username extraClaims) (\<lambda>tokenString.
     go_bind (manager_Parse J env TokenManager (gs_Background GS) tokenString st) (\<lambda>(r, st1).
       case r of
         Inl err \<Rightarrow> Ret (Inl err, st1)
       | Inr extracted \<Rightarrow>
           (case ContextWithRequest (env_P env) GS (Some (WithJWT (env_G env) (gs_Background GS) extracted)) of
              Inl err \<Rightarrow> Ret (Inl err, st1)
            | Inr ctx \<Rightarrow> Ret (Inr (ContextWithTokenManager (env_G env) ctx (AManager TokenManager), tokenString), st1))))"

definition ContextWithTokenAndRequestID :: "('c, 'k tokenManager) log_env \<Rightarrow> 'k jwt_lib \<Rightarrow> ('p, 'k) jwt_signer \<Rightarrow> 'c goa_server
    \<Rightarrow> uuid_lib \<Rightarrow> 'k tokenManager \<Rightarrow> uuid \<times> uuid \<times> uuid \<Rightarrow> log_state
    \<Rightarrow> ((goerror + 'c \<times> string \<times> string \<times> string) \<times> log_state) go" where
  "ContextWithTokenAndRequestID env J S GS U TokenManager ids st =
     (case ids of (u1, u2, u3) \<Rightarrow>
        let identityID = uuid_String U u1 in
        go_bind (EmbedTokenInContext env J S GS TokenManager identityID (uuid_String U u2) [] st) (\<lambda>(r, st1).
          case r of
            Inl err \<Rightarrow> Ret (Inl err, st1)
          | Inr (ctx, ctxToken) \<Rightarrow>
              (let ctx1 = ContextWithTokenManager (env_G env) ctx (AManager TokenManager);
                   reqID = uuid_String U u3;
                   ctx2 = client_SetContextRequestID (env_G env) ctx1 reqID
               in Ret (Inr (ctx2, identityID, ctxToken, reqID), st1))))"

record 'c goa_service =
  svc_Name :: string
  svc_Context :: 'c

definition goa_New :: "'c goa_server \<Rightarrow> string \<Rightarrow> 'c goa_service" where
  "goa_New GS name = \<lparr>svc_Name = name, svc_Context = gs_New GS name\<rparr>"

definition ServiceAsUser :: "pkg_errors \<Rightarrow> ('c, 'm) goa_lib \<Rightarrow> ('p, 'k) jwt_signer \<Rightarrow> 'c goa_server \<Rightarrow> uuid_lib \<Rightarrow> 'm
    \<Rightarrow> uuid \<times> uuid \<times> uuid \<Rightarrow> uuid \<Rightarrow> int \<Rightarrow> string \<Rightarrow> test_identity option \<Rightarrow> (goerror + 'c goa_service) go" where
  "ServiceAsUser P G S GS U TokenManager ids jti now serviceName identity =
     (let svc = goa_New GS serviceName in
      go_bind (EmbedUserTokenInContext P G S GS U TokenManager ids jti now (Some (gs_Background GS)) identity) (\<lambda>r.
        case r of
          Inl err \<Rightarrow> Ret (Inl err)
        | Inr (ctx, i) \<Rightarrow> Ret (Inr (svc\<lparr>svc_Context := ctx\<rparr>))))"

definition UnsecuredService :: "('c, 'm) goa_lib \<Rightarrow> 'c goa_server \<Rightarrow> 'm \<Rightarrow> string \<Rightarrow> 'c goa_service" where
  "UnsecuredService G GS TokenManager serviceName =
     (let svc = goa_New GS serviceName in svc\<lparr>svc_Context := ContextWithTokenManager G (svc_Context svc) (AManager TokenManager)\<rparr>)"

definition ServiceAsServiceAccountUser :: "pkg_errors \<Rightarrow> ('c, 'm) goa_lib \<Rightarrow> ('p, 'k) jwt_signer \<Rightarrow> 'c goa_server \<Rightarrow> uuid_lib \<Rightarrow> 'm
    \<Rightarrow> uuid \<Rightarrow> int \<Rightarrow> string \<Rightarrow> test_identity option \<Rightarrow> (goerror + 'c goa_service) go" where
  "ServiceAsServiceAccountUser P G S GS U TokenManager jti now serviceName identity =
     (let svc = goa_New GS serviceName in
      go_bind (EmbedServiceAccountTokenInContext P G S GS U TokenManager jti now (Some (gs_Background GS)) identity) (\<lambda>r.
        case r of
          Inl err \<Rightarrow> Ret (Inl err)
        | Inr ctx \<Rightarrow> Ret (Inr (svc\<lparr>svc_Context := ctx\<rparr>))))"

subsection \<open>What \<open>jwt-go\<close> and goa document\<close>

text \<open>
  Signing with the key \<open>p\<close> gives a string for a token with the header of \<open>jwt.New\<close> and a key ID, and with claims that have a JSON
  form. The string is in the characters of the
  compact form, without a space, and parsing it with a key function that answers the public key gives a valid token
  again: its header names the same key, a claim that was missing is missing, and an ASCII string is the same
  string. That holds for claims of the names the fixtures set and without times, which the parser would check against the clock.
\<close>

definition plain :: "gval \<Rightarrow> bool" where
  "plain v = (case v of VForeign t a b \<Rightarrow> False | _ \<Rightarrow> True)"

definition claim_names :: "string list" where
  "claim_names = [''uuid'', ''preferred_username'', ''sub'', ''email'', ''email_verified'', ''service_accountname'']"

definition compact :: "string \<Rightarrow> bool" where
  "compact s \<longleftrightarrow> is_ascii s \<and> CHR '' '' \<notin> set s"

definition carried :: "gval \<Rightarrow> bool" where
  "carried v \<longleftrightarrow> v = VNil \<or> (\<exists>s. v = VString s \<and> is_ascii s)"

definition signs_ok :: "('p, 'k) jwt_signer \<Rightarrow> 'k jwt_lib \<Rightarrow> 'p \<Rightarrow> bool" where
  "signs_ok S J p \<longleftrightarrow>
     (\<forall>token m kid. tok_Claims token = MapClaims m \<longrightarrow> (\<forall>c. plain (m c)) \<longrightarrow>
        tok_Header token = (tok_Header (js_New S))(''kid'' := VString kid) \<longrightarrow> (\<exists>s. js_SignedString S token p = Inr s)) \<and>
     (\<forall>token m kid. tok_Claims token = MapClaims m \<longrightarrow> (\<forall>c. plain (m c)) \<longrightarrow> (\<forall>c. c \<notin> set claim_names \<longrightarrow> m c = VNil) \<longrightarrow>
        tok_Header token = (tok_Header (js_New S))(''kid'' := VString kid) \<longrightarrow> is_ascii kid \<longrightarrow>
        (\<exists>s. js_SignedString S token p = Inr s \<and> compact s \<and>
           (\<forall>kf st. (\<forall>t0 st0. tok_Header t0 ''kid'' = VString kid \<longrightarrow> kf t0 st0 = Ret (Inr (js_PublicKey S p), st0)) \<longrightarrow>
              (\<exists>t' m'. jwt_Parse J s kf st = Ret (Inr t', st) \<and> tok_Raw t' = s \<and> tok_Valid t' \<and>
                 tok_Header t' ''kid'' = VString kid \<and> tok_Claims t' = MapClaims m' \<and>
                 (\<forall>c. carried (m c) \<longrightarrow> m' c = m c)))))"

text \<open>\<open>jwt.New\<close> gives a token without claims; goa's constructors keep what a context carries.\<close>

definition new_token_ok :: "('p, 'k) jwt_signer \<Rightarrow> bool" where
  "new_token_ok S \<longleftrightarrow> tok_Claims (js_New S) = MapClaims (\<lambda>c. VNil)"

definition keeps_context :: "('c, 'm) goa_lib \<Rightarrow> 'c \<Rightarrow> 'c \<Rightarrow> bool" where
  "keeps_context G c c' \<longleftrightarrow> ContextJWT G c' = ContextJWT G c \<and> ctx_Value G c' contextTokenManagerKey = ctx_Value G c contextTokenManagerKey"

definition server_ok :: "('c, 'm) goa_lib \<Rightarrow> 'c goa_server \<Rightarrow> bool" where
  "server_ok G GS \<longleftrightarrow>
     ContextJWT G (gs_Background GS) = None \<and> (\<forall>k. ctx_Value G (gs_Background GS) k = NoValue) \<and>
     (\<forall>c a. keeps_context G c (gs_WithAction GS c a) \<and> ContextAction G (gs_WithAction GS c a) = a) \<and>
     (\<forall>c r. keeps_context G c (gs_NewContext GS c r) \<and> ContextRequest G (gs_NewContext GS c r) = Some r \<and>
        ContextHasResponse G (gs_NewContext GS c r) \<and> ContextAction G (gs_NewContext GS c r) = ContextAction G c) \<and>
     (\<forall>n. ContextJWT G (gs_New GS n) = None)"


subsection \<open>Lemmas\<close>

lemma set_claims_map:
  "tok_Claims t = MapClaims m \<Longrightarrow>
     set_claims kvs t = Ret (t\<lparr>tok_Claims := MapClaims (foldl (\<lambda>m (k, v). m(k := v)) m kvs)\<rparr>)"
  by (induction kvs arbitrary: t m) (auto simp: set_claim_def)

text \<open>The extra claims of this file.\<close>

fun email_extra :: "string + bool \<Rightarrow> extra_claim" where
  "email_extra (Inl email) = WithEmailClaim email"
| "email_extra (Inr verified) = WithEmailVerifiedClaim verified"

lemma apply_email_extras:
  assumes "tok_Claims t = MapClaims m"
  shows "\<exists>m'. apply_extras (map email_extra xs) t = Ret (t\<lparr>tok_Claims := MapClaims m'\<rparr>) \<and>
    (\<forall>c. c \<notin> {''email'', ''email_verified''} \<longrightarrow> m' c = m c) \<and> ((\<forall>c. plain (m c)) \<longrightarrow> (\<forall>c. plain (m' c)))"
  using assms
proof (induction xs arbitrary: t m)
  case Nil
  then show ?case by (intro exI [of _ m]) simp
next
  case (Cons x xs)
  obtain k v where x: "email_extra x = set_claim k v" and k: "k \<in> {''email'', ''email_verified''}" and v: "plain v"
    by (cases x) (auto simp: WithEmailClaim_def WithEmailVerifiedClaim_def plain_def)
  let ?t = "t\<lparr>tok_Claims := MapClaims (m(k := v))\<rparr>"
  have step: "email_extra x t = Ret ?t" using x Cons.prems by (simp add: set_claim_def)
  have claims: "tok_Claims ?t = MapClaims (m(k := v))" by simp
  obtain m' where m': "apply_extras (map email_extra xs) ?t = Ret (?t\<lparr>tok_Claims := MapClaims m'\<rparr>)"
    "\<And>c. c \<notin> {''email'', ''email_verified''} \<Longrightarrow> m' c = (m(k := v)) c"
    "(\<forall>c. plain ((m(k := v)) c)) \<longrightarrow> (\<forall>c. plain (m' c))"
    using Cons.IH [OF claims] by blast
  have "m' c = m c" if "c \<notin> {''email'', ''email_verified''}" for c
  proof -
    from that k have "c \<noteq> k" by blast
    with m'(2) [OF that] show ?thesis by simp
  qed
  moreover have "(\<forall>c. plain (m c)) \<longrightarrow> (\<forall>c. plain (m' c))" using m'(3) v by simp
  ultimately show ?case using step m'(1) by (intro exI [of _ m']) simp
qed

lemma common_test_request: "\<exists>r u. NewRequest_GET ''https://common-test'' = Inr r \<and> req_URL r = Some u \<and> url_Host u = ''common-test''"
proof -
  have "url_Parse ''https://common-test'' = Inr (empty_url\<lparr>url_Scheme := ''https'', url_Host := ''common-test''\<rparr>)" by code_simp
  then show ?thesis by (simp add: NewRequest_GET_def Let_def removeEmptyPort_def last_index_def)
qed

lemma ContextWithRequest_ok:
  assumes "server_ok G GS"
  shows "\<exists>c'. ContextWithRequest P GS ctx = Inr c' \<and> keeps_context G (case ctx of None \<Rightarrow> gs_Background GS | Some c \<Rightarrow> c) c' \<and>
    ContextHasResponse G c' \<and> ContextAction G c' = ''Test'' \<and> (\<exists>r u. ContextRequest G c' = Some r \<and> req_URL r = Some u)"
proof -
  obtain r u where "NewRequest_GET ''https://common-test'' = Inr r" "req_URL r = Some u" using common_test_request by blast
  then show ?thesis
    using assms by (auto simp: ContextWithRequest_def Let_def server_ok_def keeps_context_def)
qed

text \<open>Everything a token in the context of a fixture answers comes from its claims.\<close>

lemma embedded_context:
  assumes "goa_ok G" and "server_ok G GS"
  shows "\<exists>c. embedTokenInContext P G GS tm ctx tk = Inr c \<and> ContextJWT G c = Some tk \<and>
    ctx_Value G c contextTokenManagerKey = AManager tm"
proof -
  let ?c0 = "case ctx of None \<Rightarrow> gs_Background GS | Some c \<Rightarrow> c"
  let ?c = "WithJWT G (ContextWithTokenManager G ?c0 (AManager tm)) tk"
  obtain c' where "ContextWithRequest P GS (Some ?c) = Inr c'" "keeps_context G ?c c'"
    using ContextWithRequest_ok [OF assms(2), of P "Some ?c"] by auto
  then show ?thesis
    using WithJWT_ok(1,4) [OF assms(1)] WithValue_ok(1) [OF assms(1)]
    by (simp add: embedTokenInContext_def Let_def keeps_context_def ContextWithTokenManager_def)
qed

lemma located:
  assumes "ContextJWT (env_G env) c = Some t" and "ctx_Value (env_G env) c contextTokenManagerKey = AManager tm"
    and "tok_Claims t = MapClaims m" and "m ''sub'' = VString s" and "uuid_FromString U s = Inr u"
    and "m ''preferred_username'' = VString name"
  shows "LocateIdentity env U c st = Ret (Inr (u, name), st)"
  using assms by (simp add: LocateIdentity_def ReadManagerFromContext_def Locate_def map_claims_def)

lemma extracted:
  assumes "ContextJWT G c = Some t" and "tok_Claims t = MapClaims m"
  shows "m ''service_accountname'' = VNil \<Longrightarrow> IsServiceAccount G c = Ret False"
    and "m ''service_accountname'' = VString a \<Longrightarrow> IsSpecificServiceAccount G c names = Ret (a \<in> set names)"
proof -
  have loop: "account_loop a ns \<longleftrightarrow> a \<in> set ns" for ns by (induction ns) auto
  show "m ''service_accountname'' = VNil \<Longrightarrow> IsServiceAccount G c = Ret False"
    using assms by (simp add: IsServiceAccount_def ExtractServiceAccountName_def map_claims_def)
  show "m ''service_accountname'' = VString a \<Longrightarrow> IsSpecificServiceAccount G c names = Ret (a \<in> set names)"
    using assms by (simp add: IsSpecificServiceAccount_def ExtractServiceAccountName_def map_claims_def loop)
qed

text \<open>The fixtures' manager has one key, under the ID the tokens name, and accepts what the fixtures sign.\<close>

lemma newManager_key:
  assumes "newManager S = Ret tm"
  obtains p where "js_ParsePEM S DevModeRsaPrivateKey = Inr p" "defaultPrivateKey S = Ret p"
    "tm = NewManagerWithPublicKey ''test-key'' (js_PublicKey S p) defaultCfg"
  using assms by (auto simp: newManager_def defaultPrivateKey_def go_bind_eq_Ret split: sum.splits)

lemma manager_Parse_accepts:
  "jwt_Parse J s (keyFunction env mgm ctx) st = Ret (Inr t, st1) \<Longrightarrow> manager_Parse J env mgm ctx s st = Ret (Inr t, st1)"
  by (simp add: manager_Parse_def)

lemma fixture_signed:
  fixes S :: "('p, 'k) jwt_signer"
  assumes "newManager S = Ret tm" and "\<And>p. signs_ok S J p"
    and "tok_Claims token = MapClaims m" and "\<forall>c. c \<notin> set claim_names \<longrightarrow> m c = VNil"
    and "\<forall>c. plain (m c)" and "tok_Header token = tok_Header (js_New S)"
  shows "\<exists>s. signed_or_panic S token = Ret s \<and> compact s \<and>
    (\<forall>(env :: ('c, 'k tokenManager) log_env) ctx st. \<exists>t' m'. manager_Parse J env tm ctx s st = Ret (Inr t', st) \<and> tok_Raw t' = s \<and> tok_Claims t' = MapClaims m' \<and>
       (\<forall>c. carried (m c) \<longrightarrow> m' c = m c))"
proof -
  obtain p where p: "defaultPrivateKey S = Ret p" "tm = NewManagerWithPublicKey ''test-key'' (js_PublicKey S p) defaultCfg"
    using newManager_key [OF assms(1)] by blast
  have kid: "tok_Claims (with_kid token) = MapClaims m" "tok_Header (with_kid token) = (tok_Header (js_New S))(''kid'' := VString ''test-key'')"
    using assms(3,6) by (simp_all add: with_kid_def)
  have "is_ascii ''test-key''" by (simp add: is_ascii_def)
  with assms(2) [of p, unfolded signs_ok_def, THEN conjunct2, rule_format, OF kid(1) assms(5) [rule_format] assms(4) [rule_format] kid(2)]
  obtain s where s: "js_SignedString S (with_kid token) p = Inr s" "compact s"
    "\<And>kf st. \<forall>t0 st0. tok_Header t0 ''kid'' = VString ''test-key'' \<longrightarrow> kf t0 st0 = Ret (Inr (js_PublicKey S p), st0) \<Longrightarrow>
       \<exists>t' m'. jwt_Parse J s kf st = Ret (Inr t', st) \<and> tok_Raw t' = s \<and> tok_Valid t' \<and>
         tok_Header t' ''kid'' = VString ''test-key'' \<and> tok_Claims t' = MapClaims m' \<and>
         (\<forall>c. carried (m c) \<longrightarrow> m' c = m c)"
    by auto
  have parse: "\<exists>t' m'. manager_Parse J env tm ctx s st = Ret (Inr t', st) \<and> tok_Raw t' = s \<and> tok_Claims t' = MapClaims m' \<and>
       (\<forall>c. carried (m c) \<longrightarrow> m' c = m c)"
    for env :: "('c, 'k tokenManager) log_env" and ctx st
  proof -
    have "\<forall>t0 st0. tok_Header t0 ''kid'' = VString ''test-key'' \<longrightarrow> keyFunction env tm ctx t0 st0 = Ret (Inr (js_PublicKey S p), st0)"
      by (simp add: keyFunction_def p(2) NewManagerWithPublicKey_def PublicKey_def print_arg_def extra_args_def)
    from s(3) [OF this, of st] obtain t' m' where j: "jwt_Parse J s (keyFunction env tm ctx) st = Ret (Inr t', st)"
      "tok_Raw t' = s" "tok_Claims t' = MapClaims m'" "\<forall>c. carried (m c) \<longrightarrow> m' c = m c"
      by (elim exE conjE) (rule that)
    from manager_Parse_accepts [OF j(1)] j(2-4) show ?thesis by (intro exI conjI)
  qed
  from s(1,2) p(1) have "signed_or_panic S token = Ret s \<and> compact s" by (simp add: signed_or_panic_def)
  with parse show ?thesis by blast
qed

lemma GenerateToken_ok:
  fixes S :: "('p, 'k) jwt_signer"
  assumes "newManager S = Ret tm" and "\<And>p. signs_ok S J p" and "new_token_ok S" and "is_ascii sub" and "is_ascii name"
  shows "\<exists>s. GenerateToken S sub name (map email_extra xs) = Ret s \<and> compact s \<and>
    (\<forall>(env :: ('c, 'k tokenManager) log_env) ctx st. \<exists>t m. manager_Parse J env tm ctx s st = Ret (Inr t, st) \<and> tok_Raw t = s \<and> tok_Claims t = MapClaims m \<and>
       m ''sub'' = VString sub \<and> m ''preferred_username'' = VString name \<and> m ''service_accountname'' = VNil)"
proof -
  let ?kvs = "[(''uuid'', VString sub), (''preferred_username'', VString name), (''sub'', VString sub),
    (''email'', VString (name @ ''@email.com''))]"
  let ?m0 = "foldl (\<lambda>m (k, v). m(k := v)) (\<lambda>c. VNil) ?kvs"
  let ?t0 = "(js_New S)\<lparr>tok_Claims := MapClaims ?m0\<rparr>"
  have t0: "set_claims ?kvs (js_New S) = Ret ?t0"
    using assms(3) by (intro set_claims_map) (simp add: new_token_ok_def)
  have c0: "tok_Claims ?t0 = MapClaims ?m0" by simp
  obtain m where m: "apply_extras (map email_extra xs) ?t0 = Ret (?t0\<lparr>tok_Claims := MapClaims m\<rparr>)"
    "\<And>c. c \<notin> {''email'', ''email_verified''} \<Longrightarrow> m c = ?m0 c" "\<forall>c. plain (?m0 c) \<Longrightarrow> \<forall>c. plain (m c)"
    using apply_email_extras [OF c0, of xs] by blast
  let ?t = "?t0\<lparr>tok_Claims := MapClaims m\<rparr>"
  have names: "\<forall>c. c \<notin> set claim_names \<longrightarrow> m c = VNil" using m(2) by (simp add: claim_names_def)
  have plain: "\<forall>c. plain (m c)" by (rule m(3)) (simp add: plain_def)
  have claims: "m ''sub'' = VString sub" "m ''preferred_username'' = VString name" "m ''service_accountname'' = VNil"
    using m(2) by simp_all
  have t: "tok_Claims ?t = MapClaims m" and header: "tok_Header ?t = tok_Header (js_New S)" by simp_all
  have "GenerateToken S sub name (map email_extra xs) = signed_or_panic S ?t"
    unfolding GenerateToken_def t0 go_bind.simps m(1) ..
  moreover obtain s where s: "signed_or_panic S ?t = Ret s" "compact s"
    "\<forall>(env :: ('c, 'k tokenManager) log_env) ctx st. \<exists>t' m'. manager_Parse J env tm ctx s st = Ret (Inr t', st) \<and> tok_Raw t' = s \<and> tok_Claims t' = MapClaims m' \<and>
       (\<forall>c. carried (m c) \<longrightarrow> m' c = m c)"
    using fixture_signed [OF assms(1,2) t names plain header] by (elim exE conjE) (rule that)
  moreover have "\<exists>t m. manager_Parse J env tm ctx s st = Ret (Inr t, st) \<and> tok_Raw t = s \<and> tok_Claims t = MapClaims m \<and>
       m ''sub'' = VString sub \<and> m ''preferred_username'' = VString name \<and> m ''service_accountname'' = VNil"
    for env :: "('c, 'k tokenManager) log_env" and ctx st
  proof -
    from s(3) [rule_format, of env ctx st] obtain t' m' where "manager_Parse J env tm ctx s st = Ret (Inr t', st)" "tok_Raw t' = s"
      "tok_Claims t' = MapClaims m'" and m': "\<And>c. carried (m c) \<Longrightarrow> m' c = m c" by blast
    moreover have "m' ''sub'' = VString sub" "m' ''preferred_username'' = VString name" "m' ''service_accountname'' = VNil"
      using m' [of "''sub''"] m' [of "''preferred_username''"] m' [of "''service_accountname''"] claims assms(4,5)
      by (simp_all add: carried_def)
    ultimately show ?thesis by blast
  qed
  ultimately show ?thesis by (intro exI [of _ s]) simp
qed

lemma GenerateServiceAccountToken_ok:
  fixes S :: "('p, 'k) jwt_signer"
  assumes "newManager S = Ret tm" and "\<And>p. signs_ok S J p" and "new_token_ok S" and "is_ascii name"
  shows "\<exists>s. GenerateServiceAccountToken S name = Ret s \<and> compact s \<and>
    (\<forall>(env :: ('c, 'k tokenManager) log_env) ctx st. \<exists>t m. manager_Parse J env tm ctx s st = Ret (Inr t, st) \<and> tok_Raw t = s \<and> tok_Claims t = MapClaims m \<and>
       m ''service_accountname'' = VString name)"
proof -
  let ?m = "(\<lambda>c. VNil)(''service_accountname'' := VString name)"
  let ?t = "(js_New S)\<lparr>tok_Claims := MapClaims ?m\<rparr>"
  have t: "tok_Claims ?t = MapClaims ?m" and names: "\<forall>c. c \<notin> set claim_names \<longrightarrow> ?m c = VNil" and plain: "\<forall>c. plain (?m c)"
    and header: "tok_Header ?t = tok_Header (js_New S)"
    by (simp_all add: claim_names_def plain_def)
  have "GenerateServiceAccountToken S name = signed_or_panic S ?t"
    using assms(3) by (simp add: GenerateServiceAccountToken_def set_claim_def new_token_ok_def)
  moreover obtain s where s: "signed_or_panic S ?t = Ret s" "compact s"
    "\<forall>(env :: ('c, 'k tokenManager) log_env) ctx st. \<exists>t' m'. manager_Parse J env tm ctx s st = Ret (Inr t', st) \<and> tok_Raw t' = s \<and> tok_Claims t' = MapClaims m' \<and>
       (\<forall>c. carried (?m c) \<longrightarrow> m' c = ?m c)"
    using fixture_signed [OF assms(1,2) t names plain header] by (elim exE conjE) (rule that)
  moreover have "\<exists>t m. manager_Parse J env tm ctx s st = Ret (Inr t, st) \<and> tok_Raw t = s \<and> tok_Claims t = MapClaims m \<and>
       m ''service_accountname'' = VString name" for env :: "('c, 'k tokenManager) log_env" and ctx st
  proof -
    from s(3) [rule_format, of env ctx st] obtain t' m' where "manager_Parse J env tm ctx s st = Ret (Inr t', st)" "tok_Raw t' = s"
      "tok_Claims t' = MapClaims m'" and m': "\<And>c. carried (?m c) \<Longrightarrow> m' c = ?m c" by blast
    moreover have "m' ''service_accountname'' = VString name"
      using m' [of "''service_accountname''"] assms(4) by (simp add: carried_def)
    ultimately show ?thesis by blast
  qed
  ultimately show ?thesis by (intro exI [of _ s]) simp
qed

text \<open>The tokens for an identity: signed, with the identity's claims.\<close>

lemma signToken_ok:
  assumes "newManager S = Ret tm" and "\<And>p. signs_ok S J p" and "tok_Claims t = MapClaims m" and "\<forall>c. plain (m c)"
    and "tok_Header t = (tok_Header (js_New S))(''kid'' := VString kid)"
  shows "\<exists>s. signToken P S t = Ret (Inr (s, t\<lparr>tok_Raw := s\<rparr>))"
proof -
  obtain p where p: "defaultPrivateKey S = Ret p" using newManager_key [OF assms(1)] by blast
  obtain s where "js_SignedString S t p = Inr s" using assms(2) [of p, unfolded signs_ok_def] assms(3-5) by blast
  with p show ?thesis by (simp add: signToken_def)
qed

lemma signed_user_token:
  assumes "new_token_ok S" and "\<And>p. signs_ok S J p" and "newManager S = Ret tm"
  shows "\<exists>s t m. GenerateSignedUserToken P S U jti now (Some i) = Ret (Inr (s, t)) \<and> tok_Raw t = s \<and> tok_Claims t = MapClaims m \<and>
    m ''sub'' = VString (uuid_String U (id_ID i)) \<and> m ''preferred_username'' = VString (id_Username i)"
proof -
  obtain t m where t: "generateUserToken S U jti now (Some i) = Ret t" "tok_Claims t = MapClaims m"
      "tok_Header t = (tok_Header (js_New S))(''kid'' := VString ''test-key'')" and plain: "\<forall>c. plain (m c)"
    and m: "m ''sub'' = VString (uuid_String U (id_ID i))" "m ''preferred_username'' = VString (id_Username i)"
    using assms(1) by (simp add: generateUserToken_def set_claim_def new_token_ok_def with_kid_def plain_def)
  obtain s where "signToken P S t = Ret (Inr (s, t\<lparr>tok_Raw := s\<rparr>))" using signToken_ok [OF assms(3,2) t(2) plain t(3)] by blast
  with t m show ?thesis by (simp add: GenerateSignedUserToken_def)
qed

lemma signed_account_token:
  assumes "new_token_ok S" and "\<And>p. signs_ok S J p" and "newManager S = Ret tm"
  shows "\<exists>s t m. GenerateSignedServiceAccountToken P S U jti now (Some i) = Ret (Inr (s, t)) \<and> tok_Raw t = s \<and>
    tok_Claims t = MapClaims m \<and> m ''service_accountname'' = VString (id_Username i) \<and> m ''preferred_username'' = VNil"
proof -
  obtain t m where t: "generateServiceAccountToken S U jti now (Some i) = Ret t" "tok_Claims t = MapClaims m"
      "tok_Header t = (tok_Header (js_New S))(''kid'' := VString ''test-key'')" and plain: "\<forall>c. plain (m c)"
    and m: "m ''service_accountname'' = VString (id_Username i)" "m ''preferred_username'' = VNil"
    using assms(1) by (simp add: generateServiceAccountToken_def set_claim_def new_token_ok_def with_kid_def plain_def)
  obtain s where "signToken P S t = Ret (Inr (s, t\<lparr>tok_Raw := s\<rparr>))" using signToken_ok [OF assms(3,2) t(2) plain t(3)] by blast
  with t m show ?thesis by (simp add: GenerateSignedServiceAccountToken_def)
qed

lemma lower_Bearer: "map lower_byte ''Bearer '' = ''bearer ''"
  by code_simp

lemma bearer_accepted:
  assumes "good_caller (env_caller env)" and "readable_identity (env_G env) ctx" and "sch_In scheme = LocHeader"
    and "header_Get (req_Header req) (sch_Name scheme) = ''Bearer '' @ s" and "compact s"
    and "\<And>st. \<exists>t. manager_Parse J env mgm ctx s st = Ret (Inr t, st) \<and> Q t"
  shows "\<exists>t st'. TokenContext J env uni mk mgm scheme nh ctx req resp st = nh (WithJWT (env_G env) ctx t) req resp st' \<and> Q t"
proof -
  let ?val = "''Bearer '' @ s"
  have "is_ascii ?val" using assms(5) by (simp add: is_ascii_def compact_def)
  then have lower: "HasPrefix (ToLower uni ?val) ''bearer ''"
    unfolding ToLower_def map_append lower_Bearer HasPrefix_iff by (simp only: if_True) blast
  have "Split (''Bearer'' @ CHR '' '' # s) (CHR '' '') = [''Bearer'', s]"
    using Split_no_sep [of "CHR '' ''" s] assms(5) by (simp add: Split_append compact_def del: append.simps)
  then have parts: "Split ?val (CHR '' '') = [''Bearer'', s]" by simp
  obtain st1 where 1: "log_Debug env (Some ctx) Map.empty
      (''found header '' @ [CHR 0x27] @ ''Authorization: Bearer JWT-token...'' @ [CHR 0x27]) [] st = Ret st1"
    using log_Debug_total [OF assms(1,2)] by blast
  obtain st2 where 2: "log_Debug env (Some ctx) Map.empty ''extracted the incoming token %v '' [VString s] st1 = Ret st2"
    using log_Debug_total [OF assms(1,2)] by blast
  obtain t where t: "manager_Parse J env mgm ctx s st2 = Ret (Inr t, st2)" "Q t" using assms(6) by blast
  have "TokenContext J env uni mk mgm scheme nh ctx req resp st = nh (WithJWT (env_G env) ctx t) req resp st2"
    unfolding TokenContext_def middleware_handler_def assms(4) Let_def parts using assms(3) lower 1 2 t(1) by simp
  with t(2) show ?thesis by blast
qed

subsection \<open>The properties\<close>

lemma EmbedTokenInContext_located:
  fixes S :: "('p, 'k) jwt_signer"
  assumes "goa_ok (env_G env)" and "server_ok (env_G env) GS" and "new_token_ok S" and "\<And>p. signs_ok S J p"
    and "newManager S = Ret tm" and "uuid_lib_ok U" and "is_ascii (uuid_String U u)" and "is_ascii name"
  shows "\<exists>c s. EmbedTokenInContext env J S GS tm (uuid_String U u) name (map email_extra xs) st = Ret (Inr (c, s), st) \<and>
       LocateIdentity env U c st' = Ret (Inr (u, name), st') \<and> IsServiceAccount (env_G env) c = Ret False \<and>
       NewForwardSigner (env_G env) c = Some \<lparr>fs_token = s\<rparr>"
proof -
  let ?G = "env_G env"
  have rt: "uuid_FromString U (uuid_String U v) = Inr v" for v using assms(6) by (simp add: uuid_lib_ok_def)
  from GenerateToken_ok [OF assms(5,4,3,7,8), of xs] obtain s where
    s: "GenerateToken S (uuid_String U u) name (map email_extra xs) = Ret s"
    and parsed: "\<forall>(env :: ('a, 'k tokenManager) log_env) ctx st. \<exists>t m. manager_Parse J env tm ctx s st = Ret (Inr t, st) \<and>
       tok_Raw t = s \<and> tok_Claims t = MapClaims m \<and> m ''sub'' = VString (uuid_String U u) \<and>
       m ''preferred_username'' = VString name \<and> m ''service_accountname'' = VNil"
    by (elim exE conjE) (rule that)
  from parsed [rule_format, of env "gs_Background GS" st] obtain t m where t: "manager_Parse J env tm (gs_Background GS) s st = Ret (Inr t, st)" "tok_Raw t = s" "tok_Claims t = MapClaims m"
      "m ''sub'' = VString (uuid_String U u)" "m ''preferred_username'' = VString name" "m ''service_accountname'' = VNil"
    by blast
  obtain c' where c': "ContextWithRequest (env_P env) GS (Some (WithJWT ?G (gs_Background GS) t)) = Inr c'"
    "ContextJWT ?G c' = Some t"
    using ContextWithRequest_ok [OF assms(2), of "env_P env" "Some (WithJWT ?G (gs_Background GS) t)"] WithJWT_ok(1) [OF assms(1)]
    by (auto simp: keeps_context_def)
  let ?c = "ContextWithTokenManager ?G c' (AManager tm)"
  have c: "ContextJWT ?G ?c = Some t" "ctx_Value ?G ?c contextTokenManagerKey = AManager tm"
    using c'(2) WithValue_ok(1,2) [OF assms(1)] by (simp_all add: ContextWithTokenManager_def)
  have "EmbedTokenInContext env J S GS tm (uuid_String U u) name (map email_extra xs) st = Ret (Inr (?c, s), st)"
    by (simp add: EmbedTokenInContext_def s t(1) c'(1))
  moreover have "LocateIdentity env U ?c st' = Ret (Inr (u, name), st')"
    by (rule located [OF c t(3,4) rt t(5)])
  moreover have "IsServiceAccount ?G ?c = Ret False" by (rule extracted(1) [OF c(1) t(3,6)])
  moreover have "NewForwardSigner ?G ?c = Some \<lparr>fs_token = s\<rparr>" using c(1) t(2) by (simp add: NewForwardSigner_def)
  ultimately show ?thesis by blast
qed

lemma EmbedUserTokenInContext_located:
  fixes S :: "('p, 'k) jwt_signer"
  assumes "goa_ok (env_G env)" and "server_ok (env_G env) GS" and "new_token_ok S" and "\<And>p. signs_ok S J p"
    and "newManager S = Ret tm" and "uuid_lib_ok U"
  shows "\<exists>c i. EmbedUserTokenInContext (env_P env) (env_G env) S GS U tm ids jti now ctx identity = Ret (Inr (c, i)) \<and>
       (\<forall>j. identity = Some j \<longrightarrow> i = j) \<and> LocateIdentity env U c st' = Ret (Inr (id_ID i, id_Username i), st')"
proof -
  let ?G = "env_G env"
  let ?i = "case identity of None \<Rightarrow> NewIdentity U ids | Some i \<Rightarrow> i"
  obtain s t m where t: "GenerateSignedUserToken (env_P env) S U jti now (Some ?i) = Ret (Inr (s, t))" "tok_Claims t = MapClaims m"
      "m ''sub'' = VString (uuid_String U (id_ID ?i))" "m ''preferred_username'' = VString (id_Username ?i)"
    using signed_user_token [OF assms(3,4,5)] by blast
  obtain c where c: "embedTokenInContext (env_P env) ?G GS tm ctx t = Inr c" "ContextJWT ?G c = Some t"
    "ctx_Value ?G c contextTokenManagerKey = AManager tm"
    using embedded_context [OF assms(1,2)] by blast
  have "LocateIdentity env U c st' = Ret (Inr (id_ID ?i, id_Username ?i), st')"
    using assms(6) by (intro located [OF c(2,3) t(2,3) _ t(4)]) (simp add: uuid_lib_ok_def)
  moreover have "EmbedUserTokenInContext (env_P env) ?G S GS U tm ids jti now ctx identity = Ret (Inr (c, ?i))"
    unfolding EmbedUserTokenInContext_def Let_def t(1) by (simp add: c(1))
  ultimately show ?thesis by (intro exI [of _ c] exI [of _ ?i]) simp
qed

text \<open>C24: A user that a test puts into a context is the user the code under test finds there. \<open>EmbedTokenInContext\<close>
  signs a token, has the manager parse it again and embeds the result: the UUID and the name come back from
  \<open>LocateIdentity\<close>, the request is no service account's, and what is forwarded to other services is the very
  string that was signed. \<open>EmbedUserTokenInContext\<close> embeds the token it just made, for the identity it is given, or for a new
  one, which it returns.\<close>

theorem embedded_user_is_located:
  fixes S :: "('p, 'k) jwt_signer"
  assumes "goa_ok (env_G env)" and "server_ok (env_G env) GS" and "new_token_ok S" and "\<And>p. signs_ok S J p"
    and "newManager S = Ret tm" and "uuid_lib_ok U" and "is_ascii (uuid_String U u)" and "is_ascii name"
  shows "(\<exists>c s. EmbedTokenInContext env J S GS tm (uuid_String U u) name (map email_extra xs) st = Ret (Inr (c, s), st) \<and>
       LocateIdentity env U c st' = Ret (Inr (u, name), st') \<and> IsServiceAccount (env_G env) c = Ret False \<and>
       NewForwardSigner (env_G env) c = Some \<lparr>fs_token = s\<rparr>) \<and>
    (\<exists>c i. EmbedUserTokenInContext (env_P env) (env_G env) S GS U tm ids jti now ctx identity = Ret (Inr (c, i)) \<and>
       (\<forall>j. identity = Some j \<longrightarrow> i = j) \<and> LocateIdentity env U c st' = Ret (Inr (id_ID i, id_Username i), st'))"
  by (intro conjI EmbedTokenInContext_located [OF assms] EmbedUserTokenInContext_located [OF assms(1-6)])

lemma GenerateServiceAccountToken_authenticates:
  fixes S :: "('p, 'k) jwt_signer"
  assumes "goa_ok (env_G env)" and "new_token_ok S" and "\<And>p. signs_ok S J p" and "newManager S = Ret tm" and "is_ascii name"
    and "good_caller (env_caller env)" and "readable_identity (env_G env) ctx" and "sch_In scheme = LocHeader"
  shows "\<exists>s. GenerateServiceAccountToken S name = Ret s \<and>
       (header_Get (req_Header req) (sch_Name scheme) = ''Bearer '' @ s \<longrightarrow>
          (\<exists>t st'. TokenContext J env uni mk tm scheme nh ctx req resp st = nh (WithJWT (env_G env) ctx t) req resp st' \<and>
             IsSpecificServiceAccount (env_G env) (WithJWT (env_G env) ctx t) names = Ret (name \<in> set names)))"
proof -
  let ?G = "env_G env"
  from GenerateServiceAccountToken_ok [OF assms(4,3,2,5)] obtain s where
    s: "GenerateServiceAccountToken S name = Ret s" "compact s"
    and parsed: "\<forall>(env :: ('a, 'k tokenManager) log_env) ctx st. \<exists>t m. manager_Parse J env tm ctx s st = Ret (Inr t, st) \<and>
       tok_Raw t = s \<and> tok_Claims t = MapClaims m \<and> m ''service_accountname'' = VString name"
    by (elim exE conjE) (rule that)
  let ?Q = "\<lambda>t. \<exists>m. tok_Claims t = MapClaims m \<and> m ''service_accountname'' = VString name"
  have parse: "\<exists>t. manager_Parse J env tm ctx s st = Ret (Inr t, st) \<and> ?Q t" for st
    using parsed [rule_format, of env ctx st] by blast
  have "\<exists>t st'. TokenContext J env uni mk tm scheme nh ctx req resp st = nh (WithJWT ?G ctx t) req resp st' \<and>
             IsSpecificServiceAccount ?G (WithJWT ?G ctx t) names = Ret (name \<in> set names)"
    if bearer: "header_Get (req_Header req) (sch_Name scheme) = ''Bearer '' @ s"
  proof -
    obtain t m st' where "TokenContext J env uni mk tm scheme nh ctx req resp st = nh (WithJWT ?G ctx t) req resp st'"
      "tok_Claims t = MapClaims m" "m ''service_accountname'' = VString name"
      using bearer_accepted [where Q = ?Q, OF assms(6,7,8) bearer s(2) parse, of uni mk nh resp st] by blast
    with extracted(2) [OF WithJWT_ok(1) [OF assms(1)]] show ?thesis by blast
  qed
  with s(1) show ?thesis by blast
qed

text \<open>C25: A service account's token is recognised wherever it comes from. Sent as a bearer token it passes \<open>TokenContext\<close>, whose next
  handler finds the account; \<open>ServiceAsServiceAccountUser\<close> puts it into the service's context directly, where the account is
  found too, but no identity, since the token names no user. Without an identity this fixture, unlike
  the one for users, panics; and an unsecured service has a manager but nobody is located there.\<close>

theorem service_account_fixtures:
  fixes S :: "('p, 'k) jwt_signer"
  assumes "goa_ok (env_G env)" and "server_ok (env_G env) GS" and "new_token_ok S" and "\<And>p. signs_ok S J p"
    and "newManager S = Ret tm" and "uuid_lib_ok U" and "is_ascii name"
    and "good_caller (env_caller env)" and "readable_identity (env_G env) ctx" and "sch_In scheme = LocHeader"
  shows "(\<exists>s. GenerateServiceAccountToken S name = Ret s \<and>
       (header_Get (req_Header req) (sch_Name scheme) = ''Bearer '' @ s \<longrightarrow>
          (\<exists>t st'. TokenContext J env uni mk tm scheme nh ctx req resp st = nh (WithJWT (env_G env) ctx t) req resp st' \<and>
             IsSpecificServiceAccount (env_G env) (WithJWT (env_G env) ctx t) names = Ret (name \<in> set names)))) \<and>
    (\<exists>svc e. ServiceAsServiceAccountUser (env_P env) (env_G env) S GS U tm jti now serviceName (Some i) = Ret (Inr svc) \<and>
       svc_Name svc = serviceName \<and>
       IsSpecificServiceAccount (env_G env) (svc_Context svc) names = Ret (id_Username i \<in> set names) \<and>
       LocateIdentity env U (svc_Context svc) st = Ret (Inl e, st)) \<and>
    panics (ServiceAsServiceAccountUser (env_P env) (env_G env) S GS U tm jti now serviceName None) \<and>
    (\<exists>e. LocateIdentity env U (svc_Context (UnsecuredService (env_G env) GS tm serviceName)) st = Ret (Inl e, st))"
proof (intro conjI GenerateServiceAccountToken_authenticates [OF assms(1,3,4,5,7-10)])
  let ?G = "env_G env"
  obtain s t m where t: "GenerateSignedServiceAccountToken (env_P env) S U jti now (Some i) = Ret (Inr (s, t))"
    "tok_Claims t = MapClaims m" "m ''service_accountname'' = VString (id_Username i)" "m ''preferred_username'' = VNil"
    using signed_account_token [OF assms(3,4,5)] by blast
  obtain c where c: "embedTokenInContext (env_P env) ?G GS tm (Some (gs_Background GS)) t = Inr c" "ContextJWT ?G c = Some t"
    "ctx_Value ?G c contextTokenManagerKey = AManager tm"
    using embedded_context [OF assms(1,2)] by blast
  have "\<exists>e. LocateIdentity env U c st = Ret (Inl e, st)"
    using c(2,3) t(2,4) by (auto simp: LocateIdentity_def ReadManagerFromContext_def Locate_def map_claims_def split: option.split sum.split)
  then show "\<exists>svc e. ServiceAsServiceAccountUser (env_P env) ?G S GS U tm jti now serviceName (Some i) = Ret (Inr svc) \<and>
       svc_Name svc = serviceName \<and>
       IsSpecificServiceAccount ?G (svc_Context svc) names = Ret (id_Username i \<in> set names) \<and>
       LocateIdentity env U (svc_Context svc) st = Ret (Inl e, st)"
    using extracted(2) [OF c(2) t(2,3)]
    by (simp add: ServiceAsServiceAccountUser_def EmbedServiceAccountTokenInContext_def t(1) c(1) goa_New_def)
  show "panics (ServiceAsServiceAccountUser (env_P env) ?G S GS U tm jti now serviceName None)"
    by (simp add: ServiceAsServiceAccountUser_def EmbedServiceAccountTokenInContext_def GenerateSignedServiceAccountToken_def
        generateServiceAccountToken_def)
  have "ContextJWT ?G (gs_New GS serviceName) = None" using assms(2) by (simp add: server_ok_def)
  then show "\<exists>e. LocateIdentity env U (svc_Context (UnsecuredService ?G GS tm serviceName)) st = Ret (Inl e, st)"
    using WithValue_ok(1,2) [OF assms(1)]
    by (simp add: UnsecuredService_def goa_New_def LocateIdentity_def ReadManagerFromContext_def Locate_def ContextWithTokenManager_def)
qed

subsection \<open>A signer for evaluating concrete cases\<close>

text \<open>Texts as two letters per character and a dot; a claim that is no string is only marked.\<close>

definition enc_char :: "char \<Rightarrow> string" where
  "enc_char c = [char_of (97 + of_char c div 16 :: nat), char_of (97 + of_char c mod 16 :: nat)]"

definition dec_char :: "char \<Rightarrow> char \<Rightarrow> char" where
  "dec_char a b = char_of ((of_char a - 97) * 16 + (of_char b - 97) :: nat)"

definition enc_text :: "string \<Rightarrow> string" where
  "enc_text s = concat (map enc_char s) @ ''.''"

fun dec_text :: "string \<Rightarrow> string \<times> string" where
  "dec_text [] = ([], [])"
| "dec_text [a] = ([], [])"
| "dec_text (a # b # r) = (if a = CHR ''.'' then ([], b # r) else (let (s, q) = dec_text r in (dec_char a b # s, q)))"

definition enc_val :: "gval \<Rightarrow> string" where
  "enc_val v = (case v of VString s \<Rightarrow> ''s'' @ enc_text s | _ \<Rightarrow> ''n'')"

fun dec_vals :: "nat \<Rightarrow> string \<Rightarrow> gval list" where
  "dec_vals 0 r = []"
| "dec_vals (Suc n) [] = []"
| "dec_vals (Suc n) (a # r) =
     (if a = CHR ''n'' then VNil # dec_vals n r else (let (s, q) = dec_text r in VString s # dec_vals n q))"

definition toy_sign :: "jwt_token \<Rightarrow> string \<Rightarrow> string" where
  "toy_sign t p =
     (let m = (case tok_Claims t of MapClaims m \<Rightarrow> m | _ \<Rightarrow> (\<lambda>c. VNil)) in
      enc_val (tok_Header t ''kid'') @ ''s'' @ enc_text p @ concat (map (\<lambda>c. enc_val (m c)) claim_names) @ ''.'')"

definition toy_signer :: "(string, string) jwt_signer" where
  "toy_signer = \<lparr>js_New = \<lparr>tok_Raw = '''', tok_Header = (\<lambda>h. VNil), tok_Claims = MapClaims (\<lambda>c. VNil), tok_Valid = False\<rparr>,
     js_ParsePEM = Inr, js_SignedString = (\<lambda>t p. Inr (toy_sign t p)), js_PublicKey = (\<lambda>p. p)\<rparr>"

definition toy_parsed :: "string \<Rightarrow> jwt_token" where
  "toy_parsed s =
     (let vs = dec_vals (Suc (Suc (length claim_names))) s in
      \<lparr>tok_Raw = s, tok_Header = (\<lambda>h. if h = ''kid'' then vs ! 0 else VNil),
       tok_Claims = MapClaims (\<lambda>c. case map_of (zip claim_names (drop 2 vs)) c of None \<Rightarrow> VNil | Some v \<Rightarrow> v), tok_Valid = True\<rparr>)"

definition toy_parse :: "string \<Rightarrow> string keyfunc \<Rightarrow> log_state \<Rightarrow> ((goerror + jwt_token) \<times> log_state) go" where
  "toy_parse s kf st =
     go_bind (kf (toy_parsed s) st) (\<lambda>(r, st').
       case r of Inl e \<Rightarrow> Ret (Inl e, st')
       | Inr k \<Rightarrow> (if dec_vals 2 s ! 1 = VString k then Ret (Inr (toy_parsed s), st')
                    else Ret (Inl (std_errors_New ''crypto/rsa: verification error''), st')))"

definition toy_jwt :: "string jwt_lib" where
  "toy_jwt = \<lparr>jwt_Parse = toy_parse, jwt_ParseWithClaims = toy_parse\<rparr>"

lemma of_char_less_256: "(of_char c :: nat) < 256"
  using nat_of_char_less_256 [of c] by simp

lemma dec_enc_char: "dec_char (enc_char c ! 0) (enc_char c ! 1) = c" "enc_char c ! 0 \<noteq> CHR ''.''"
proof -
  have c: "(of_char c :: nat) < 256" by (rule of_char_less_256)
  then have d: "(of_char c :: nat) div 16 < 16" by presburger
  then show "dec_char (enc_char c ! 0) (enc_char c ! 1) = c" by (simp add: enc_char_def dec_char_def)
  have "(of_char (enc_char c ! 0) :: nat) \<ge> 97" using d by (simp add: enc_char_def)
  moreover have "(of_char (CHR ''.'') :: nat) = 46" by simp
  ultimately show "enc_char c ! 0 \<noteq> CHR ''.''" by (metis numeral_le_iff semiring_norm)
qed

lemma dec_enc_text: "r \<noteq> [] \<Longrightarrow> dec_text (enc_text s @ r) = (s, r)"
proof (induction s)
  case Nil
  then show ?case by (cases r) (simp_all add: enc_text_def)
next
  case (Cons c s)
  have "enc_text (c # s) @ r = enc_char c ! 0 # enc_char c ! 1 # (enc_text s @ r)" by (simp add: enc_text_def enc_char_def)
  with Cons dec_enc_char [of c] show ?case by simp
qed

definition strip :: "gval \<Rightarrow> gval" where
  "strip v = (case v of VString s \<Rightarrow> v | _ \<Rightarrow> VNil)"

lemma dec_vals_step: "r \<noteq> [] \<Longrightarrow> dec_vals (Suc n) (enc_val v @ r) = strip v # dec_vals n r"
  by (cases v) (simp_all add: enc_val_def strip_def dec_enc_text)

lemma dec_vals_all: "r \<noteq> [] \<Longrightarrow> dec_vals (length vs) (concat (map enc_val vs) @ r) = map strip vs"
  by (induction vs) (simp_all add: dec_vals_step)

lemma enc_compact: "is_ascii (enc_val v)" "CHR '' '' \<notin> set (enc_val v)"
proof -
  have range: "97 \<le> (of_char x :: nat) \<and> (of_char x :: nat) < 113" if "x \<in> set (enc_char c)" for x c
  proof -
    have "(of_char c :: nat) div 16 < 16" using of_char_less_256 [of c] by presburger
    with that show ?thesis by (auto simp: enc_char_def)
  qed
  have "CHR '' '' \<notin> set (enc_char c)" for c
    using range [of "CHR '' ''" c] by auto
  then show "CHR '' '' \<notin> set (enc_val v)" by (auto simp: enc_val_def enc_text_def split: gval.splits)
  have "is_ascii (enc_char c)" for c using range [of _ c] by (fastforce simp: is_ascii_def list_all_iff)
  then show "is_ascii (enc_val v)"
    by (auto simp: enc_val_def enc_text_def is_ascii_def list_all_iff split: gval.splits)
qed

lemma toy_signs_ok: "signs_ok toy_signer toy_jwt p"
  unfolding signs_ok_def
proof (intro conjI allI impI)
  fix token :: jwt_token and m kid
  assume m: "tok_Claims token = MapClaims m" and names: "\<forall>c. c \<notin> set claim_names \<longrightarrow> m c = VNil"
    and header: "tok_Header token = (tok_Header (js_New toy_signer))(''kid'' := VString kid)"
  have kid: "tok_Header token ''kid'' = VString kid" using header by simp
  let ?vs = "VString kid # VString p # map m claim_names"
  let ?s = "toy_sign token p"
  have s: "?s = concat (map enc_val ?vs) @ ''.''"
    by (simp add: toy_sign_def m kid enc_val_def comp_def)
  have dec: "dec_vals (length ?vs) ?s = map strip ?vs" unfolding s by (rule dec_vals_all) simp
  have dec2: "dec_vals 2 ?s = [VString kid, VString p]"
    unfolding s by (simp add: dec_vals_step numeral_2_eq_2 strip_def)
  have claims: "map_of (zip claim_names (map (\<lambda>c. strip (m c)) claim_names)) c =
      (if c \<in> set claim_names then Some (strip (m c)) else None)" for c
    by (simp add: map_of_zip_map)
  have parsed: "toy_parsed ?s = \<lparr>tok_Raw = ?s, tok_Header = (\<lambda>h. if h = ''kid'' then VString kid else VNil),
      tok_Claims = MapClaims (\<lambda>c. if c \<in> set claim_names then strip (m c) else VNil), tok_Valid = True\<rparr>"
    using dec by (simp add: toy_parsed_def Let_def strip_def [of "VString _"] comp_def claims fun_eq_iff)
  have keep: "(if c \<in> set claim_names then strip (m c) else VNil) = m c" if "carried (m c)" for c
    using that names by (auto simp: carried_def strip_def)
  have "compact ?s"
    unfolding s compact_def using enc_compact by (fastforce simp: is_ascii_def list_all_iff)
  moreover have "jwt_Parse toy_jwt ?s kf st = Ret (Inr (toy_parsed ?s), st)"
    if "\<forall>t0 st0. tok_Header t0 ''kid'' = VString kid \<longrightarrow> kf t0 st0 = Ret (Inr (js_PublicKey toy_signer p), st0)" for kf st
    using that dec2 by (simp add: toy_jwt_def toy_parse_def parsed toy_signer_def)
  ultimately show "\<exists>s. js_SignedString toy_signer token p = Inr s \<and> compact s \<and>
      (\<forall>kf st. (\<forall>t0 st0. tok_Header t0 ''kid'' = VString kid \<longrightarrow> kf t0 st0 = Ret (Inr (js_PublicKey toy_signer p), st0)) \<longrightarrow>
         (\<exists>t' m'. jwt_Parse toy_jwt s kf st = Ret (Inr t', st) \<and> tok_Raw t' = s \<and> tok_Valid t' \<and>
            tok_Header t' ''kid'' = VString kid \<and> tok_Claims t' = MapClaims m' \<and> (\<forall>c. carried (m c) \<longrightarrow> m' c = m c)))"
    using keep by (intro exI [of _ ?s]) (simp add: toy_signer_def parsed)
qed (simp add: toy_signer_def)

definition toy_server :: "'m plain_context goa_server" where
  "toy_server = \<lparr>gs_Background = background, gs_WithAction = (\<lambda>c a. c\<lparr>pc_action := a\<rparr>),
     gs_NewContext = (\<lambda>c r. c\<lparr>pc_request := Some r, pc_response := True\<rparr>), gs_New = (\<lambda>n. background)\<rparr>"

lemma toy_ok: "server_ok plain_goa toy_server" "new_token_ok toy_signer"
  by (simp_all add: server_ok_def keeps_context_def plain_goa_def toy_server_def background_def new_token_ok_def toy_signer_def)

definition toy_manager :: "string tokenManager" where
  "toy_manager = NewManagerWithPublicKey ''test-key'' DevModeRsaPrivateKey defaultCfg"

lemma toy_newManager: "newManager toy_signer = Ret toy_manager"
  by (simp add: newManager_def defaultPrivateKey_def toy_signer_def toy_manager_def)

theorem embedded_user_is_located_witness:
  "\<exists>c s. EmbedTokenInContext ex_auth_env toy_jwt toy_signer toy_server toy_manager ''42'' ''jdoe''
       [WithEmailClaim ''j@doe.org'', WithEmailVerifiedClaim False] quiet = Ret (Inr (c, s), quiet) \<and>
     LocateIdentity ex_auth_env decimal_uuids c quiet = Ret (Inr (42, ''jdoe''), quiet)"
proof -
  have G: "goa_ok (env_G ex_auth_env)" "server_ok (env_G ex_auth_env) toy_server" using ex_env_ok toy_ok by simp_all
  have u: "uuid_String decimal_uuids 42 = ''42''"
    by (simp add: decimal_uuids_def decimal_String_def nat_digits.simps digit_char_def)
  have ascii: "is_ascii (uuid_String decimal_uuids 42)" "is_ascii ''jdoe''" by (simp_all add: u is_ascii_def)
  from embedded_user_is_located [OF G toy_ok(2) toy_signs_ok toy_newManager decimal_uuids_ok ascii,
      of "[Inl ''j@doe.org'', Inr False]" quiet quiet "(1, 2, 3)" 4 5 None None]
  show ?thesis unfolding u by auto
qed

theorem service_account_fixtures_witness:
  "\<exists>svc. ServiceAsServiceAccountUser documented_errs plain_goa toy_signer toy_server decimal_uuids toy_manager 4 5 ''svc''
       (Some \<lparr>id_ID = 42, id_Username = ''fabric8-auth'', id_Email = ''''\<rparr>) = Ret (Inr svc) \<and>
     IsSpecificServiceAccount plain_goa (svc_Context svc) [WIT, Auth_account] = Ret True"
proof -
  have G: "goa_ok (env_G ex_auth_env)" "server_ok (env_G ex_auth_env) toy_server" using ex_env_ok toy_ok by simp_all
  have scheme: "sch_In ex_scheme = LocHeader" by (simp add: ex_scheme_def)
  have P: "env_P ex_auth_env = documented_errs" by (simp add: ex_auth_env_def)
  have ascii: "is_ascii ''fabric8-wit''" by (simp add: is_ascii_def)
  from service_account_fixtures [OF G toy_ok(2) toy_signs_ok toy_newManager decimal_uuids_ok ascii ex_env_ok(3,5) scheme,
      where names = "[WIT, Auth_account]" and i = "\<lparr>id_ID = 42, id_Username = ''fabric8-auth'', id_Email = ''''\<rparr>"
        and jti = 4 and now = 5 and serviceName = "''svc''" and st = quiet]
  show ?thesis unfolding ex_env_ok(4) P by (fastforce simp: account_names)
qed

end
