(* ===== verification/Db_Suite.thy ===== *)
theory Db_Suite
  imports Log Resource
begin

section \<open>Cleaning up a test database: \<open>test/suite/db_clean.go\<close>\<close>

text \<open>
  \<open>DeleteCreatedEntities\<close> hooks into gorm's creation of rows, records every entity created and gives a
  function that deletes them in reverse order, in one transaction. Gorm is the parameter \<open>gorm_lib\<close>, over
  connections \<open>'d\<close> and a state \<open>'w\<close> of the database and of the callbacks. A connection is the plain one or a
  transaction; \<open>Exec\<close> goes to \<open>database/sql\<close> directly and may panic, which it does on the nil transaction that a failed
  \<open>Begin\<close> leaves. The debug line of the hook is left out.
\<close>

type_synonym keys = "string \<rightharpoonup> gval"

record entity_record =
  en_table :: string
  en_keys :: keys

record ('d, 'w) gorm_lib =
  gorm_InTransaction :: "'d \<Rightarrow> bool"
  gorm_Begin :: "'d \<Rightarrow> 'w \<Rightarrow> 'd \<times> 'w"
  gorm_Exec :: "'d \<Rightarrow> string \<Rightarrow> 'w \<Rightarrow> (goerror option \<times> 'w) go"
  gorm_Delete :: "'d \<Rightarrow> string \<Rightarrow> keys \<Rightarrow> 'w \<Rightarrow> goerror option \<times> 'w"
  gorm_Commit :: "'d \<Rightarrow> 'w \<Rightarrow> goerror option \<times> 'w"
  gorm_Rollback :: "'d \<Rightarrow> 'w \<Rightarrow> 'w"
  gorm_RegisterHook :: "string \<Rightarrow> 'w \<Rightarrow> 'w"
  gorm_RemoveHook :: "string \<Rightarrow> 'w \<Rightarrow> 'w"

subsection \<open>The hook\<close>

definition newHookname :: "string \<Rightarrow> string" where
  "newHookname uuid = Sprintf ''fabric8:record-%s'' [VString uuid]"

text \<open>The hook is called with the table and the primary fields, in order, of the row just created.\<close>

definition record_entity :: "string \<Rightarrow> (string \<times> gval) list \<Rightarrow> entity_record list \<Rightarrow> entity_record list" where
  "record_entity table primaryFields entities =
     entities @ [\<lparr>en_table = table, en_keys = foldl (\<lambda>m (k, v). m(k \<mapsto> v)) Map.empty primaryFields\<rparr>]"

subsection \<open>The clean-up\<close>

definition error_field :: "goerror \<Rightarrow> fval" where
  "error_field e = FVal (VForeign ''error'' (text_of e) (text_of e))"

text \<open>\<open>print_keys\<close> is how a map prints under \<open>%v\<close>. The list is the entities in the order they are visited.\<close>

fun clean_loop :: "('c, 'm) log_env \<Rightarrow> ('d, 'w) gorm_lib \<Rightarrow> (keys \<Rightarrow> string) \<Rightarrow> bool \<Rightarrow> string \<Rightarrow> 'd \<Rightarrow> entity_record list \<Rightarrow> 'w
    \<Rightarrow> log_state \<Rightarrow> (goerror option \<times> 'w \<times> log_state) go" where
  "clean_loop env L print_keys report hookName tx [] w st = Ret (None, w, st)"
| "clean_loop env L print_keys report hookName tx (en # ens) w st =
     go_bind (log_Debug env None
         [''table'' \<mapsto> fstr (en_table en), ''keys'' \<mapsto> FMap (en_keys en), ''hook_name'' \<mapsto> fstr hookName]
         ''Deleting entities from '%s' table with keys %v''
         [VString (en_table en), VForeign ''map[string]interface {}'' (print_keys (en_keys en)) '''']
         st) (\<lambda>st.
     if en_keys en = Map.empty then
       (if report then
          go_bind (log_Error env None [''entities'' \<mapsto> fstr (en_table en)] ''no entity to delete?'' [] st) (\<lambda>st.
          Ret (Some (std_errors_New (Sprintf ''no primary keys found for '%s' table'' [VString (en_table en)])), w, st))
        else clean_loop env L print_keys report hookName tx ens w st)
     else
       (case gorm_Delete L tx (en_table en) (en_keys en) w of
          (Some err, w1) \<Rightarrow>
            if report then
              go_bind (log_Error env None [''error'' \<mapsto> error_field err, ''entities'' \<mapsto> fstr (en_table en)]
                ''failed to delete entities'' [] st) (\<lambda>st.
              Ret (errs_Wrapf (env_P env) (Some err)
                (Sprintf ''failed to delete entities for '%s' table'' [VString (en_table en)]), w1, st))
            else clean_loop env L print_keys report hookName tx ens w1 st
        | (None, w1) \<Rightarrow> clean_loop env L print_keys report hookName tx ens w1 st))"


text \<open>The function \<open>DeleteCreatedEntities\<close> returns; the hook is removed however it ends.\<close>

definition clean_up :: "('c, 'm) log_env \<Rightarrow> ('d, 'w) gorm_lib \<Rightarrow> (keys \<Rightarrow> string) \<Rightarrow> bool \<Rightarrow> 'd \<Rightarrow> string \<Rightarrow> entity_record list \<Rightarrow> 'w
    \<Rightarrow> log_state \<Rightarrow> (goerror option \<times> 'w \<times> log_state) go" where
  "clean_up env L print_keys report db hookName entities w st =
     (let inTransaction = gorm_InTransaction L db;
          (tx, w1) = (if \<not> inTransaction then gorm_Begin L db w else (db, w))
      in go_bind (gorm_Exec L tx ''SET CONSTRAINTS ALL DEFERRED'' w1) (\<lambda>(err, w2).
         go_bind (case err of
             None \<Rightarrow> Ret st
           | Some e \<Rightarrow> log_Error env None [''error'' \<mapsto> error_field e]
               ''failed to defer all constraints before cleaning the test records in the DB'' [] st) (\<lambda>st1.
         go_bind (clean_loop env L print_keys report hookName tx (rev entities) w2 st1) (\<lambda>(resultErr, w3, st2).
         let (result, w4) =
           (if resultErr = None \<and> \<not> inTransaction then
              (case gorm_Commit L tx w3 of
                 (Some e, w4) \<Rightarrow>
                   (if report then errs_Wrapf (env_P env) (Some e) ''failed to commit transaction'' else None, w4)
               | (None, w4) \<Rightarrow> (None, w4))
            else if resultErr \<noteq> None then (resultErr, gorm_Rollback L tx w3)
            else (resultErr, w3))
         in Ret (result, gorm_RemoveHook L hookName w4, st2)))))"

text \<open>\<open>DeleteCreatedEntities\<close> itself only registers the hook under a fresh name; the entities start empty.\<close>

definition DeleteCreatedEntities :: "('d, 'w) gorm_lib \<Rightarrow> string \<Rightarrow> 'w \<Rightarrow> string \<times> entity_record list \<times> 'w" where
  "DeleteCreatedEntities L uuid w =
     (let hookName = newHookname uuid in (hookName, [], gorm_RegisterHook L hookName w))"

subsection \<open>What gorm documents\<close>

text \<open>
  \<open>committed\<close> are the committed rows, \<open>pending w tx\<close> the rows that transaction \<open>tx\<close> has deleted and not yet committed (none where
  \<open>tx\<close> is not an open transaction), \<open>issued\<close> the deletions asked for and \<open>hooks\<close> the callbacks registered. A deletion in a
  transaction is pending until the commit; one on the plain connection is committed at once. Any call may fail; one that fails changes
  nothing, and a \<open>Begin\<close> that fails gives a nil transaction, on which \<open>database/sql\<close> panics.
\<close>

type_synonym rows = "(string \<times> keys) set"

definition begin_ok :: "('d, 'w) gorm_lib \<Rightarrow> ('w \<Rightarrow> rows) \<Rightarrow> ('w \<Rightarrow> 'd \<Rightarrow> rows option)
    \<Rightarrow> ('w \<Rightarrow> (string \<times> keys) list) \<Rightarrow> ('w \<Rightarrow> string set) \<Rightarrow> bool" where
  "begin_ok L committed pending issued hooks \<longleftrightarrow>
     (\<forall>d w tx w'. \<not> gorm_InTransaction L d \<and> gorm_Begin L d w = (tx, w') \<longrightarrow>
        committed w' = committed w \<and> issued w' = issued w \<and> hooks w' = hooks w \<and> gorm_InTransaction L tx \<and>
        (pending w' tx = Some {} \<or> pending w' tx = None \<and> (\<forall>q. panics (gorm_Exec L tx q w'))))"

definition exec_ok :: "('d, 'w) gorm_lib \<Rightarrow> ('w \<Rightarrow> rows) \<Rightarrow> ('w \<Rightarrow> 'd \<Rightarrow> rows option)
    \<Rightarrow> ('w \<Rightarrow> (string \<times> keys) list) \<Rightarrow> ('w \<Rightarrow> string set) \<Rightarrow> bool" where
  "exec_ok L committed pending issued hooks \<longleftrightarrow>
     (\<forall>tx w. pending w tx \<noteq> None \<longrightarrow> (\<exists>e w'. gorm_Exec L tx ''SET CONSTRAINTS ALL DEFERRED'' w = Ret (e, w') \<and>
        pending w' tx = pending w tx \<and> committed w' = committed w \<and> issued w' = issued w \<and> hooks w' = hooks w))"

definition delete_ok :: "('d, 'w) gorm_lib \<Rightarrow> ('w \<Rightarrow> rows) \<Rightarrow> ('w \<Rightarrow> 'd \<Rightarrow> rows option)
    \<Rightarrow> ('w \<Rightarrow> (string \<times> keys) list) \<Rightarrow> ('w \<Rightarrow> string set) \<Rightarrow> bool" where
  "delete_ok L committed pending issued hooks \<longleftrightarrow>
     (\<forall>d t k w e w'. gorm_Delete L d t k w = (e, w') \<longrightarrow>
        issued w' = issued w @ [(t, k)] \<and> hooks w' = hooks w \<and>
        (\<forall>D. pending w d = Some D \<longrightarrow> committed w' = committed w \<and> pending w' d = Some (if e = None then insert (t, k) D else D)) \<and>
        (\<not> gorm_InTransaction L d \<longrightarrow> committed w' = (if e = None then committed w - {(t, k)} else committed w)))"

definition gorm_ok :: "('d, 'w) gorm_lib \<Rightarrow> ('w \<Rightarrow> rows) \<Rightarrow> ('w \<Rightarrow> 'd \<Rightarrow> rows option)
    \<Rightarrow> ('w \<Rightarrow> (string \<times> keys) list) \<Rightarrow> ('w \<Rightarrow> string set) \<Rightarrow> bool" where
  "gorm_ok L committed pending issued hooks \<longleftrightarrow>
     begin_ok L committed pending issued hooks \<and> exec_ok L committed pending issued hooks \<and> delete_ok L committed pending issued hooks \<and>
     (\<forall>tx w e w' D. pending w tx = Some D \<and> gorm_Commit L tx w = (e, w') \<longrightarrow>
        committed w' = (if e = None then committed w - D else committed w) \<and> issued w' = issued w \<and> hooks w' = hooks w) \<and>
     (\<forall>tx w. pending w tx \<noteq> None \<longrightarrow> committed (gorm_Rollback L tx w) = committed w \<and> issued (gorm_Rollback L tx w) = issued w \<and>
        hooks (gorm_Rollback L tx w) = hooks w) \<and>
     (\<forall>n w. committed (gorm_RemoveHook L n w) = committed w \<and> issued (gorm_RemoveHook L n w) = issued w \<and>
        hooks (gorm_RemoveHook L n w) = hooks w - {n})"

definition begins :: "('d, 'w) gorm_lib \<Rightarrow> ('w \<Rightarrow> 'd \<Rightarrow> rows option) \<Rightarrow> 'd \<Rightarrow> 'w \<Rightarrow> bool" where
  "begins L pending db w \<longleftrightarrow> (case gorm_Begin L db w of (tx, w') \<Rightarrow> pending w' tx \<noteq> None)"

definition row_of :: "entity_record \<Rightarrow> string \<times> keys" where
  "row_of en = (en_table en, en_keys en)"

lemma gorm_okD:
  assumes "gorm_ok L committed pending issued hooks"
  shows "\<not> gorm_InTransaction L d \<Longrightarrow> gorm_Begin L d w = (tx, w') \<Longrightarrow>
      committed w' = committed w \<and> issued w' = issued w \<and> hooks w' = hooks w \<and>
      (pending w' tx = Some {} \<or> pending w' tx = None \<and> (\<forall>q. panics (gorm_Exec L tx q w')))"
    "pending w tx \<noteq> None \<Longrightarrow> \<exists>e w'. gorm_Exec L tx ''SET CONSTRAINTS ALL DEFERRED'' w = Ret (e, w') \<and>
        pending w' tx = pending w tx \<and> committed w' = committed w \<and> issued w' = issued w \<and> hooks w' = hooks w"
    "pending w tx = Some D \<Longrightarrow> gorm_Delete L tx t k w = (e, w') \<Longrightarrow> committed w' = committed w \<and>
        pending w' tx = Some (if e = None then insert (t, k) D else D) \<and> issued w' = issued w @ [(t, k)] \<and> hooks w' = hooks w"
    "pending w tx = Some D \<Longrightarrow> gorm_Commit L tx w = (e, w') \<Longrightarrow>
        committed w' = (if e = None then committed w - D else committed w) \<and> issued w' = issued w \<and> hooks w' = hooks w"
    "pending w tx \<noteq> None \<Longrightarrow> committed (gorm_Rollback L tx w) = committed w \<and> issued (gorm_Rollback L tx w) = issued w \<and>
        hooks (gorm_Rollback L tx w) = hooks w"
    "committed (gorm_RemoveHook L n w) = committed w" "issued (gorm_RemoveHook L n w) = issued w"
    "hooks (gorm_RemoveHook L n w) = hooks w - {n}"
proof -
  note ok = assms [unfolded gorm_ok_def]
  show "\<not> gorm_InTransaction L d \<Longrightarrow> gorm_Begin L d w = (tx, w') \<Longrightarrow>
      committed w' = committed w \<and> issued w' = issued w \<and> hooks w' = hooks w \<and>
      (pending w' tx = Some {} \<or> pending w' tx = None \<and> (\<forall>q. panics (gorm_Exec L tx q w')))"
    using ok [THEN conjunct1] unfolding begin_ok_def by blast
  show "pending w tx \<noteq> None \<Longrightarrow> \<exists>e w'. gorm_Exec L tx ''SET CONSTRAINTS ALL DEFERRED'' w = Ret (e, w') \<and>
        pending w' tx = pending w tx \<and> committed w' = committed w \<and> issued w' = issued w \<and> hooks w' = hooks w"
    by (rule ok [THEN conjunct2, THEN conjunct1, unfolded exec_ok_def, rule_format])
  show "pending w tx = Some D \<Longrightarrow> gorm_Delete L tx t k w = (e, w') \<Longrightarrow> committed w' = committed w \<and>
        pending w' tx = Some (if e = None then insert (t, k) D else D) \<and> issued w' = issued w @ [(t, k)] \<and> hooks w' = hooks w"
    using ok [THEN conjunct2, THEN conjunct2, THEN conjunct1] unfolding delete_ok_def by blast
  show "pending w tx = Some D \<Longrightarrow> gorm_Commit L tx w = (e, w') \<Longrightarrow>
        committed w' = (if e = None then committed w - D else committed w) \<and> issued w' = issued w \<and> hooks w' = hooks w"
    using ok [THEN conjunct2, THEN conjunct2, THEN conjunct2, THEN conjunct1] by blast
  show "pending w tx \<noteq> None \<Longrightarrow> committed (gorm_Rollback L tx w) = committed w \<and> issued (gorm_Rollback L tx w) = issued w \<and>
        hooks (gorm_Rollback L tx w) = hooks w"
    using ok [THEN conjunct2, THEN conjunct2, THEN conjunct2, THEN conjunct2, THEN conjunct1] by blast
qed (use assms [unfolded gorm_ok_def, THEN conjunct2, THEN conjunct2, THEN conjunct2, THEN conjunct2, THEN conjunct2] in simp_all)

lemma log_nil_ctx:
  assumes "good_caller (env_caller env)"
  shows "\<exists>st'. log_Debug env None kvs f a st = Ret st'" "\<exists>st'. log_Error env None kvs f a st = Ret st'"
  using log_at_entry [OF assms, of None DebugLevel kvs f a st] log_Error_entry [OF assms, of None kvs f a st]
  by (auto simp: log_Debug_def)

text \<open>The loop: either every entity was deleted, in the order visited, or an error is reported; the committed
  rows never change on the way.\<close>

lemma clean_loop_step:
  assumes "good_caller (env_caller env)" and "pkg_errors_ok (env_P env)" and "en_keys en \<noteq> Map.empty"
    and del: "gorm_Delete L tx (en_table en) (en_keys en) w = (e, w1)"
  shows "e = None \<Longrightarrow> \<exists>st1. clean_loop env L pk True hn tx (en # ens) w st = clean_loop env L pk True hn tx ens w1 st1"
    and "e \<noteq> None \<Longrightarrow> \<exists>x st2. clean_loop env L pk True hn tx (en # ens) w st = Ret (Some x, w1, st2)"
proof -
  obtain st1 where 1: "log_Debug env None
         [''table'' \<mapsto> fstr (en_table en), ''keys'' \<mapsto> FMap (en_keys en), ''hook_name'' \<mapsto> fstr hn]
         ''Deleting entities from '%s' table with keys %v''
         [VString (en_table en), VForeign ''map[string]interface {}'' (pk (en_keys en)) ''''] st = Ret st1"
    using log_nil_ctx(1) [OF assms(1)] by blast
  show "\<exists>st1. clean_loop env L pk True hn tx (en # ens) w st = clean_loop env L pk True hn tx ens w1 st1" if "e = None"
    unfolding clean_loop.simps 1 go_bind.simps
    using assms(3) by (simp only: if_False del prod.case that option.case) blast
  show "\<exists>x st2. clean_loop env L pk True hn tx (en # ens) w st = Ret (Some x, w1, st2)" if "e \<noteq> None"
  proof -
    from that obtain err where e: "e = Some err" by blast
    obtain st2 where 2: "log_Error env None [''error'' \<mapsto> error_field err, ''entities'' \<mapsto> fstr (en_table en)]
        ''failed to delete entities'' [] st1 = Ret st2" using log_nil_ctx(2) [OF assms(1)] by blast
    obtain x where x: "errs_Wrapf (env_P env) (Some err)
        (Sprintf ''failed to delete entities for '%s' table'' [VString (en_table en)]) = Some x"
      using Wrapf_Some [OF assms(2)] by blast
    show ?thesis
      unfolding clean_loop.simps 1 go_bind.simps
      using assms(3) by (simp only: if_False if_True del prod.case e option.case 2 go_bind.simps x) blast
  qed
qed

lemma clean_loop_spec:
  assumes "good_caller (env_caller env)" and "pkg_errors_ok (env_P env)" and "gorm_ok L committed pending issued hooks"
    and "\<forall>en \<in> set ens. en_keys en \<noteq> Map.empty" and "pending w tx = Some D"
  shows "\<exists>r w' st' D'. clean_loop env L pk True hn tx ens w st = Ret (r, w', st') \<and> committed w' = committed w \<and> hooks w' = hooks w \<and>
    pending w' tx = Some D' \<and> (\<exists>dn post. ens = dn @ post \<and> issued w' = issued w @ map row_of dn) \<and>
    (r = None \<longrightarrow> D' = D \<union> row_of ` set ens \<and> issued w' = issued w @ map row_of ens)"
  using assms(4,5)
proof (induction ens arbitrary: w st D)
  case Nil
  then show ?case by simp
next
  case (Cons en ens)
  have ne: "en_keys en \<noteq> Map.empty" and rest: "\<forall>en \<in> set ens. en_keys en \<noteq> Map.empty" using Cons.prems by simp_all
  obtain e w1 where del: "gorm_Delete L tx (en_table en) (en_keys en) w = (e, w1)" by (cases "gorm_Delete L tx (en_table en) (en_keys en) w")
  note d = gorm_okD(3) [OF assms(3) Cons.prems(2) del] and step = clean_loop_step [OF assms(1,2) ne del, of pk hn ens st]
  have issued1: "issued w1 = issued w @ [row_of en]" using d by (simp add: row_of_def)
  show ?case
  proof (cases e)
    case None
    from step(1) [OF None] obtain st1
      where run: "clean_loop env L pk True hn tx (en # ens) w st = clean_loop env L pk True hn tx ens w1 st1" by blast
    have p1: "pending w1 tx = Some (insert (row_of en) D)" using d None by (simp add: row_of_def)
    obtain r w' st' D' where ih: "clean_loop env L pk True hn tx ens w1 st1 = Ret (r, w', st')"
      "committed w' = committed w1" "hooks w' = hooks w1" "pending w' tx = Some D'"
      "\<exists>dn post. ens = dn @ post \<and> issued w' = issued w1 @ map row_of dn"
      "r = None \<longrightarrow> D' = insert (row_of en) D \<union> row_of ` set ens \<and> issued w' = issued w1 @ map row_of ens"
      using Cons.IH [OF rest p1, of st1] by blast
    obtain dn post where "ens = dn @ post" "issued w' = issued w1 @ map row_of dn" using ih(5) by blast
    then have "en # ens = (en # dn) @ post \<and> issued w' = issued w @ map row_of (en # dn)" by (simp add: issued1)
    then have part: "\<exists>dn post. en # ens = dn @ post \<and> issued w' = issued w @ map row_of dn" by blast
    have all: "r = None \<longrightarrow> D' = D \<union> row_of ` set (en # ens) \<and> issued w' = issued w @ map row_of (en # ens)"
      using ih(6) issued1 by auto
    show ?thesis
      unfolding run using ih(1-4) d part all
      by (intro exI [of _ r] exI [of _ w'] exI [of _ st'] exI [of _ D']) simp
  next
    case (Some err)
    then obtain x st2 where run: "clean_loop env L pk True hn tx (en # ens) w st = Ret (Some x, w1, st2)" using step(2) by blast
    have "\<exists>dn post. en # ens = dn @ post \<and> issued w1 = issued w @ map row_of dn"
      using issued1 by (intro exI [of _ "[en]"] exI [of _ ens]) simp
    with run d Some show ?thesis by auto
  qed
qed

text \<open>The end of the clean-up, after the loop: commit or rollback.\<close>

lemma clean_up_end:
  assumes "pkg_errors_ok (env_P env)" and "gorm_ok L committed pending issued hooks" and "\<not> gorm_InTransaction L db"
    and "gorm_Begin L db w = (tx, w1)" and "gorm_Exec L tx ''SET CONSTRAINTS ALL DEFERRED'' w1 = Ret (e, w2)"
    and "(case e of None \<Rightarrow> Ret st
      | Some e \<Rightarrow> log_Error env None [''error'' \<mapsto> error_field e]
          ''failed to defer all constraints before cleaning the test records in the DB'' [] st) = Ret st1"
    and "clean_loop env L pk True hn tx (rev ens) w2 st1 = Ret (r, w3, st2)" and "pending w3 tx = Some D"
  shows "\<exists>r' w4. clean_up env L pk True db hn ens w st = Ret (r', gorm_RemoveHook L hn w4, st2) \<and>
    hooks w4 = hooks w3 \<and> issued w4 = issued w3 \<and> (r' = None \<longrightarrow> r = None \<and> committed w4 = committed w3 - D) \<and>
    (r' \<noteq> None \<longrightarrow> committed w4 = committed w3)"
proof (cases r)
  case (Some y)
  then have "clean_up env L pk True db hn ens w st = Ret (Some y, gorm_RemoveHook L hn (gorm_Rollback L tx w3), st2)"
    by (simp add: clean_up_def assms(3-7))
  then show ?thesis
    using gorm_okD(5) [OF assms(2), of w3 tx] assms(8) by (intro exI [of _ "Some y"] exI [of _ "gorm_Rollback L tx w3"]) simp
next
  case None
  obtain e4 w4 where commit: "gorm_Commit L tx w3 = (e4, w4)" by (cases "gorm_Commit L tx w3")
  note k = gorm_okD(4) [OF assms(2,8) commit]
  show ?thesis
  proof (cases e4)
    case ok: None
    have "clean_up env L pk True db hn ens w st = Ret (None, gorm_RemoveHook L hn w4, st2)"
      using None ok by (simp add: clean_up_def assms(3-7) commit)
    with ok k None show ?thesis by (intro exI [of _ None] exI [of _ w4]) simp
  next
    case (Some err)
    obtain y where y: "errs_Wrapf (env_P env) (Some err) ''failed to commit transaction'' = Some y"
      using Wrapf_Some [OF assms(1)] by blast
    have "clean_up env L pk True db hn ens w st = Ret (Some y, gorm_RemoveHook L hn w4, st2)"
      using None Some y by (simp add: clean_up_def assms(3-7) commit)
    with Some k show ?thesis by (intro exI [of _ "Some y"] exI [of _ w4]) simp
  qed
qed

text \<open>The clean-up is all or nothing: called outside a transaction, it returns wherever a transaction begins; when it reports no error,
  exactly the recorded rows are gone from the committed ones, deleted in the reverse order of their
  creation; when it reports an error, whichever call failed, no committed row has changed and the
  deletions tried were the first ones of that order. The hook is removed either way. Where no transaction begins it panics:
  it never looks at the error of \<open>Begin\<close>.\<close>

theorem clean_up_spec:
  assumes "good_caller (env_caller env)" and "pkg_errors_ok (env_P env)" and "gorm_ok L committed pending issued hooks"
    and "\<forall>en \<in> set ens. en_keys en \<noteq> Map.empty" and "\<not> gorm_InTransaction L db"
  shows "if begins L pending db w then
      \<exists>r w' st'. clean_up env L pk True db hn ens w st = Ret (r, w', st') \<and>
       (r = None \<longrightarrow> committed w' = committed w - row_of ` set ens \<and> issued w' = issued w @ map row_of (rev ens)) \<and>
       (r \<noteq> None \<longrightarrow> committed w' = committed w \<and> (\<exists>dn post. rev ens = dn @ post \<and> issued w' = issued w @ map row_of dn)) \<and>
       hooks w' = hooks w - {hn}
    else panics (clean_up env L pk True db hn ens w st)"
proof -
  obtain tx w1 where begun: "gorm_Begin L db w = (tx, w1)" by (cases "gorm_Begin L db w")
  note b = gorm_okD(1) [OF assms(3,5) begun]
  show ?thesis
  proof (cases "begins L pending db w")
    case False
    then have "\<forall>q. panics (gorm_Exec L tx q w1)" using b by (auto simp: begins_def begun)
    then have "panics (gorm_Exec L tx ''SET CONSTRAINTS ALL DEFERRED'' w1)" by blast
    then have "panics (clean_up env L pk True db hn ens w st)"
      by (cases "gorm_Exec L tx ''SET CONSTRAINTS ALL DEFERRED'' w1") (simp_all add: clean_up_def assms(5) begun)
    with False show ?thesis by simp
  next
    case True
    then have open1: "pending w1 tx = Some {}" using b by (auto simp: begins_def begun)
    then obtain e w2 where exec: "gorm_Exec L tx ''SET CONSTRAINTS ALL DEFERRED'' w1 = Ret (e, w2)"
      and w2: "pending w2 tx = Some {}" "committed w2 = committed w1" "issued w2 = issued w1" "hooks w2 = hooks w1"
      using gorm_okD(2) [OF assms(3), of w1 tx] by auto
    obtain st1 where st1: "(case e of None \<Rightarrow> Ret st
        | Some e \<Rightarrow> log_Error env None [''error'' \<mapsto> error_field e]
            ''failed to defer all constraints before cleaning the test records in the DB'' [] st) = Ret st1"
      using log_nil_ctx(2) [OF assms(1)] by (cases e; simp only: option.case; blast)
    have "\<forall>en \<in> set (rev ens). en_keys en \<noteq> Map.empty" using assms(4) by simp
    from clean_loop_spec [OF assms(1-3) this w2(1), where pk = pk and hn = hn and st = st1] obtain r w3 st2 D
      where loop: "clean_loop env L pk True hn tx (rev ens) w2 st1 = Ret (r, w3, st2)"
        and c3: "committed w3 = committed w2" "hooks w3 = hooks w2" "pending w3 tx = Some D"
        and part: "\<exists>dn post. rev ens = dn @ post \<and> issued w3 = issued w2 @ map row_of dn"
        and all: "r = None \<longrightarrow> D = {} \<union> row_of ` set (rev ens) \<and> issued w3 = issued w2 @ map row_of (rev ens)"
      by - (erule exE, erule exE, erule exE, erule exE, elim conjE, rule that)
    from clean_up_end [OF assms(2,3,5) begun exec st1 loop c3(3)] obtain r' w4
      where run: "clean_up env L pk True db hn ens w st = Ret (r', gorm_RemoveHook L hn w4, st2)"
        and w4: "hooks w4 = hooks w3" "issued w4 = issued w3" "r' = None \<longrightarrow> r = None \<and> committed w4 = committed w3 - D"
          "r' \<noteq> None \<longrightarrow> committed w4 = committed w3" by - (erule exE, erule exE, elim conjE, rule that)
    have "\<exists>r w' st'. clean_up env L pk True db hn ens w st = Ret (r, w', st') \<and>
       (r = None \<longrightarrow> committed w' = committed w - row_of ` set ens \<and> issued w' = issued w @ map row_of (rev ens)) \<and>
       (r \<noteq> None \<longrightarrow> committed w' = committed w \<and> (\<exists>dn post. rev ens = dn @ post \<and> issued w' = issued w @ map row_of dn)) \<and>
       hooks w' = hooks w - {hn}"
      by (intro exI [of _ r'] exI [of _ "gorm_RemoveHook L hn w4"] exI [of _ st2] conjI)
        (use run w4 all part b c3 w2 gorm_okD(6-8) [OF assms(3)] in simp_all)
    with True show ?thesis by simp
  qed
qed

text \<open>
  A database with the plain connection and at most one transaction at a time, on which the deletion from one table fails; a
  transaction may not begin.
\<close>

datatype plain_db = Plain | Tx | NilTx

record plain_rows =
  pl_pending :: "rows option"
  pl_committed :: rows
  pl_issued :: "(string \<times> keys) list"
  pl_hooks :: "string set"

definition pl_open :: "plain_rows \<Rightarrow> plain_db \<Rightarrow> rows option" where
  "pl_open w d = (if d = Tx then pl_pending w else None)"

definition plain_Delete :: "string \<Rightarrow> plain_db \<Rightarrow> string \<Rightarrow> keys \<Rightarrow> plain_rows \<Rightarrow> goerror option \<times> plain_rows" where
  "plain_Delete bad d t k w =
     (let w' = w\<lparr>pl_issued := pl_issued w @ [(t, k)]\<rparr> in
      if t = bad \<or> d = NilTx then (Some (std_errors_New ''no''), w')
      else if d = Tx then (None, w'\<lparr>pl_pending := map_option (insert (t, k)) (pl_pending w)\<rparr>)
      else (None, w'\<lparr>pl_committed := pl_committed w - {(t, k)}\<rparr>))"

definition plain_gorm :: "bool \<Rightarrow> string \<Rightarrow> (plain_db, plain_rows) gorm_lib" where
  "plain_gorm starts bad =
     \<lparr>gorm_InTransaction = (\<lambda>d. d \<noteq> Plain),
      gorm_Begin = (\<lambda>d w. if starts then (Tx, w\<lparr>pl_pending := Some {}\<rparr>) else (NilTx, w)),
      gorm_Exec = (\<lambda>d q w. if d = NilTx then Panic ''nil pointer dereference'' else Ret (None, w)),
      gorm_Delete = plain_Delete bad,
      gorm_Commit = (\<lambda>d w. (None, w\<lparr>pl_committed := pl_committed w - (case pl_pending w of None \<Rightarrow> {} | Some D \<Rightarrow> D), pl_pending := None\<rparr>)),
      gorm_Rollback = (\<lambda>d w. w\<lparr>pl_pending := None\<rparr>),
      gorm_RegisterHook = (\<lambda>n w. w\<lparr>pl_hooks := insert n (pl_hooks w)\<rparr>),
      gorm_RemoveHook = (\<lambda>n w. w\<lparr>pl_hooks := pl_hooks w - {n}\<rparr>)\<rparr>"

lemma plain_gorm_ok: "gorm_ok (plain_gorm starts bad) pl_committed pl_open pl_issued pl_hooks"
proof -
  have "begin_ok (plain_gorm starts bad) pl_committed pl_open pl_issued pl_hooks"
    by (auto simp: begin_ok_def plain_gorm_def pl_open_def split: if_splits)
  moreover have "exec_ok (plain_gorm starts bad) pl_committed pl_open pl_issued pl_hooks"
    by (auto simp: exec_ok_def plain_gorm_def pl_open_def split: if_splits)
  moreover have "delete_ok (plain_gorm starts bad) pl_committed pl_open pl_issued pl_hooks"
    by (auto simp: delete_ok_def plain_gorm_def plain_Delete_def pl_open_def Let_def split: if_splits)
  ultimately show ?thesis
    by (auto simp: gorm_ok_def plain_gorm_def pl_open_def split: if_splits)
qed

theorem clean_up_spec_witness:
  "(\<exists>r w' st'. clean_up (ex_env None) (plain_gorm True ''users'') (\<lambda>k. '''') True Plain ''h''
      [\<lparr>en_table = ''users'', en_keys = [''id'' \<mapsto> VInt 1]\<rparr>, \<lparr>en_table = ''spaces'', en_keys = [''id'' \<mapsto> VInt 2]\<rparr>]
      \<lparr>pl_pending = None, pl_committed = {(''users'', [''id'' \<mapsto> VInt 1]), (''spaces'', [''id'' \<mapsto> VInt 2])}, pl_issued = [], pl_hooks = {''h''}\<rparr>
      (ex_logger InfoLevel) = Ret (r, w', st') \<and>
    (r \<noteq> None \<longrightarrow> card (pl_committed w') = 2) \<and> pl_hooks w' = {}) \<and>
   panics (clean_up (ex_env None) (plain_gorm False ''users'') (\<lambda>k. '''') True Plain ''h'' []
      \<lparr>pl_pending = None, pl_committed = {}, pl_issued = [], pl_hooks = {''h''}\<rparr> (ex_logger InfoLevel))"
proof
  have env: "good_caller (env_caller (ex_env None))" "pkg_errors_ok (env_P (ex_env None))"
    using documented_errs_ok by (simp_all add: ex_env_def good_caller_def)
  have keys: "\<forall>en \<in> set [\<lparr>en_table = ''users'', en_keys = [''id'' \<mapsto> VInt 1]\<rparr>, \<lparr>en_table = ''spaces'', en_keys = [''id'' \<mapsto> VInt 2]\<rparr>].
      en_keys en \<noteq> Map.empty" by simp
  have plain: "\<not> gorm_InTransaction (plain_gorm b ''users'') Plain" for b by (simp add: plain_gorm_def)
  have starts: "begins (plain_gorm b ''users'') pl_open Plain w = b" for b w
    by (simp add: begins_def plain_gorm_def pl_open_def)
  have card: "card {(''users'', [''id'' \<mapsto> VInt 1]), (''spaces'', [''id'' \<mapsto> VInt 2])} = 2" by simp
  show "\<exists>r w' st'. clean_up (ex_env None) (plain_gorm True ''users'') (\<lambda>k. '''') True Plain ''h''
      [\<lparr>en_table = ''users'', en_keys = [''id'' \<mapsto> VInt 1]\<rparr>, \<lparr>en_table = ''spaces'', en_keys = [''id'' \<mapsto> VInt 2]\<rparr>]
      \<lparr>pl_pending = None, pl_committed = {(''users'', [''id'' \<mapsto> VInt 1]), (''spaces'', [''id'' \<mapsto> VInt 2])}, pl_issued = [], pl_hooks = {''h''}\<rparr>
      (ex_logger InfoLevel) = Ret (r, w', st') \<and>
    (r \<noteq> None \<longrightarrow> card (pl_committed w') = 2) \<and> pl_hooks w' = {}"
    using clean_up_spec [OF env plain_gorm_ok keys plain, of True
        "\<lparr>pl_pending = None, pl_committed = {(''users'', [''id'' \<mapsto> VInt 1]), (''spaces'', [''id'' \<mapsto> VInt 2])}, pl_issued = [], pl_hooks = {''h''}\<rparr>"
        "\<lambda>k. ''''" "''h''" "ex_logger InfoLevel"] card
    unfolding starts by fastforce
  show "panics (clean_up (ex_env None) (plain_gorm False ''users'') (\<lambda>k. '''') True Plain ''h'' []
      \<lparr>pl_pending = None, pl_committed = {}, pl_issued = [], pl_hooks = {''h''}\<rparr> (ex_logger InfoLevel))"
    using clean_up_spec [OF env plain_gorm_ok _ plain, of "[]" False _ "\<lambda>k. ''''" "''h''" "ex_logger InfoLevel"]
    unfolding starts by simp
qed

end
