(* ===== verification/Test_Suites.thy ===== *)
theory Test_Suites
  imports Db_Suite
begin

section \<open>Suites of tests with a database: \<open>test/suite/*.go\<close>, \<open>internal/testdb_test_suite.go\<close>\<close>

text \<open>
  A suite opens its connection once and records the rows that its tests create: the callback of the suite and the one of
  the running test both collect them, each in the variable its clean-up function captured (\<open>su_entities\<close>, by the
  callback's name). Gorm, \<open>database/sql\<close> and testify are parameters; \<open>os\<close> is the environment of the process, \<open>'w\<close> the
  world of the database. A failed requirement ends the test, with the reason: a skip or a failure.
\<close>

datatype 'a step_result = Goes 'a | Skips string | Fails string

record suite_config =
  GetPostgresConfig :: string
  DBLogsEnabled :: bool
  CleanTestDataEnabled :: bool
  ErrorReportingRequired :: bool

record ('d, 'w) gorm_conn =
  gc_lib :: "('d, 'w) gorm_lib"
  gc_Open :: "string \<Rightarrow> string \<Rightarrow> 'w \<Rightarrow> ('d option \<times> goerror option) \<times> 'w"
  gc_LogMode :: "'d \<Rightarrow> bool \<Rightarrow> 'w \<Rightarrow> 'w"
  gc_Close :: "'d \<Rightarrow> 'w \<Rightarrow> 'w"
  gc_print_keys :: "keys \<Rightarrow> string"

record ('d, 'w) db_suite =
  su_config :: suite_config
  su_DB :: "'d option"
  su_SetupSubtest :: "('w \<Rightarrow> 'w) option"
  su_TearDownSubtest :: "('w \<Rightarrow> 'w) option"
  su_CleanTest :: "('d \<times> string) option"
  su_CleanSuite :: "('d \<times> string) option"
  su_entities :: "string \<Rightarrow> entity_record list"

definition NewDBTestSuite :: "suite_config \<Rightarrow> ('d, 'w) db_suite" where
  "NewDBTestSuite config =
     \<lparr>su_config = config, su_DB = None, su_SetupSubtest = None, su_TearDownSubtest = None, su_CleanTest = None,
      su_CleanSuite = None, su_entities = (\<lambda>h. [])\<rparr>"

text \<open>
  The subtest gives whether it passed; what it prints is left out. The deferred function runs when the subtest
  panics too, but then nothing is left to see of it.
\<close>

definition suite_Run :: "('d, 'w) db_suite \<Rightarrow> ('w \<Rightarrow> (bool \<times> 'w) go) \<Rightarrow> 'w \<Rightarrow> (bool \<times> 'w) go" where
  "suite_Run s subtest w =
     (let w1 = (case su_SetupSubtest s of Some f \<Rightarrow> f w | None \<Rightarrow> w) in
      go_bind (subtest w1) (\<lambda>(passed, w2).
        Ret (passed, case su_TearDownSubtest s of Some f \<Rightarrow> f w2 | None \<Rightarrow> w2)))"

text \<open>\<open>DeleteCreatedEntities(s.DB, s.config)\<close>, with the random part of the new callback's name.\<close>

definition start_recording :: "('d, 'w) gorm_conn \<Rightarrow> string \<Rightarrow> ('d, 'w) db_suite \<Rightarrow> 'w
    \<Rightarrow> (('d \<times> string) \<times> ('d, 'w) db_suite \<times> 'w) go" where
  "start_recording GC uuid s w =
     (case su_DB s of
        None \<Rightarrow> Panic ''nil pointer dereference''
      | Some db \<Rightarrow>
          (let (hook, entities, w1) = DeleteCreatedEntities (gc_lib GC) uuid w
           in Ret ((db, hook), s\<lparr>su_entities := (su_entities s)(hook := entities)\<rparr>, w1)))"

definition db_SetupSuite :: "('c, 'm) log_env \<Rightarrow> ('d, 'w) gorm_conn \<Rightarrow> (string \<rightharpoonup> string) \<Rightarrow> string \<Rightarrow> ('d, 'w) db_suite \<Rightarrow> 'w
    \<Rightarrow> log_state \<Rightarrow> (('d, 'w) db_suite step_result \<times> 'w \<times> log_state) go" where
  "db_SetupSuite env GC os uuid s w st =
     (case Require os [Database] of
        Skipped reason \<Rightarrow> Ret (Skips reason, w, st)
      | Goes_On \<Rightarrow>
          go_bind (if os Database \<noteq> None then
              (let config = GetPostgresConfig (su_config s);
                   ((db, err), w1) = gc_Open GC ''postgres'' config w;
                   s1 = s\<lparr>su_DB := db\<rparr>
               in case err of
                    None \<Rightarrow> Ret (s1, w1, st)
                  | Some e \<Rightarrow>
                      go_bind (log_Panic env None [''err'' \<mapsto> error_field e, ''postgres_config'' \<mapsto> fstr config]
                        ''failed to connect to the database'' [] st) (\<lambda>st1. Ret (s1, w1, st1)))
            else Ret (s, w, st)) (\<lambda>(s1, w1, st1).
          case su_DB s1 of
            None \<Rightarrow> Panic ''nil pointer dereference''
          | Some db \<Rightarrow>
              go_bind (start_recording GC uuid s1 (gc_LogMode GC db (DBLogsEnabled (su_config s1)) w1)) (\<lambda>(clean, s2, w2).
              Ret (Goes (s2\<lparr>su_CleanSuite := Some clean\<rparr>), w2, st1))))"

definition SetupTest :: "('d, 'w) gorm_conn \<Rightarrow> string \<Rightarrow> ('d, 'w) db_suite \<Rightarrow> 'w \<Rightarrow> (('d, 'w) db_suite \<times> 'w) go" where
  "SetupTest GC uuid s w =
     go_bind (start_recording GC uuid s w) (\<lambda>(clean, s1, w1). Ret (s1\<lparr>su_CleanTest := Some clean\<rparr>, w1))"

text \<open>Calling a clean-up function, whose error \<open>assert.NoError\<close> reports: the result is the failure, if any.\<close>

definition call_clean :: "('c, 'm) log_env \<Rightarrow> ('d, 'w) gorm_conn \<Rightarrow> ('d, 'w) db_suite \<Rightarrow> ('d \<times> string) option \<Rightarrow> 'w \<Rightarrow> log_state
    \<Rightarrow> (goerror option \<times> 'w \<times> log_state) go" where
  "call_clean env GC s clean w st =
     (case clean of
        None \<Rightarrow> Panic ''nil pointer dereference''
      | Some (db, hook) \<Rightarrow>
          clean_up env (gc_lib GC) (gc_print_keys GC) (ErrorReportingRequired (su_config s)) db hook (su_entities s hook) w st)"

definition TearDownTest :: "('c, 'm) log_env \<Rightarrow> ('d, 'w) gorm_conn \<Rightarrow> ('d, 'w) db_suite \<Rightarrow> 'w \<Rightarrow> log_state
    \<Rightarrow> (goerror option \<times> 'w \<times> log_state) go" where
  "TearDownTest env GC s w st =
     (if CleanTestDataEnabled (su_config s) then call_clean env GC s (su_CleanTest s) w st else Ret (None, w, st))"

definition PopulateDBTestSuite :: "'c \<Rightarrow> 'w \<Rightarrow> 'w" where
  "PopulateDBTestSuite ctx w = w"

definition db_TearDownSuite :: "('c, 'm) log_env \<Rightarrow> ('d, 'w) gorm_conn \<Rightarrow> ('d, 'w) db_suite \<Rightarrow> 'w \<Rightarrow> log_state
    \<Rightarrow> (goerror option \<times> 'w \<times> log_state) go" where
  "db_TearDownSuite env GC s w st =
     go_bind (if CleanTestDataEnabled (su_config s) then call_clean env GC s (su_CleanSuite s) w st else Ret (None, w, st))
       (\<lambda>(failure, w1, st1).
        case su_DB s of
          None \<Rightarrow> Panic ''nil pointer dereference''
        | Some db \<Rightarrow> Ret (failure, gc_Close GC db w1, st1))"

subsection \<open>Switching gorm's time stamps off\<close>

datatype cb_kind = CreateCallbacks | UpdateCallbacks

record ('f, 'w) callback_lib =
  cb_Get :: "cb_kind \<Rightarrow> string \<Rightarrow> 'w \<Rightarrow> 'f option"
  cb_Remove :: "cb_kind \<Rightarrow> string \<Rightarrow> 'w \<Rightarrow> 'w"
  cb_Register :: "cb_kind \<Rightarrow> string \<Rightarrow> 'f option \<Rightarrow> 'w \<Rightarrow> 'w"

text \<open>The result is the function that restores the callbacks.\<close>

definition DisableGormCallbacks :: "('f, 'w) callback_lib \<Rightarrow> 'w \<Rightarrow> ('w \<Rightarrow> 'w) \<times> 'w" where
  "DisableGormCallbacks CB w =
     (let gormCallbackName = ''gorm:update_time_stamp'';
          oldCreateCallback = cb_Get CB CreateCallbacks gormCallbackName w;
          oldUpdateCallback = cb_Get CB UpdateCallbacks gormCallbackName w;
          w1 = cb_Remove CB CreateCallbacks gormCallbackName w;
          w2 = cb_Remove CB UpdateCallbacks gormCallbackName w1
      in ((\<lambda>w. cb_Register CB UpdateCallbacks gormCallbackName oldUpdateCallback
                 (cb_Register CB CreateCallbacks gormCallbackName oldCreateCallback w)), w2))"

subsection \<open>Unit tests\<close>

definition UnitTest_SetupSuite :: "(string \<rightharpoonup> string) \<Rightarrow> test_outcome" where
  "UnitTest_SetupSuite os = Require os [UnitTest]"


subsection \<open>The suite of this repository: \<open>internal/testdb_test_suite.go\<close>\<close>

definition dbName :: string where "dbName = ''test''"
definition defaultHost :: string where "defaultHost = ''localhost''"
definition defaultPort :: string where "defaultPort = ''5435''"

definition getenv :: "(string \<rightharpoonup> string) \<Rightarrow> string \<Rightarrow> string" where
  "getenv env k = (case env k of None \<Rightarrow> '''' | Some s \<Rightarrow> s)"

definition postgresConfigString :: "(string \<rightharpoonup> string) \<Rightarrow> bool \<Rightarrow> string" where
  "postgresConfigString env includeDBName =
     (let host = (let h = getenv env ''F8_POSTGRES_HOST'' in if h = '''' then defaultHost else h);
          port = (let p = getenv env ''F8_POSTGRES_PORT'' in if p = '''' then defaultPort else p);
          dbname = (if includeDBName then ''dbname='' @ dbName else '''')
      in Sprintf ''host=%s port=%s user=postgres password=mysecretpassword %s sslmode=disable connect_timeout=5''
           [VString host, VString port, VString dbname])"

definition GetPostgresConfigString :: "(string \<rightharpoonup> string) \<Rightarrow> string" where
  "GetPostgresConfigString env = postgresConfigString env True"

definition IsDBLogsEnabled :: bool where "IsDBLogsEnabled = True"
definition IsCleanTestDataEnabled :: bool where "IsCleanTestDataEnabled = True"
definition IsCleanTestDataErrorReportingRequired :: bool where "IsCleanTestDataErrorReportingRequired = True"

definition internal_config :: "(string \<rightharpoonup> string) \<Rightarrow> suite_config" where
  "internal_config os = \<lparr>GetPostgresConfig = GetPostgresConfigString os, DBLogsEnabled = IsDBLogsEnabled,
     CleanTestDataEnabled = IsCleanTestDataEnabled, ErrorReportingRequired = IsCleanTestDataErrorReportingRequired\<rparr>"

text \<open>The connection to the server itself, of type \<open>'s\<close>, through \<open>database/sql\<close>.\<close>

record ('s, 'w) sql_lib =
  sql_Open :: "string \<Rightarrow> string \<Rightarrow> 'w \<Rightarrow> (goerror + 's) \<times> 'w"
  sql_Exec :: "'s \<Rightarrow> string \<Rightarrow> 'w \<Rightarrow> goerror option \<times> 'w"
  sql_Close :: "'s \<Rightarrow> 'w \<Rightarrow> 'w"

record ('d, 's, 'w) internal_suite =
  in_DBTestSuite :: "('d, 'w) db_suite"
  in_config :: suite_config
  in_db :: "'s option"
  in_DBName :: string

definition NewDBTestSuiteSuite :: "(string \<rightharpoonup> string) \<Rightarrow> ('d, 's, 'w) internal_suite" where
  "NewDBTestSuiteSuite os =
     (let cfg = internal_config os in
      \<lparr>in_DBTestSuite = NewDBTestSuite cfg, in_config = cfg, in_db = None, in_DBName = dbName\<rparr>)"

definition failed_to :: "string \<Rightarrow> string" where
  "failed_to what = ''failed to '' @ what @ '' database '' @ [CHR 0x27] @ dbName @ [CHR 0x27]"

definition SetupSuite :: "('c, 'm) log_env \<Rightarrow> ('d, 'w) gorm_conn \<Rightarrow> ('s, 'w) sql_lib \<Rightarrow> (string \<rightharpoonup> string) \<Rightarrow> string
    \<Rightarrow> ('d, 's, 'w) internal_suite \<Rightarrow> 'w \<Rightarrow> log_state \<Rightarrow> (('d, 's, 'w) internal_suite step_result \<times> 'w \<times> log_state) go" where
  "SetupSuite env GC L os uuid s w st =
     (case Require os [Database] of
        Skipped reason \<Rightarrow> Ret (Skips reason, w, st)
      | Goes_On \<Rightarrow>
          (case sql_Open L ''postgres'' (postgresConfigString os False) w of
             (Inl err, w1) \<Rightarrow> Ret (Fails (''cannot connect to database: '' @ dbName), w1, st)
           | (Inr db, w1) \<Rightarrow>
               (case sql_Exec L db (''DROP DATABASE IF EXISTS '' @ dbName) w1 of
                  (Some err, w2) \<Rightarrow> Ret (Fails (failed_to ''drop''), w2, st)
                | (None, w2) \<Rightarrow>
                    (case sql_Exec L db (''CREATE DATABASE '' @ dbName) w2 of
                       (Some err, w3) \<Rightarrow> Ret (Fails (failed_to ''create''), w3, st)
                     | (None, w3) \<Rightarrow>
                         go_bind (db_SetupSuite env GC os uuid (in_DBTestSuite s) w3 st) (\<lambda>(r, w4, st1).
                           Ret (case r of Goes suite \<Rightarrow> Goes (s\<lparr>in_DBTestSuite := suite, in_db := Some db\<rparr>)
                                | Skips m \<Rightarrow> Skips m | Fails m \<Rightarrow> Fails m, w4, st1))))))"

text \<open>
  The failure of the embedded suite's assertion does not end the tear-down, that of the last requirement does;
  the deferred \<open>Close\<close> runs at the end.
\<close>

definition TearDownSuite :: "('c, 'm) log_env \<Rightarrow> ('d, 'w) gorm_conn \<Rightarrow> ('s, 'w) sql_lib \<Rightarrow> ('d, 's, 'w) internal_suite \<Rightarrow> 'w
    \<Rightarrow> log_state \<Rightarrow> (goerror option \<times> unit step_result \<times> 'w \<times> log_state) go" where
  "TearDownSuite env GC L s w st =
     go_bind (db_TearDownSuite env GC (in_DBTestSuite s) w st) (\<lambda>(failure, w1, st1).
       case in_db s of
         None \<Rightarrow> Panic ''nil pointer dereference''
       | Some db \<Rightarrow>
           (let (err, w2) = sql_Exec L db (''DROP DATABASE IF EXISTS '' @ dbName) w1;
                r = (case err of Some e \<Rightarrow> Fails (failed_to ''drop'') | None \<Rightarrow> Goes ())
            in Ret (failure, r, sql_Close L db w2, st1)))"

subsection \<open>A run of a suite\<close>

text \<open>
  What testify does with a suite, and gorm with the rows a test creates: a creation calls every callback registered, with the
  table and the primary fields of the row. \<open>body\<close> is the effect of a test on the database, \<open>hooks\<close> the registered callbacks.
\<close>

type_synonym creation = "string \<times> (string \<times> gval) list"

definition created_row :: "creation \<Rightarrow> string \<times> keys" where
  "created_row c = row_of (hd (record_entity (fst c) (snd c) []))"

definition fire :: "string set \<Rightarrow> creation \<Rightarrow> ('d, 'w) db_suite \<Rightarrow> ('d, 'w) db_suite" where
  "fire hs c s = s\<lparr>su_entities := (\<lambda>h. if h \<in> hs then record_entity (fst c) (snd c) (su_entities s h) else su_entities s h)\<rparr>"

definition run_test :: "('c, 'm) log_env \<Rightarrow> ('d, 'w) gorm_conn \<Rightarrow> ('w \<Rightarrow> string set) \<Rightarrow> (creation list \<Rightarrow> 'w \<Rightarrow> 'w) \<Rightarrow> string \<times> creation list
    \<Rightarrow> ('d, 'w) db_suite \<Rightarrow> 'w \<Rightarrow> log_state \<Rightarrow> (goerror option \<times> ('d, 'w) db_suite \<times> 'w \<times> log_state) go" where
  "run_test env GC hooks body t s w st =
     go_bind (SetupTest GC (fst t) s w) (\<lambda>(s1, w1).
     let s2 = fold (fire (hooks w1)) (snd t) s1 in
     go_bind (TearDownTest env GC s2 (body (snd t) w1) st) (\<lambda>(failure, w2, st1). Ret (failure, s2, w2, st1)))"

fun run_tests :: "('c, 'm) log_env \<Rightarrow> ('d, 'w) gorm_conn \<Rightarrow> ('w \<Rightarrow> string set) \<Rightarrow> (creation list \<Rightarrow> 'w \<Rightarrow> 'w) \<Rightarrow> (string \<times> creation list) list
    \<Rightarrow> ('d, 'w) db_suite \<Rightarrow> 'w \<Rightarrow> log_state \<Rightarrow> (goerror list \<times> ('d, 'w) db_suite \<times> 'w \<times> log_state) go" where
  "run_tests env GC hooks body [] s w st = Ret ([], s, w, st)"
| "run_tests env GC hooks body (t # ts) s w st =
     go_bind (run_test env GC hooks body t s w st) (\<lambda>(failure, s1, w1, st1).
     go_bind (run_tests env GC hooks body ts s1 w1 st1) (\<lambda>(failures, s2, w2, st2).
     Ret (case failure of None \<Rightarrow> failures | Some e \<Rightarrow> e # failures, s2, w2, st2)))"

text \<open>What gorm documents, beside \<open>gorm_ok\<close>: opening, the log mode, registering a callback and closing change no row; a test adds its rows.\<close>

definition conn_ok :: "('d, 'w) gorm_conn \<Rightarrow> ('w \<Rightarrow> rows) \<Rightarrow> ('w \<Rightarrow> 'd \<Rightarrow> rows option)
    \<Rightarrow> ('w \<Rightarrow> (string \<times> keys) list) \<Rightarrow> ('w \<Rightarrow> string set) \<Rightarrow> bool" where
  "conn_ok GC committed pending issued hooks \<longleftrightarrow>
     gorm_ok (gc_lib GC) committed pending issued hooks \<and>
     (\<forall>n w. committed (gorm_RegisterHook (gc_lib GC) n w) = committed w \<and> hooks (gorm_RegisterHook (gc_lib GC) n w) = insert n (hooks w)) \<and>
     (\<forall>d b w. committed (gc_LogMode GC d b w) = committed w \<and> hooks (gc_LogMode GC d b w) = hooks w) \<and>
     (\<forall>d w. committed (gc_Close GC d w) = committed w) \<and>
     (\<forall>n c w. committed (snd (gc_Open GC n c w)) = committed w)"

definition body_ok :: "(creation list \<Rightarrow> 'w \<Rightarrow> 'w) \<Rightarrow> ('w \<Rightarrow> (string \<times> keys) set) \<Rightarrow> ('w \<Rightarrow> string set) \<Rightarrow> bool" where
  "body_ok body committed hooks \<longleftrightarrow>
     (\<forall>cs w. committed (body cs w) = committed w \<union> created_row ` set cs \<and> hooks (body cs w) = hooks w)"

subsection \<open>Lemmas\<close>

lemma fire_simps [simp]:
  "su_config (fold (fire hs) cs s) = su_config s" "su_DB (fold (fire hs) cs s) = su_DB s"
  "su_CleanTest (fold (fire hs) cs s) = su_CleanTest s" "su_CleanSuite (fold (fire hs) cs s) = su_CleanSuite s"
  by (induction cs arbitrary: s) (simp_all add: fire_def)

lemma fire_entities:
  "map row_of (su_entities (fold (fire hs) cs s) h) =
     map row_of (su_entities s h) @ (if h \<in> hs then map created_row cs else [])"
  by (induction cs arbitrary: s) (auto simp: fire_def created_row_def record_entity_def)

lemma keys_of_fields: "fs \<noteq> [] \<Longrightarrow> foldl (\<lambda>m (k, v). m(k \<mapsto> v)) Map.empty fs \<noteq> Map.empty"
  by (induction fs rule: rev_induct) (auto split: prod.split)

lemma fire_keys:
  assumes "\<forall>en \<in> set (su_entities s h). en_keys en \<noteq> Map.empty" and "\<forall>c \<in> set cs. snd c \<noteq> []"
  shows "\<forall>en \<in> set (su_entities (fold (fire hs) cs s) h). en_keys en \<noteq> Map.empty"
  using assms
proof (induction cs arbitrary: s)
  case (Cons c cs)
  have "\<forall>en \<in> set (su_entities (fire hs c s) h). en_keys en \<noteq> Map.empty"
    using Cons.prems keys_of_fields [of "snd c"] by (simp add: fire_def record_entity_def)
  with Cons show ?case by simp
qed simp

text \<open>A clean-up over recorded rows: in one transaction, or not at all; without a transaction it panics.\<close>

lemma call_clean_outcome:
  assumes "good_caller (env_caller env)" and "pkg_errors_ok (env_P env)" and "conn_ok GC committed pending issued hooks"
    and "\<forall>en \<in> set (su_entities s hook). en_keys en \<noteq> Map.empty" and "\<not> gorm_InTransaction (gc_lib GC) db"
    and "ErrorReportingRequired (su_config s)"
  shows "begins (gc_lib GC) pending db w \<Longrightarrow>
      \<exists>failure w' st'. call_clean env GC s (Some (db, hook)) w st = Ret (failure, w', st') \<and>
        committed w' = (if failure = None then committed w - set (map row_of (su_entities s hook)) else committed w) \<and>
        hooks w' = hooks w - {hook}"
    and "\<not> begins (gc_lib GC) pending db w \<Longrightarrow> panics (call_clean env GC s (Some (db, hook)) w st)"
proof -
  have ok: "gorm_ok (gc_lib GC) committed pending issued hooks" using assms(3) by (simp add: conn_ok_def)
  note spec = clean_up_spec [OF assms(1,2) ok assms(4,5), where pk = "gc_print_keys GC" and hn = hook and w = w and st = st]
  show "panics (call_clean env GC s (Some (db, hook)) w st)" if "\<not> begins (gc_lib GC) pending db w"
    using spec that assms(6) by (simp add: call_clean_def)
  assume starts: "begins (gc_lib GC) pending db w"
  from spec [unfolded if_P [OF starts]] obtain r w' st' where "clean_up env (gc_lib GC) (gc_print_keys GC) True db hook (su_entities s hook) w st = Ret (r, w', st')"
    "r = None \<longrightarrow> committed w' = committed w - row_of ` set (su_entities s hook) \<and> issued w' = issued w @ map row_of (rev (su_entities s hook))"
    "r \<noteq> None \<longrightarrow> committed w' = committed w \<and> (\<exists>dn post. rev (su_entities s hook) = dn @ post \<and> issued w' = issued w @ map row_of dn)"
    "hooks w' = hooks w - {hook}" by (elim exE conjE) (rule that)
  with assms(6) show "\<exists>failure w' st'. call_clean env GC s (Some (db, hook)) w st = Ret (failure, w', st') \<and>
        committed w' = (if failure = None then committed w - set (map row_of (su_entities s hook)) else committed w) \<and>
        hooks w' = hooks w - {hook}"
    by (intro exI [of _ r] exI [of _ w'] exI [of _ st']) (simp add: call_clean_def)
qed

text \<open>A suite whose callback has recorded the creations \<open>cs\<close> so far.\<close>

definition suite_ready :: "('w \<Rightarrow> string set) \<Rightarrow> 'd \<Rightarrow> string \<Rightarrow> creation list \<Rightarrow> ('d, 'w) db_suite \<Rightarrow> 'w \<Rightarrow> bool" where
  "suite_ready hooks db hook cs s w \<longleftrightarrow>
     su_DB s = Some db \<and> su_CleanSuite s = Some (db, hook) \<and> CleanTestDataEnabled (su_config s) \<and> ErrorReportingRequired (su_config s) \<and>
     hook \<in> hooks w \<and> map row_of (su_entities s hook) = map created_row cs \<and> (\<forall>en \<in> set (su_entities s hook). en_keys en \<noteq> Map.empty)"

lemma run_test_step:
  assumes "good_caller (env_caller env)" and "pkg_errors_ok (env_P env)" and "conn_ok GC committed pending issued hooks"
    and "body_ok body committed hooks" and "\<not> gorm_InTransaction (gc_lib GC) db"
    and "suite_ready hooks db hook cs s w" and "newHookname (fst t) \<noteq> hook" and "\<forall>c \<in> set (snd t). snd c \<noteq> []"
  shows "(\<exists>failure s' w' st'. run_test env GC hooks body t s w st = Ret (failure, s', w', st') \<and>
      suite_ready hooks db hook (cs @ snd t) s' w' \<and>
      committed w' = (if failure = None then committed w - created_row ` set (snd t) else committed w \<union> created_row ` set (snd t))) \<or>
    (\<exists>w'. \<not> begins (gc_lib GC) pending db w') \<and> panics (run_test env GC hooks body t s w st)"
proof -
  let ?h = "newHookname (fst t)"
  let ?w1 = "gorm_RegisterHook (gc_lib GC) ?h w"
  let ?s1 = "s\<lparr>su_entities := (su_entities s)(?h := []), su_CleanTest := Some (db, ?h)\<rparr>"
  let ?s2 = "fold (fire (hooks ?w1)) (snd t) ?s1" and ?w2 = "body (snd t) ?w1"
  note ready = assms(6) [unfolded suite_ready_def]
  have set_up: "SetupTest GC (fst t) s w = Ret (?s1, ?w1)"
    using ready by (simp add: SetupTest_def start_recording_def DeleteCreatedEntities_def Let_def)
  have w1: "committed ?w1 = committed w" "hooks ?w1 = insert ?h (hooks w)"
    using assms(3) by (simp_all add: conn_ok_def)
  have w2: "committed ?w2 = committed w \<union> created_row ` set (snd t)" "hooks ?w2 = insert ?h (hooks w)"
    using assms(4) w1 by (simp_all add: body_ok_def)
  have rows: "map row_of (su_entities ?s2 ?h) = map created_row (snd t)"
    "map row_of (su_entities ?s2 hook) = map created_row (cs @ snd t)"
    using ready assms(7) w1(2) by (auto simp: fire_entities)
  have keys: "\<forall>en \<in> set (su_entities ?s2 ?h). en_keys en \<noteq> Map.empty" "\<forall>en \<in> set (su_entities ?s2 hook). en_keys en \<noteq> Map.empty"
    using ready assms(7,8) by (intro fire_keys; simp)+
  have "ErrorReportingRequired (su_config ?s2)" using ready by simp
  note outcome = call_clean_outcome [OF assms(1-3) keys(1) assms(5) this, of ?w2 st]
  have run: "run_test env GC hooks body t s w st =
      go_bind (call_clean env GC ?s2 (Some (db, ?h)) ?w2 st) (\<lambda>(failure, w2, st1). Ret (failure, ?s2, w2, st1))"
    using ready by (simp add: run_test_def set_up TearDownTest_def Let_def)
  show ?thesis
  proof (cases "begins (gc_lib GC) pending db ?w2")
    case False
    with outcome(2) have "panics (run_test env GC hooks body t s w st)" unfolding run
      by (cases "call_clean env GC ?s2 (Some (db, ?h)) ?w2 st") simp_all
    with False show ?thesis by blast
  next
    case True
    then obtain failure w' st' where clean: "call_clean env GC ?s2 (Some (db, ?h)) ?w2 st = Ret (failure, w', st')"
      "committed w' = (if failure = None then committed ?w2 - set (map row_of (su_entities ?s2 ?h)) else committed ?w2)"
      "hooks w' = hooks ?w2 - {?h}" using outcome(1) by blast
    have "run_test env GC hooks body t s w st = Ret (failure, ?s2, w', st')" unfolding run clean(1) by simp
    moreover have "suite_ready hooks db hook (cs @ snd t) ?s2 w'"
      using ready rows(2) keys(2) clean(3) w2(2) assms(7) by (auto simp: suite_ready_def)
    moreover have "committed w' = (if failure = None then committed w - created_row ` set (snd t) else committed w \<union> created_row ` set (snd t))"
      using clean(2) w2(1) by (auto simp: rows(1))
    ultimately show ?thesis by blast
  qed
qed

lemma run_tests_invariant:
  assumes "good_caller (env_caller env)" and "pkg_errors_ok (env_P env)" and "conn_ok GC committed pending issued hooks"
    and "body_ok body committed hooks" and "\<not> gorm_InTransaction (gc_lib GC) db"
    and "suite_ready hooks db hook cs s w" and "\<forall>t \<in> set ts. newHookname (fst t) \<noteq> hook \<and> (\<forall>c \<in> set (snd t). snd c \<noteq> [])"
  shows "(\<exists>failures s' w' st'. run_tests env GC hooks body ts s w st = Ret (failures, s', w', st') \<and>
      suite_ready hooks db hook (cs @ concat (map snd ts)) s' w' \<and>
      committed w - created_row ` set (concat (map snd ts)) \<subseteq> committed w' \<and>
      committed w' \<subseteq> committed w \<union> created_row ` set (concat (map snd ts)) \<and>
      (failures = [] \<longrightarrow> committed w' = committed w - created_row ` set (concat (map snd ts)))) \<or>
    (\<exists>w'. \<not> begins (gc_lib GC) pending db w') \<and> panics (run_tests env GC hooks body ts s w st)"
  using assms(6,7)
proof (induction ts arbitrary: cs s w st)
  case (Cons t ts)
  have t: "newHookname (fst t) \<noteq> hook" "\<forall>c \<in> set (snd t). snd c \<noteq> []" using Cons.prems(2) by simp_all
  let ?A = "created_row ` set (snd t)" and ?B = "created_row ` set (concat (map snd ts))"
  have R: "created_row ` set (concat (map snd (t # ts))) = ?A \<union> ?B" by (simp add: image_Un)
  have rest: "\<forall>t \<in> set ts. newHookname (fst t) \<noteq> hook \<and> (\<forall>c \<in> set (snd t). snd c \<noteq> [])" using Cons.prems(2) by simp
  from run_test_step [OF assms(1-5) Cons.prems(1) t, of st] consider
    (runs) f s1 w1 st1 where "run_test env GC hooks body t s w st = Ret (f, s1, w1, st1)" "suite_ready hooks db hook (cs @ snd t) s1 w1"
      "committed w1 = (if f = None then committed w - ?A else committed w \<union> ?A)"
  | (panics) "\<exists>w'. \<not> begins (gc_lib GC) pending db w'" "panics (run_test env GC hooks body t s w st)" by blast
  then show ?case
  proof cases
    case panics
    have "panics (run_tests env GC hooks body (t # ts) s w st)"
      using panics(2) by (cases "run_test env GC hooks body t s w st") simp_all
    with panics(1) show ?thesis by blast
  next
    case runs
    from Cons.IH [OF runs(2) rest, of st1] consider
      (more) fs s2 w2 st2 where "run_tests env GC hooks body ts s1 w1 st1 = Ret (fs, s2, w2, st2)"
        "suite_ready hooks db hook ((cs @ snd t) @ concat (map snd ts)) s2 w2" "committed w1 - ?B \<subseteq> committed w2"
        "committed w2 \<subseteq> committed w1 \<union> ?B" "fs = [] \<longrightarrow> committed w2 = committed w1 - ?B"
    | (stops) "\<exists>w'. \<not> begins (gc_lib GC) pending db w'" "panics (run_tests env GC hooks body ts s1 w1 st1)"
      by (elim disjE exE conjE) blast+
    then show ?thesis
    proof cases
      case stops
      have "panics (run_tests env GC hooks body (t # ts) s w st)"
        using stops(2) runs(1) by (cases "run_tests env GC hooks body ts s1 w1 st1") simp_all
      with stops(1) show ?thesis by blast
    next
      case more
      have "run_tests env GC hooks body (t # ts) s w st = Ret (case f of None \<Rightarrow> fs | Some e \<Rightarrow> e # fs, s2, w2, st2)"
        using runs(1) more(1) by simp
      moreover have "suite_ready hooks db hook (cs @ concat (map snd (t # ts))) s2 w2" using more(2) by simp
      moreover have "committed w - (?A \<union> ?B) \<subseteq> committed w2" "committed w2 \<subseteq> committed w \<union> (?A \<union> ?B)"
        using runs(3) more(3,4) by (cases "f = None"; simp only: if_True if_False simp_thms; blast)+
      moreover have "(case f of None \<Rightarrow> fs | Some e \<Rightarrow> e # fs) = [] \<longrightarrow> committed w2 = committed w - (?A \<union> ?B)"
        using runs(3) more(5) by (cases f) (simp_all add: Diff_eq Int_assoc)
      ultimately show ?thesis unfolding R by blast
    qed
  qed
qed (simp add: Un_upper1)

text \<open>A suite that was set up records from then on.\<close>

lemma set_up_ready:
  assumes "conn_ok GC committed pending issued hooks"
    and "db_SetupSuite env GC os uuid (NewDBTestSuite config) w st = Ret (Goes s0, w0, st0)"
    and "CleanTestDataEnabled config" and "ErrorReportingRequired config"
  shows "\<exists>db. suite_ready hooks db (newHookname uuid) [] s0 w0 \<and> committed w0 = committed w \<and>
    fst (fst (gc_Open GC ''postgres'' (GetPostgresConfig config) w)) = Some db"
proof -
  have out: "db_SetupSuite env GC os uuid (NewDBTestSuite config) w st = Ret (Goes s0, w0, st0)" by (rule assms(2))
  obtain db err w1 where 1: "gc_Open GC ''postgres'' (GetPostgresConfig config) w = ((db, err), w1)"
    by (metis prod.exhaust)
  have c1: "committed w1 = committed w"
    using assms(1) [unfolded conn_ok_def] 1 by (metis snd_conv)
  have req: "Require os [Database] = Goes_On" and set: "os Database \<noteq> None"
    using out by (auto simp: db_SetupSuite_def NewDBTestSuite_def Require_def split: test_outcome.splits option.splits)
  obtain d where d: "db = Some d" "w0 = gorm_RegisterHook (gc_lib GC) (newHookname uuid) (gc_LogMode GC d (DBLogsEnabled config) w1)"
    "s0 = (NewDBTestSuite config)\<lparr>su_DB := Some d, su_entities := (\<lambda>h. [])(newHookname uuid := []), su_CleanSuite := Some (d, newHookname uuid)\<rparr>"
    using out req set 1
    by (cases db; cases err)
      (auto simp: db_SetupSuite_def NewDBTestSuite_def start_recording_def DeleteCreatedEntities_def Let_def go_bind_eq_Ret)
  have "hooks w0 = insert (newHookname uuid) (hooks w1)" "committed w0 = committed w1"
    using assms(1) d(2) by (simp_all add: conn_ok_def)
  with c1 show ?thesis
    using assms(3,4) d(1,3) 1 by (intro exI [of _ d]) (simp add: suite_ready_def NewDBTestSuite_def)
qed


definition plain_conn :: "bool \<Rightarrow> string \<Rightarrow> (plain_db, plain_rows) gorm_conn" where
  "plain_conn starts bad = \<lparr>gc_lib = plain_gorm starts bad, gc_Open = (\<lambda>n c w. ((Some Plain, None), w)), gc_LogMode = (\<lambda>d b w. w),
     gc_Close = (\<lambda>d w. w), gc_print_keys = (\<lambda>k. '''')\<rparr>"

definition plain_body :: "creation list \<Rightarrow> plain_rows \<Rightarrow> plain_rows" where
  "plain_body cs w = w\<lparr>pl_committed := pl_committed w \<union> created_row ` set cs\<rparr>"

lemma plain_conn_ok: "conn_ok (plain_conn starts bad) pl_committed pl_open pl_issued pl_hooks" "body_ok plain_body pl_committed pl_hooks"
  using plain_gorm_ok [of starts bad] by (auto simp: conn_ok_def plain_conn_def body_ok_def plain_body_def plain_gorm_def)

definition ex_rows :: plain_rows where
  "ex_rows = \<lparr>pl_pending = None, pl_committed = {(''users'', [''id'' \<mapsto> VInt 1])}, pl_issued = [], pl_hooks = {}\<rparr>"


text \<open>Switching the time stamps off and on again leaves every callback as it was.\<close>

theorem callbacks_restored:
  assumes "\<And>k n w k' n'. cb_Get CB k' n' (cb_Remove CB k n w) = (if k' = k \<and> n' = n then None else cb_Get CB k' n' w)"
    and "\<And>k n f w k' n'. cb_Get CB k' n' (cb_Register CB k n f w) = (if k' = k \<and> n' = n then f else cb_Get CB k' n' w)"
    and "DisableGormCallbacks CB w = (reset, w')"
  shows "cb_Get CB k ''gorm:update_time_stamp'' w' = None \<and> cb_Get CB k n (reset w') = cb_Get CB k n w"
  using assms(3) by (cases k) (auto simp: DisableGormCallbacks_def Let_def assms(1,2))

theorem callbacks_restored_witness:
  "(let CB = \<lparr>cb_Get = (\<lambda>k n w. w (k, n)), cb_Remove = (\<lambda>k n w. w((k, n) := None)), cb_Register = (\<lambda>k n f w. w((k, n) := f))\<rparr>;
        (reset, w') = DisableGormCallbacks CB [(CreateCallbacks, ''gorm:update_time_stamp'') \<mapsto> (7 :: nat)]
    in cb_Get CB CreateCallbacks ''gorm:update_time_stamp'' (reset w') = Some 7)"
proof -
  let ?CB = "\<lparr>cb_Get = (\<lambda>k n w. w (k, n)), cb_Remove = (\<lambda>k n w. w((k, n) := None)), cb_Register = (\<lambda>k n f w. w((k, n) := f))\<rparr>
    :: (nat, cb_kind \<times> string \<Rightarrow> nat option) callback_lib"
  obtain reset w' where d: "DisableGormCallbacks ?CB [(CreateCallbacks, ''gorm:update_time_stamp'') \<mapsto> 7] = (reset, w')"
    by (metis prod.exhaust)
  have "cb_Get ?CB CreateCallbacks ''gorm:update_time_stamp'' (reset w') =
      cb_Get ?CB CreateCallbacks ''gorm:update_time_stamp'' [(CreateCallbacks, ''gorm:update_time_stamp'') \<mapsto> 7]"
    using callbacks_restored [OF _ _ d, of CreateCallbacks "''gorm:update_time_stamp''"] by simp
  with d show ?thesis by (simp add: Let_def)
qed

text \<open>A database that cannot be reached always ends the suite in a panic: that of the logger, or, where the
  logger's level is below error and its \<open>Panic\<close> returns, that of the connection that is nil.\<close>

theorem unreachable_database_panics:
  assumes "Require os [Database] = Goes_On" and "gc_Open GC ''postgres'' (GetPostgresConfig (su_config s)) w = ((None, Some e), w1)"
    and "os Database \<noteq> None"
  shows "panics (db_SetupSuite env GC os uuid s w st)"
  using assms
  by (cases "opt_ctx_fields (env_P env) (env_G env) None") (auto simp: db_SetupSuite_def Let_def log_Panic_def)

theorem unreachable_database_panics_witness:
  "panics (db_SetupSuite (ex_env None) ((plain_conn True ''x'')\<lparr>gc_Open := (\<lambda>n c w. ((None, Some io_EOF), w))\<rparr>) [Database \<mapsto> ''1''] ''u0''
     (NewDBTestSuite (internal_config Map.empty)) ex_rows (ex_logger InfoLevel))"
  by (rule unreachable_database_panics) (simp_all add: Require_def ParseBool_def plain_conn_def)

end
