(* ===== verification/Test_Helpers.thy ===== *)
theory Test_Helpers
  imports Errors
begin

section \<open>Helpers of tests: \<open>test/error.go\<close>, \<open>test/recorder/recorder.go\<close>\<close>

subsection \<open>Asserting an error\<close>

text \<open>
  \<open>AssertError\<close> stops the test when there is no error, and otherwise checks the type of the cause and the text, each check
  reporting its own failure. \<open>assert.IsType\<close> compares dynamic types, here those of the values of \<open>goerror\<close>.
\<close>

primrec dynamic_type :: "goerror \<Rightarrow> string" where
  "dynamic_type (InternalError _) = ''errors.InternalError''"
| "dynamic_type (UnauthorizedError _) = ''errors.UnauthorizedError''"
| "dynamic_type (ForbiddenError _) = ''errors.ForbiddenError''"
| "dynamic_type (VersionConflictError _) = ''errors.VersionConflictError''"
| "dynamic_type (DataConflictError _) = ''errors.DataConflictError''"
| "dynamic_type (ConversionError _) = ''errors.ConversionError''"
| "dynamic_type (BadParameterError _) = ''errors.BadParameterError''"
| "dynamic_type (NotFoundError _) = ''errors.NotFoundError''"
| "dynamic_type (PqError _) = ''*pq.Error''"
| "dynamic_type (GoaError _) = ''*goa.ErrorResponse''"
| "dynamic_type (ForeignError t _ _) = t"

definition same_type :: "goerror \<Rightarrow> goerror \<Rightarrow> bool" where
  "same_type e e' \<longleftrightarrow> dynamic_type e = dynamic_type e'"

definition messageFromMsgAndArgs :: "gval list \<Rightarrow> string go" where
  "messageFromMsgAndArgs msgAndArgs =
     (if length msgAndArgs = 0 then Ret ''''
      else (case as_string (hd msgAndArgs) of
              None \<Rightarrow> Panic ''interface conversion''
            | Some m \<Rightarrow> if length msgAndArgs = 1 then Ret m else Ret (Sprintf m (tl msgAndArgs))))"

datatype assertion = Test_Stops | Checks (type_ok: bool) (text_ok: bool)

definition AssertError :: "pkg_errors \<Rightarrow> goerror option \<Rightarrow> goerror \<Rightarrow> gval list \<Rightarrow> assertion go" where
  "AssertError P actualError expectedType expectedMsgAndArgs =
     (case actualError of
        None \<Rightarrow> Ret Test_Stops
      | Some e \<Rightarrow>
          go_bind (messageFromMsgAndArgs expectedMsgAndArgs) (\<lambda>expected.
          go_bind (Error e) (\<lambda>actual.
          Ret (Checks (case errs_Cause P (Some e) of None \<Rightarrow> False | Some c \<Rightarrow> same_type expectedType c) (expected = actual)))))"

subsection \<open>Recorded HTTP sessions\<close>

text \<open>
  \<open>os.Stat\<close> is asked whether the cassette is there; the recorder, of type \<open>'r\<close>, and the matchers, of type \<open>'t\<close>,
  are go-vcr's.
\<close>

record ('r, 't) vcr_lib =
  os_Stat :: "string \<Rightarrow> goerror option"
  recorder_New :: "string \<Rightarrow> goerror + 'r"
  SetMatcher :: "'t \<Rightarrow> 'r \<Rightarrow> 'r"

definition WithMatcher :: "('r, 't) vcr_lib \<Rightarrow> 't \<Rightarrow> 'r \<Rightarrow> 'r" where
  "WithMatcher V matcher r = SetMatcher V matcher r"

definition recorder_New_with :: "pkg_errors \<Rightarrow> ('r, 't) vcr_lib \<Rightarrow> string \<Rightarrow> ('r \<Rightarrow> 'r) list \<Rightarrow> goerror + 'r" where
  "recorder_New_with P V cassetteName options =
     (case os_Stat V (Sprintf ''%s.yaml'' [VString cassetteName]) of
        Some err \<Rightarrow> Inl (the (errs_Wrapf P (Some err)
          (Sprintf (''unable to find file '' @ [CHR 0x27] @ ''%s.yaml'' @ [CHR 0x27]) [VString cassetteName])))
      | None \<Rightarrow>
          (case recorder_New V cassetteName of
             Inl err \<Rightarrow> Inl (the (errs_Wrapf P (Some err)
               (Sprintf (''unable to create recorder from file '' @ [CHR 0x27] @ ''%s.yaml'' @ [CHR 0x27]) [VString cassetteName])))
           | Inr r \<Rightarrow> Inr (foldl (\<lambda>r opt. opt r) r options)))"

subsection \<open>The properties\<close>

text \<open>\<open>AssertError\<close> accepts an error however it was wrapped, exactly when its cause has the type expected and its
  text is the message formatted; each check fails on its own.\<close>

theorem assert_error_spec:
  assumes "pkg_errors_ok P" and "wrapped P ms c = Some e" and "\<not> has_Cause c" and "Error e = Ret t"
  shows "AssertError P (Some e) expected [VString m] = Ret (Checks (same_type expected c) (m = t)) \<and>
    AssertError P (Some e) expected (VString f # a # args) = Ret (Checks (same_type expected c) (Sprintf f (a # args) = t)) \<and>
    AssertError P None expected args = Ret Test_Stops"
proof -
  have "errs_Cause P (Some e) = Some c"
    using cause_wrapped [OF assms(1), of ms c] cause_self [OF assms(1,3)] assms(2) by simp
  with assms(4) show ?thesis by (simp add: AssertError_def messageFromMsgAndArgs_def)
qed

theorem assert_error_spec_witness:
  "AssertError documented_errs (Some (NewNotFoundError ''user'' ''42'')) (NewNotFoundError '''' '''')
     [VString ''user with id '%s' not found'', VString ''42''] =
   Ret (Checks True (Sprintf ''user with id '%s' not found'' [VString ''42''] = text_of (NewNotFoundError ''user'' ''42'')))"
  using assert_error_spec [OF documented_errs_ok, of "[]" "NewNotFoundError ''user'' ''42''" "NewNotFoundError ''user'' ''42''"]
  by (simp add: NewNotFoundError_def text_of_def wrapped_def same_type_def)

text \<open>A session is replayed only from a file that is there; then the options apply in their order, so the last matcher counts.\<close>

lemma recorder_options:
  assumes "pkg_errors_ok P"
  shows "(\<exists>e. os_Stat V (cassette @ ''.yaml'') = Some e) \<longrightarrow>
      (\<exists>e'. recorder_New_with P V cassette opts = Inl e')"
    and "os_Stat V (cassette @ ''.yaml'') = None \<and> recorder_New V cassette = Inr r \<longrightarrow>
      recorder_New_with P V cassette (opts @ [WithMatcher V t]) = Inr (SetMatcher V t (foldl (\<lambda>r opt. opt r) r opts))"
  by (auto simp: recorder_New_with_def WithMatcher_def print_arg_def extra_args_def)

end
