(* ===== verification/Spec2Isabelle.thy ===== *)
theory Spec2Isabelle
  imports Id_Collections Migration Goamiddleware Auth_Service Proxy Metrics Sentry Configuration
    Equaler Generators Utilities Pipeline Test_Auth Test_Suites Test_Helpers
begin

text \<open>
  A verification library for \<open>fabric8-common\<close>, the Go packages that the fabric8 services share. All the
  paths below are under \<open>src/\<close>.

  \<^bold>\<open>The program.\<close> A service that uses these packages starts by reading its settings
  (\<open>configuration\<close>), sets up logging (\<open>log\<close>), error reports (\<open>sentry\<close>) and metrics (\<open>metric\<close>), and brings
  the schema of its database up to date (\<open>migration\<close>). A request then passes through goa's middleware:
  \<open>LogRequest\<close> logs it, below it the error handler turns errors into documents, \<open>Recorder\<close> counts it, \<open>InjectTokenManager\<close> puts the token manager (\<open>auth\<close>, whose keys come
  from \<open>auth/jwk\<close>) into its context and \<open>TokenContext\<close> (\<open>goamiddleware\<close>) the verified token; a handler
  locates the identity, asks the authentication service for scopes (\<open>auth/service.go\<close>), forwards ID and token
  to other services (\<open>goasupport\<close>) or proxies the whole request (\<open>httpsupport\<close>), and answers with typed errors (\<open>errors\<close>).
  \<open>id\<close>, \<open>convert\<close>, \<open>gormsupport\<close> and \<open>closeable\<close> are helpers; \<open>resource\<close>, \<open>gocksupport\<close>, \<open>internal\<close> and
  \<open>test\<close> serve the tests of these services.

  \<^bold>\<open>How Go is modelled.\<close> \<open>Go_Prelude\<close> has the outcome of a call that may panic (\<open>Ret\<close>, \<open>Panic\<close>, with \<open>go_bind\<close>),
  dynamic values, truncating division and \<open>fmt.Sprintf\<close>; \<open>Go_Strings\<close>, \<open>Http_Header\<close>, \<open>Net_Url\<close> and
  \<open>Go_Slices\<close> (backing arrays on a heap, since \<open>append\<close> can write into shared memory) model what the code uses of the
  standard library. A struct is a record, an interface with known implementations a datatype, an error or a
  value a sum, a nil-able pointer an option, a map a partial function; a loop over a map takes the visiting order as an
  argument, and every theorem holds for all orders. State is passed explicitly: the
  loggers, the metrics registry, the database, the network. A third-party package is a record of functions given as an argument (\<open>pkg_errors\<close>,
  \<open>uuid_lib\<close>, \<open>goa_lib\<close>, \<open>jwt_lib\<close>, \<open>sql_driver\<close>, \<open>prom_lib\<close>, \<open>raven_lib\<close>, \<open>viper_lib\<close>, \<open>gorm_lib\<close>, \<open>gen_lib\<close>);
  its documented behaviour is a predicate \<open>..._ok\<close>, a hypothesis where it is used, and a
  concrete instance satisfies it in the witnesses.

  \<^bold>\<open>Theories.\<close>
  \<^item> \<open>Errors\<close> (\<open>errors/errors.go\<close>): the constructors, texts and tests of the typed errors. They are mutually
    exclusive, and \<open>FromStatusCode\<close> gives the one its status asks for.
  \<^item> \<open>Uuid\<close>, \<open>Id_Collections\<close> (\<open>id/*.go\<close>): UUID slices and maps as sets, \<open>Diff\<close> as the symmetric difference of multisets
    and what it overwrites on the heap, round trips of maps and of \<open>NullUUID\<close>.
  \<^item> \<open>Migration\<close> (\<open>migration/migration.go\<close>): \<open>Migrate\<close> down to every SQL statement, over a database whose every call
    may fail. A run only ever commits whole versions in order (an invariant over the trace of commits), succeeds when the
    database works, and keeps the discipline of transactions over the calls it makes: a version is committed exactly when all of
    its calls succeeded, and any other end of a transaction is a rollback and a reported error. What the driver answers about the
    version table depends on the catalog, which has to be the database's own.
  \<^item> \<open>Context\<close>, \<open>Log\<close> (\<open>log/*.go\<close>, \<open>goasupport/forward_*.go\<close>): the two loggers as a trace of entries, levels,
    fields, masking of credentials, the transparency of \<open>LogRequest\<close> for every next handler, forwarding of ID and token.
  \<^item> \<open>Jwk\<close>, \<open>Auth\<close>, \<open>Auth_Service\<close> (\<open>auth\<close>): the token manager as a key store (the locale \<open>key_store\<close>), the three ways to
    parse a token, the identity, and the remote calls with the bodies they leave open.
  \<^item> \<open>Goamiddleware\<close> (\<open>goamiddleware/jwt_token_context.go\<close>): the decision about a request with its context and response.
  \<^item> \<open>Http_Support\<close>, \<open>Proxy\<close> (\<open>httpsupport/*.go\<close>): URLs, query parameters, bodies, the e-mail test, the director and the unzipping
    writer of the reverse proxy, where closing the decompressor may fail.
  \<^item> \<open>Metrics\<close> (\<open>metric/*.go\<close>): registration and observation of the four collectors, with the names that Prometheus
    accepts; the size of a request in 64-bit arithmetic.
  \<^item> \<open>Sentry\<close> (\<open>sentry/sentry.go\<close>): calls, shutdown, blocked senders and the loops as a step relation; an invariant
    over all interleavings, a refinement of mailboxes, liveness of the loop over channels whose blocked senders queue in order.
  \<^item> \<open>Jsonapi\<close> (\<open>goasupport/jsonapi_errors_helpers/*.go.txt\<close>): errors as documents, the answer an action
    gives, the error handler; an error keeps its kind through the document and \<open>FromStatusCode\<close>.
  \<^item> \<open>Pipeline\<close>: the middlewares around each other. What a transparent one promises is the locale \<open>transparent_middleware\<close>, closed
    under composition and interpreted on \<open>LogRequest\<close> and \<open>InjectTokenManager\<close>; with it, what a client gets from the whole chain.
  \<^item> \<open>Configuration\<close> (\<open>configuration/configuration.go\<close>): every getter as the precedence of environment, file and default,
    with viper's shadowing of nested keys.
  \<^item> \<open>Equaler\<close> (\<open>convert/equaler.go\<close>, \<open>gormsupport/*.go\<close>): the implementations of one interface behind the locale
    \<open>equaler_type\<close>, the rounding of the database's clock, the tests of PostgreSQL errors.
  \<^item> \<open>Generators\<close> (\<open>goasupport/jsonapi_errors_helpers/generator.go\<close>, \<open>goasupport/status/generator.go\<close>), \<open>Resource\<close>
    (\<open>resource/require.go\<close>) and \<open>Utilities\<close> (\<open>closeable\<close>, \<open>convert/ptr\<close>, \<open>gocksupport\<close>).
  \<^item> \<open>Db_Suite\<close> (\<open>test/suite/db_clean.go\<close>) and \<open>Test_Suites\<close> (\<open>test/suite/*.go\<close>, \<open>internal\<close>): the clean-up after a test, all or
    nothing (over plain connections, which commit at once, and transactions, which may not begin), and the suites around it; an invariant over the tests of a suite, at whose end the database is as before.
  \<^item> \<open>Test_Auth\<close> (\<open>test/auth/auth.go\<close>): the tokens that tests sign, through the manager and the middleware back to the
    identity or the service account; \<open>Test_Helpers\<close> (\<open>test/error.go\<close>, \<open>test/recorder/recorder.go\<close>).

  This theory composes them: the identity of a request through both token middlewares (\<open>handler_sees_only\<close>), traced back to
  the document from which \<open>FetchKeys\<close> took the key (\<open>published\<close>, \<open>NewManager_trusts\<close>), and the canonical form of all
  headers that are sent.

  \<^bold>\<open>Termination and bounds.\<close> No definition needs fuel: the loops of the source run over lists, the loop of
  \<open>writeFile\<close> over file extensions has a measure (the name gets shorter), and the loop of \<open>Migrate\<close>, which ends only when the
  database says so, is a partial function into \<open>option\<close>, with theorems that it returns. Integers that can overflow
  (sizes of requests, lengths) are reduced to 64 bits where the source computes with \<open>int\<close>.

  \<^bold>\<open>Not modelled.\<close> The log lines of \<open>Migrate\<close>, \<open>NewManager\<close>, \<open>FetchKeys\<close> and of the hook in \<open>db_clean.go\<close>, which
  write to the log and do nothing else; how \<open>logrus\<close> formats a line and how \<open>spew\<close> prints a value; what the suites print on the terminal; the
  declarations without code of their own: the interface types that only list the methods modelled (\<open>Manager\<close>, \<open>AuthService\<close>),
  the assertions of the kind \<open>var _ I = T{}\<close>, and the types and constants that nothing in the repository uses (\<open>PrivateKey\<close>,
  \<open>ErrInternalDatabase\<close>). \<open>float64\<close> values are exact rationals.
\<close>

section \<open>Properties that span components\<close>

subsection \<open>From the request to the identity\<close>

lemma identity_from_token:
  assumes "goa_ok (env_G env)"
    and "ContextJWT (env_G env) c = (if b then Some t else None)"
    and "ctx_Value (env_G env) c contextTokenManagerKey = AManager mgm"
    and "LocateIdentity env U c st1 = Ret (Inr (u, name), st2)"
  shows "b \<and> (\<exists>m s. tok_Claims t = MapClaims m \<and> m ''sub'' = VString s \<and> uuid_FromString U s = Inr u \<and>
            m ''preferred_username'' = VString name)"
proof -
  have "LocateIdentity env U c st1 = go_bind (Locate (env_P env) (env_G env) U c) (\<lambda>r. Ret (r, st1))"
    using assms(3) by (simp add: LocateIdentity_def ReadManagerFromContext_def)
  with assms(4) have "Locate (env_P env) (env_G env) U c = Ret (Inr (u, name))"
    by (auto simp: go_bind_eq_Ret)
  then show ?thesis
    using assms(2)
    by (auto simp: Locate_def map_claims_def as_string_Some_iff split: option.splits sum.splits if_splits claims.splits)
qed

text \<open>What a handler behind both middlewares finds in its context.\<close>

definition claimed_identity :: "uuid_lib \<Rightarrow> jwt_token \<Rightarrow> uuid \<Rightarrow> string \<Rightarrow> bool" where
  "claimed_identity U t u name \<longleftrightarrow> (\<exists>m s. tok_Claims t = MapClaims m \<and> m ''sub'' = VString s \<and> uuid_FromString U s = Inr u \<and>
     m ''preferred_username'' = VString name)"

definition sees_only :: "('c, 'k tokenManager) log_env \<Rightarrow> uuid_lib \<Rightarrow> (jwt_token \<Rightarrow> bool) \<Rightarrow> 'c \<Rightarrow> bool" where
  "sees_only env U trusted c \<longleftrightarrow>
     (\<forall>u name st1 st2. LocateIdentity env U c st1 = Ret (Inr (u, name), st2) \<longrightarrow> (\<exists>t. trusted t \<and> claimed_identity U t u name)) \<and>
     (\<forall>signer. NewForwardSigner (env_G env) c = Some signer \<longrightarrow> (\<exists>t. trusted t \<and> fs_token signer = tok_Raw t))"

lemma sees_only_mono: "sees_only env U p c \<Longrightarrow> (\<And>t. p t \<Longrightarrow> q t) \<Longrightarrow> sees_only env U q c"
  unfolding sees_only_def by blast

lemma handler_sees_only:
  assumes "jwt_ok J verifies" and "jwt_total J" and "pkg_errors_ok (env_P env)" and "goa_ok (env_G env)" and "uni_ok uni"
    and "good_caller (env_caller env)" and "ContextJWT (env_G env) ctx = None" and "sch_In scheme = LocHeader"
  shows "(\<exists>c st'. InjectTokenManager (env_G env) mgm (TokenContext J env uni mk mgm scheme nh) ctx req resp st = nh c req resp st' \<and>
       sees_only env U (\<lambda>t. bearer uni scheme req \<and> verified verifies mgm (bearer_token scheme req) t) c) \<or>
    (\<exists>st'. InjectTokenManager (env_G env) mgm (TokenContext J env uni mk mgm scheme nh) ctx req resp st =
       Ret (Some (mk ''token_validation_failed'' 401 ''token is invalid''), login_required mgm resp, st'))"
proof -
  let ?G = "env_G env" and ?trusted = "\<lambda>t. bearer uni scheme req \<and> verified verifies mgm (bearer_token scheme req) t"
  have sees: "sees_only env U ?trusted c" if mgm: "ctx_Value ?G c contextTokenManagerKey = AManager mgm"
    and jwt: "\<forall>t. ContextJWT ?G c = Some t \<longrightarrow> ?trusted t" for c
  proof -
    have c: "ContextJWT ?G c = (if ContextJWT ?G c \<noteq> None then Some (the (ContextJWT ?G c)) else None)" by simp
    have "\<exists>t. ?trusted t \<and> claimed_identity U t u name" if loc: "LocateIdentity env U c st1 = Ret (Inr (u, name), st2)" for u name st1 st2
      using identity_from_token [OF assms(4) c mgm loc] jwt unfolding claimed_identity_def by fastforce
    moreover have "\<exists>t. ?trusted t \<and> fs_token signer = tok_Raw t" if "NewForwardSigner ?G c = Some signer" for signer
      using that jwt by (auto simp: NewForwardSigner_def split: option.splits)
    ultimately show ?thesis unfolding sees_only_def by blast
  qed
  from token_chain [OF assms, of mgm mk nh req resp st] consider
    (runs) c st' where "InjectTokenManager ?G mgm (TokenContext J env uni mk mgm scheme nh) ctx req resp st = nh c req resp st'"
      "ctx_Value ?G c contextTokenManagerKey = AManager mgm" "\<forall>t. ContextJWT ?G c = Some t \<longrightarrow> ?trusted t"
  | (refused) st' where "InjectTokenManager ?G mgm (TokenContext J env uni mk mgm scheme nh) ctx req resp st =
      Ret (Some (mk ''token_validation_failed'' 401 ''token is invalid''), login_required mgm resp, st')"
    by (auto split: option.splits)
  then show ?thesis
  proof cases
    case runs
    from runs(1) sees [OF runs(2,3)] show ?thesis by blast
  qed blast
qed



definition ex_identity_handler :: "string tokenManager plain_context handler" where
  "ex_identity_handler c req resp st =
     go_bind (LocateIdentity ex_auth_env decimal_uuids c st) (\<lambda>(r, st1).
       case r of Inl e \<Rightarrow> Ret (Some e, resp, st1) | Inr (u, name) \<Rightarrow> Ret (None, with_header ''X-User'' name resp, st1))"

subsection \<open>Headers stay canonical\<close>

definition canonical_keys :: "header \<Rightarrow> bool" where
  "canonical_keys h \<longleftrightarrow> (\<forall>k \<in> dom h. canonical k)"

lemma canonical_keys_methods [intro]:
  "canonical_keys h \<Longrightarrow> canonical_keys (header_Set h k v)"
  "canonical_keys h \<Longrightarrow> canonical_keys (header_Add h k v)"
  "canonical_keys h \<Longrightarrow> canonical_keys (header_Del h k)"
  by (auto simp: canonical_keys_def canonical_def header_Set_def header_Add_def header_Del_def split: if_splits)

lemma canonical_keys_first_values: "canonical_keys h \<Longrightarrow> canonical_keys (first_values ks h)"
  by (induction ks arbitrary: h) (auto split: option.splits list.splits)


lemma canonical_keys_directed: "canonical_keys h \<Longrightarrow> canonical_keys (directed_header rid h)"
  by (auto simp: directed_header_def Let_def)

lemma dom_first_values: "canonical_keys h \<Longrightarrow> dom (first_values ks h) = dom h"
proof (induction ks arbitrary: h)
  case (Cons k ks)
  show ?case
  proof (cases "h k")
    case (Some vs)
    then have "CanonicalMIMEHeaderKey k = k" using Cons.prems by (auto simp: canonical_keys_def canonical_def)
    then have 1: "dom (header_Set h k v) = dom h" for v using Some by (auto simp: header_Set_def)
    have 2: "dom (first_values ks (header_Set h k v)) = dom (header_Set h k v)" for v
      using Cons.IH Cons.prems canonical_keys_methods(1) by blast
    show ?thesis using Some Cons 1 2 by (auto split: list.split)
  qed (use Cons in simp)
qed simp

lemma canonical_content_length: "CanonicalMIMEHeaderKey ''content-length'' = ''Content-Length''"
  "CanonicalMIMEHeaderKey ''Content-Length'' = ''Content-Length''"
  by code_simp+

lemma canonical_request_id: "CanonicalMIMEHeaderKey ''x-request-id'' = CanonicalMIMEHeaderKey ''X-Request-ID''"
  "CanonicalMIMEHeaderKey ''authorization'' = CanonicalMIMEHeaderKey ''Authorization''"
  by code_simp+

text \<open>C35: Every header the program sends keeps its keys in canonical form, whatever the spelling the code
  sets them under: a header that starts with canonical keys still has them after the signer of
  outgoing requests, the proxy's director, the unzipping writer and the request for a login. So a lookup in
  any spelling finds the bearer token and the request ID, and no stale \<open>Content-Length\<close> is left on an
  unzipped response.\<close>

theorem headers_stay_canonical:
  assumes "canonical_keys h"
  shows "canonical_keys (Sign f h) \<and> canonical_keys (directed_header rid h) \<and>
    canonical_keys (gunzip_WriteHeader order h) \<and> canonical_keys (AddLoginRequiredHeader mgm h) \<and>
    header_Get (Sign f h) ''authorization'' = ''Bearer '' @ fs_token f \<and>
    (rid \<noteq> '''' \<longrightarrow> header_Get (directed_header rid h) ''x-request-id'' = rid) \<and>
    header_Get (gunzip_WriteHeader order h) ''content-length'' = ''''"
proof (intro conjI impI)
  have del: "canonical_keys (header_Del h ''Content-Length'')" using assms by blast
  show "canonical_keys (gunzip_WriteHeader order h)"
    using canonical_keys_first_values [OF del] by (simp add: gunzip_WriteHeader_def Let_def)
  have "''Content-Length'' \<notin> dom (gunzip_WriteHeader order h)"
    using dom_first_values [OF del] canonical_content_length(2) by (simp add: gunzip_WriteHeader_def Let_def header_Del_def)
  then show "header_Get (gunzip_WriteHeader order h) ''content-length'' = ''''"
    unfolding header_Get_def header_values_def canonical_content_length by (simp add: domIff)
  show "canonical_keys (AddLoginRequiredHeader mgm h)"
    using assms unfolding AddLoginRequiredHeader_def Let_def by blast
  show "canonical_keys (Sign f h)" using assms unfolding Sign_def by blast
  show "canonical_keys (directed_header rid h)" using canonical_keys_directed [OF assms] .
  show "header_Get (Sign f h) ''authorization'' = ''Bearer '' @ fs_token f"
    unfolding Sign_def Get_Set canonical_request_id by simp
  show "header_Get (directed_header rid h) ''x-request-id'' = rid" if "rid \<noteq> ''''"
    using that by (simp add: directed_header_def Let_def Get_Set canonical_request_id)
qed

theorem headers_stay_canonical_witness:
  "header_Get (gunzip_WriteHeader (\<lambda>h. [''Etag'']) [''Content-Length'' \<mapsto> [''9''], ''Etag'' \<mapsto> [''a'', ''b'']]) ''content-length'' = '''' \<and>
   canonical_keys (gunzip_WriteHeader (\<lambda>h. [''Etag'']) [''Content-Length'' \<mapsto> [''9''], ''Etag'' \<mapsto> [''a'', ''b'']])"
proof -
  have "canonical_keys [''Content-Length'' \<mapsto> [''9''], ''Etag'' \<mapsto> [''a'', ''b'']]"
    by (simp add: canonical_keys_def canonical_def canonical_eval)
  then show ?thesis using headers_stay_canonical by blast
qed

lemma ex_identity_accepted:
  "InjectTokenManager plain_goa ex_manager (TokenContext (kid_jwt ex_user ex_claims) ex_auth_env (\<lambda>s. s)
        (\<lambda>c s m. std_errors_New m) ex_manager ex_scheme ex_identity_handler) background ex_request empty_response quiet =
     Ret (None, with_header ''X-User'' ''jdoe'' empty_response, quiet)"
  by (simp add: InjectTokenManager_def ex_accepts ex_identity_handler_def LocateIdentity_def ReadManagerFromContext_def
      ContextWithTokenManager_def plain_goa_def ex_env_ok(4) Locate_def kid_token_def map_claims_def ex_user_def
      decimal_uuids_def decimal_FromString_def decimal_String_def nat_digits.simps digits_val_def digit_val_def digit_char_def)


definition ex_net :: "(nat, unit) net" where
  "ex_net = \<lparr>default_client = \<lparr>client_Transport = None\<rparr>, network = ()\<rparr>"

definition ex_keys_Do :: "(nat, unit) net_Do" where
  "ex_keys_Do c m u w = (Inr \<lparr>res_Status = ''200 OK'', res_StatusCode = 200,
     res_Body = \<lparr>body_reads = [(''k1'', Some io_EOF)], body_closes = 0, body_close_result = None\<rparr>\<rparr>, w)"

lemma ex_manager_fetched:
  "NewManager documented_errs ex_keys_Do ex_codec ''/keys'' Inr ex_config [] ex_net = (Inr ex_manager, ex_net)"
proof -
  have u: "url_Parse ''https://auth/keys'' = Inr (empty_url\<lparr>url_Scheme := ''https'', url_Host := ''auth'', url_Path := ''/keys''\<rparr>)"
    by code_simp
  have keys: "unmarshalKeys ex_codec ''k1'' = Inr [\<lparr>pk_KeyID = ''k1'', pk_Key = ''k1''\<rparr>]"
    by (simp add: unmarshalKeys_def ex_codec_def unmarshalKey_def)
  have "FetchKeys documented_errs ex_keys_Do ex_codec ''https://auth/keys'' [] ex_net =
      (Inr [\<lparr>pk_KeyID = ''k1'', pk_Key = ''k1''\<rparr>], Some (snd (CloseResponse \<lparr>body_reads = [], body_closes = 0, body_close_result = None\<rparr>)), ex_net)"
    by (simp add: FetchKeys_def u ex_keys_Do_def ex_net_def ReadBody_def ReadAll_def keys apply_options_def StatusOK_def)
  moreover have "RemoveTrailingSlashFromURL (cfg_AuthServiceURL ex_config) @ ''/keys'' = ''https://auth/keys''"
    by (simp add: ex_config_def RemoveTrailingSlashFromURL_def HasSuffix_def)
  ultimately show ?thesis
    using NewManager_cases [where P = documented_errs and do_request = ex_keys_Do and C = ex_codec and config = ex_config
        and keysPath = "''/keys''" and options = "[]" and n = ex_net]
    by (simp add: ex_config_def loaded_def ex_manager_def NewManagerWithPublicKey_def empty_manager_def add_key_def)
qed


end
